(* ===== verification/Kubert_Prelude.thy ===== *)
theory Kubert_Prelude
  imports Main "HOL-Library.Word" "HOL-Library.Monad_Syntax" "HOL-Library.List_Lexorder"
    "HOL-Library.Char_ord"
begin

text \<open>
  The vocabulary the components share: the result of polling a future, the events of a watch,
  fallible iteration (a panic of the Rust code is the value \<open>None\<close>), Rust's integer
  addition, the unspecified iteration order of a hash table, and the lemmas about them that the
  component proofs use through the simplifier or through the collections declared here.
\<close>

named_theorems panic_simps \<open>unfolding of the fallible (option) sequencing of the handlers\<close>
named_theorems view_simps \<open>what an operation does to the abstract contents of a container\<close>

lemmas option_bind_conv [panic_simps] = bind_eq_Some_conv bind_eq_None_conv

subsection \<open>Polling\<close>

text \<open>
  \<open>std::task::Poll\<close>. A future or stream is modelled by its poll function: it takes the
  instant of the poll (all clock readings of one poll agree) and the state, and returns the
  outcome and the next state. A stream's outcome is an option: \<open>Ready None\<close> ends it.
\<close>

datatype 'a poll = Pending | Ready 'a

type_synonym instant = nat
type_synonym ('s, 'a) poll_fn = "instant \<Rightarrow> 's \<Rightarrow> 'a poll \<times> 's"

definition is_ready :: "'a poll \<Rightarrow> bool" where
  "is_ready p = (case p of Pending \<Rightarrow> False | Ready _ \<Rightarrow> True)"

lemma is_ready_simps [simp]: "\<not> is_ready Pending" "is_ready (Ready x)"
  by (simp_all add: is_ready_def)

text \<open>A future or stream polled at a sequence of instants.\<close>

fun polls :: "('s, 'a) poll_fn \<Rightarrow> instant list \<Rightarrow> 's \<Rightarrow> 'a poll list \<times> 's" where
  "polls f [] s = ([], s)"
| "polls f (now # nows) s =
     (case f now s of (p, s) \<Rightarrow> (case polls f nows s of (ps, s) \<Rightarrow> (p # ps, s)))"

declare polls.simps(2) [simp del]

lemma polls_Cons [simp]:
  "polls f (now # nows) s =
     (fst (f now s) # fst (polls f nows (snd (f now s))), snd (polls f nows (snd (f now s))))"
  by (simp add: polls.simps split: prod.split)

text \<open>
  A stream that records the outcomes of its polls, and the items among a list of outcomes: the
  adapters are specified by what they yield in terms of what the stream below them yielded.
\<close>

definition logged :: "('s, 'b) poll_fn \<Rightarrow> ('b poll list \<times> 's, 'b) poll_fn" where
  "logged inner now ls = (case inner now (snd ls) of (p, s) \<Rightarrow> (p, (fst ls @ [p], s)))"

text \<open>A stream whose state holds the outcomes of all its polls, where \<open>L\<close> finds them.\<close>

definition traced :: "('s \<Rightarrow> 'b poll list) \<Rightarrow> ('s, 'b) poll_fn \<Rightarrow> bool" where
  "traced L f \<longleftrightarrow> (\<forall>now s. L (snd (f now s)) = L s @ [fst (f now s)])"

lemma tracedD: "traced L f \<Longrightarrow> f now s = (p, s') \<Longrightarrow> L s' = L s @ [p]"
  by (metis traced_def fst_conv snd_conv)

lemma logged_traced: "traced fst (logged inner)"
  by (simp add: traced_def logged_def split: prod.split)

fun items :: "'a option poll list \<Rightarrow> 'a list" where
  "items [] = []"
| "items (Ready (Some a) # ps) = a # items ps"
| "items (_ # ps) = items ps"

lemma items_append [simp]: "items (ps @ qs) = items ps @ items qs"
  by (induction ps rule: items.induct) auto

subsection \<open>Events of a watch\<close>

text \<open>
  The variants of \<open>kube_runtime::watcher::Event\<close> that the handlers match on. A resource
  is seen through its metadata accessors; a missing namespace or name is \<open>None\<close>.
\<close>

datatype 'r event = Apply 'r | Delete 'r | Init | InitApply 'r | InitDone

record 'r resource_ext =
  res_namespace :: "'r \<Rightarrow> string option"
  res_name :: "'r \<Rightarrow> string option"

subsection \<open>Fallible iteration\<close>

primrec fold_opt :: "('a \<Rightarrow> 'b \<Rightarrow> 'b option) \<Rightarrow> 'a list \<Rightarrow> 'b \<Rightarrow> 'b option" where
  "fold_opt f [] s = Some s"
| "fold_opt f (x # xs) s = Option.bind (f x s) (fold_opt f xs)"

lemma fold_opt_append:
  "fold_opt f (xs @ ys) s = Option.bind (fold_opt f xs s) (fold_opt f ys)"
  by (induction xs arbitrary: s) (auto split: bind_splits)

text \<open>An iteration whose every step succeeds and keeps an invariant succeeds and keeps it.\<close>

lemma fold_opt_invariant:
  assumes "\<And>x s. x \<in> set xs \<Longrightarrow> P s \<Longrightarrow> \<exists>s'. f x s = Some s' \<and> P s'" and "P s"
  shows "\<exists>s'. fold_opt f xs s = Some s' \<and> P s'"
  using assms
proof (induction xs arbitrary: s)
  case (Cons x xs)
  then obtain s' where "f x s = Some s'" "P s'" by (meson list.set_intros(1))
  with Cons show ?case by auto
qed simp

text \<open>The same, with an abstraction of the state that each step updates by a known function.\<close>

lemma fold_opt_abs:
  assumes "\<And>x s. x \<in> set xs \<Longrightarrow> \<exists>s'. f x s = Some s' \<and> av s' = g x (av s)"
  shows "\<exists>s'. fold_opt f xs s = Some s' \<and> av s' = fold g xs (av s)"
  using assms
proof (induction xs arbitrary: s)
  case (Cons x xs)
  then obtain s' where s': "f x s = Some s'" "av s' = g x (av s)" by (meson list.set_intros(1))
  with Cons.IH[of s'] Cons.prems show ?case by auto
qed simp

lemma fold_insert_Un: "fold (\<lambda>x. insert (f x)) xs A = A \<union> f ` set xs"
  by (induction xs arbitrary: A) auto

lemma fold_Diff_singleton: "fold (\<lambda>x A. A - {f x}) xs A = A - f ` set xs"
  by (induction xs arbitrary: A) auto

lemma fold_Diff_Union: "fold (\<lambda>x A. A - f x) xs A = A - \<Union> (f ` set xs)"
  by (induction xs arbitrary: A) auto

subsection \<open>Machine integers\<close>

text \<open>
  Rust's \<open>a + b\<close> on an unsigned type: a build with overflow checks (\<open>oc\<close>) panics
  on overflow, one without wraps around.
\<close>

definition rust_add :: "bool \<Rightarrow> 'n::len word \<Rightarrow> 'n word \<Rightarrow> 'n word option" where
  "rust_add oc a b = (if oc \<and> 2 ^ LENGTH('n) \<le> unat a + unat b then None else Some (a + b))"

lemma rust_add_exact:
  "unat a + unat b < 2 ^ LENGTH('n) \<Longrightarrow> rust_add oc a b = Some (a + b) \<and> unat (a + b) = unat a + unat b"
  for a b :: "'n::len word"
  by (simp add: rust_add_def unat_word_ariths)

lemma rust_add_checked:
  "rust_add True a b = Some c \<Longrightarrow> unat c = unat a + unat b"
  for a b :: "'n::len word"
  by (auto simp: rust_add_def unat_word_ariths split: if_splits)

lemma rust_add_wraps: "rust_add False a b = Some (a + b)"
  by (simp add: rust_add_def)

text \<open>\<open>a * b\<close> on an unsigned type, with or without overflow checks.\<close>

definition rust_mul :: "bool \<Rightarrow> 'n::len word \<Rightarrow> 'n word \<Rightarrow> 'n word option" where
  "rust_mul oc a b = (if oc \<and> 2 ^ LENGTH('n) \<le> unat a * unat b then None else Some (a * b))"

lemma rust_mul_exact:
  "unat a * unat b < 2 ^ LENGTH('n) \<Longrightarrow> rust_mul oc a b = Some (a * b) \<and> unat (a * b) = unat a * unat b"
  for a b :: "'n::len word"
  by (simp add: rust_mul_def unat_word_ariths)

subsection \<open>Hash tables\<close>

text \<open>
  A \<open>HashSet\<close> is a set and a \<open>HashMap\<close> a map; what their iterators yield is some
  enumeration of the elements, in an order the library does not specify. Code that iterates
  takes the enumeration as a parameter.
\<close>

locale hash_order =
  fixes it :: "'a set \<Rightarrow> 'a list"
  assumes it_set: "finite S \<Longrightarrow> set (it S) = S"
    and it_distinct: "finite S \<Longrightarrow> distinct (it S)"
begin

lemma it_empty [simp]: "it {} = []"
  using it_set[of "{}"] by simp

lemma it_length: "finite S \<Longrightarrow> length (it S) = card S"
  by (metis distinct_card it_distinct it_set)

end

interpretation sorted_order: hash_order "sorted_list_of_set :: string set \<Rightarrow> string list"
  by unfold_locales simp_all

subsection \<open>Results\<close>

text \<open>A \<open>Result\<close> is a sum with the error on the left: the \<open>?\<close> operator and \<open>map_err\<close>.\<close>

definition sum_bind :: "'e + 'a \<Rightarrow> ('a \<Rightarrow> 'e + 'b) \<Rightarrow> 'e + 'b" where
  "sum_bind r f = (case r of Inl e \<Rightarrow> Inl e | Inr x \<Rightarrow> f x)"

definition map_err :: "('e \<Rightarrow> 'g) \<Rightarrow> 'e + 'a \<Rightarrow> 'g + 'a" where
  "map_err f r = map_sum f id r"

lemma sum_bind_simps [simp]: "sum_bind (Inl e) f = Inl e" "sum_bind (Inr x) f = f x"
  by (simp_all add: sum_bind_def)

lemma sum_bind_Inr: "sum_bind r f = Inr y \<longleftrightarrow> (\<exists>x. r = Inr x \<and> f x = Inr y)"
  by (cases r) auto

lemma sum_bind_Inl: "sum_bind r f = Inl e \<longleftrightarrow> r = Inl e \<or> (\<exists>x. r = Inr x \<and> f x = Inl e)"
  by (cases r) auto

lemma map_err_simps [simp]:
  "map_err f (Inl e) = Inl (f e)" "map_err f (Inr x) = Inr x" "map_err f r = Inr x \<longleftrightarrow> r = Inr x"
  by (simp_all add: map_err_def) (cases r, auto)

end
