(* ===== verification/Lease_Types.thy ===== *)
theory Lease_Types
  imports Kubert_Prelude
begin

text \<open>
  The data of \<open>kubert/src/lease.rs\<close>: parameters, claims, errors and the manager's cached
  state; the part of the Kubernetes \<open>Lease\<close> object and of the client's error type that the
  file reads; and the JSON patches it sends. Instants of the wall clock and durations are
  nanoseconds, as integers (an instant) and naturals (a \<open>std::time::Duration\<close>). The date
  arithmetic of the \<open>chrono\<close> crate is a parameter with the contract \<open>chrono_spec\<close>.
\<close>

type_synonym timestamp = int
type_synonym duration = nat

record lease_params =
  lp_name :: string
  lp_namespace :: string
  lp_claimant :: string
  lp_lease_duration :: duration
  lp_renew_grace_period :: duration
  lp_field_manager :: "string option"

record claim_params =
  cp_lease_duration :: duration
  cp_renew_grace_period :: duration

definition claim_params_default :: claim_params where
  "claim_params_default = \<lparr>cp_lease_duration = 30 * 10 ^ 9, cp_renew_grace_period = 1 * 10 ^ 9\<rparr>"

record lease_claim =
  claim_holder :: string
  claim_expiry :: timestamp

text \<open>\<open>kube_client::Error\<close>, with the variants \<open>lease.rs\<close> distinguishes.\<close>

datatype kube_error = KApi nat | KAuth | KDiscovery | KBuildRequest | KInferConfig | KOther string

datatype lease_error = EApi kube_error | MissingResourceVersion | MissingSpec | Timeout

record lease_meta =
  meta_version :: string
  meta_transitions :: "16 word"

record lease_state =
  ls_meta :: lease_meta
  ls_claim :: "lease_claim option"

text \<open>The fields of \<open>coordv1::Lease\<close>.\<close>

record lease_spec =
  sp_holder_identity :: "string option"
  sp_acquire_time :: "timestamp option"
  sp_renew_time :: "timestamp option"
  sp_lease_duration_seconds :: "int option"
  sp_lease_transitions :: "int option"

record lease_obj =
  lo_resource_version :: "string option"
  lo_spec :: "lease_spec option"

text \<open>
  The JSON documents passed to \<open>Api::patch\<close>: a member of \<open>spec\<close> is absent,
  \<open>null\<close> or a value.
\<close>

datatype 'a json_field = Absent | Null | Val 'a

record lease_patch =
  pt_resource_version :: string
  pt_acquire_time :: "timestamp json_field"
  pt_renew_time :: "timestamp json_field"
  pt_holder_identity :: "string json_field"
  pt_lease_duration_seconds :: "int json_field"
  pt_lease_transitions :: "int json_field"

datatype patch = PApply lease_patch | PStrategic lease_patch

record patch_params =
  pp_field_manager :: "string option"
  pp_force :: bool

subsection \<open>Dates\<close>

text \<open>
  \<open>chrono\<close>: conversion from and to \<open>std::time::Duration\<close> (\<open>None\<close> when out of
  range), \<open>Duration::MAX\<close>, whole seconds, and the addition and subtraction of a duration,
  which panic (\<open>None\<close>) when the date is out of range.
\<close>

record chrono =
  ch_from_std :: "duration \<Rightarrow> int option"
  ch_to_std :: "int \<Rightarrow> duration option"
  ch_max :: int
  ch_seconds :: "int \<Rightarrow> int"
  ch_num_seconds :: "int \<Rightarrow> int"
  ch_add :: "timestamp \<Rightarrow> int \<Rightarrow> timestamp option"
  ch_sub :: "timestamp \<Rightarrow> int \<Rightarrow> timestamp option"

abbreviation nanos :: int where
  "nanos \<equiv> 1000000000"

locale chrono_spec =
  fixes C :: chrono
  assumes from_std: "ch_from_std C d = Some x \<Longrightarrow> x = int d"
    and to_std_pos: "0 \<le> x \<Longrightarrow> ch_to_std C x = Some (nat x)"
    and to_std_neg: "x < 0 \<Longrightarrow> ch_to_std C x = None"
    and max_pos: "0 \<le> ch_max C"
    and seconds: "ch_seconds C n = n * nanos"
    and num_seconds: "0 \<le> x \<Longrightarrow> ch_num_seconds C x = x div nanos"
    and add: "ch_add C t x = Some u \<Longrightarrow> u = t + x"
    and sub: "ch_sub C t x = Some u \<Longrightarrow> u = t - x"
begin

lemma num_seconds_le: "0 \<le> x \<Longrightarrow> ch_num_seconds C x * nanos \<le> x"
  by (simp add: num_seconds)

lemma num_seconds_slack: "0 \<le> x \<Longrightarrow> x - ch_num_seconds C x * nanos < nanos"
  using pos_mod_bound[of nanos x] by (simp add: num_seconds minus_div_mult_eq_mod)

end

text \<open>Dates without a range limit, and durations below a bound of \<open>2^63\<close> nanoseconds.\<close>

definition ideal_chrono :: chrono where
  "ideal_chrono = \<lparr>ch_from_std = (\<lambda>d. if d < 2 ^ 63 then Some (int d) else None),
     ch_to_std = (\<lambda>x. if 0 \<le> x then Some (nat x) else None),
     ch_max = 2 ^ 63 - 1,
     ch_seconds = (\<lambda>n. n * nanos),
     ch_num_seconds = (\<lambda>x. x div nanos),
     ch_add = (\<lambda>t x. Some (t + x)),
     ch_sub = (\<lambda>t x. Some (t - x))\<rparr>"

interpretation ideal_chrono: chrono_spec ideal_chrono
  by unfold_locales (auto simp: ideal_chrono_def split: if_splits)

end
