(* ===== verification/Lease_Diagnostics.thy ===== *)
theory Lease_Diagnostics
  imports Lease_Types
begin

text \<open>
  \<open>kubert/src/admin/diagnostics/lease.rs\<close>: the record of a lease's state that the admin
  server reports. \<open>secs\<close> is \<open>Duration::as_secs_f64\<close>; the state \<open>'w\<close> of
  the world carries the clock.
\<close>

record lease_stats =
  lst_updates :: "64 word"
  lst_creation_timestamp :: timestamp
  lst_last_update_timestamp :: "timestamp option"

record 'f lease_diag =
  ld_name :: string
  ld_namespace :: string
  ld_claimant :: string
  ld_field_manager :: string
  ld_lease_duration_seconds :: "'f"
  ld_renew_grace_period_seconds :: "'f"
  ld_stats :: lease_stats
  ld_resource_version :: "string option"
  ld_current :: "lease_claim option"

definition default_field_manager :: string where
  "default_field_manager = ''kubert''"

definition ld_new :: "(duration \<Rightarrow> 'f) \<Rightarrow> timestamp \<Rightarrow> lease_params \<Rightarrow> 'f lease_diag" where
  "ld_new secs now p = \<lparr>ld_name = lp_name p, ld_namespace = lp_namespace p, ld_claimant = lp_claimant p,
     ld_field_manager = (case lp_field_manager p of None \<Rightarrow> default_field_manager | Some fm \<Rightarrow> fm),
     ld_lease_duration_seconds = secs (lp_lease_duration p),
     ld_renew_grace_period_seconds = secs (lp_renew_grace_period p),
     ld_stats = \<lparr>lst_updates = 0, lst_creation_timestamp = now, lst_last_update_timestamp = None\<rparr>,
     ld_resource_version = None, ld_current = None\<rparr>"

text \<open>\<open>inspect\<close>: the first component of the result is \<open>None\<close> when the counter overflows in a checked build.\<close>

definition ld_inspect ::
  "bool \<Rightarrow> ('w \<Rightarrow> timestamp \<times> 'w) \<Rightarrow> lease_claim option \<Rightarrow> string \<Rightarrow> 'f lease_diag \<Rightarrow> 'w \<Rightarrow>
   'f lease_diag option \<times> 'w" where
  "ld_inspect oc clock claim version d w =
     (if ld_current d = claim \<and> ld_resource_version d = Some version then (Some d, w)
      else (case clock w of (now, w) \<Rightarrow>
        (map_option (\<lambda>n. d\<lparr>ld_current := claim, ld_resource_version := Some version,
                           ld_stats := (ld_stats d)\<lparr>lst_updates := n, lst_last_update_timestamp := Some now\<rparr>\<rparr>)
           (rust_add oc (lst_updates (ld_stats d)) 1), w)))"

lemma ld_inspect_records:
  "ld_inspect oc clock claim version d w = (Some d', w') \<Longrightarrow>
   ld_current d' = claim \<and> ld_resource_version d' = Some version"
  by (auto simp: ld_inspect_def split: if_splits prod.splits)

lemma ld_inspect_idem:
  "ld_inspect oc clock claim version d w = (Some d', w') \<Longrightarrow>
   ld_inspect oc clock claim version d' w'' = (Some d', w'')"
  using ld_inspect_records[of oc clock claim version d w d' w'] by (simp add: ld_inspect_def)

text \<open>
  The diagnostics of a lease count changes, not observations: \<open>inspect\<close> leaves the
  record showing the observed claim and resource version, increments the counter by one exactly
  when one of the two differs from what the record showed, and otherwise changes nothing.
\<close>
theorem lease_inspect_counts_changes:
  assumes "unat (lst_updates (ld_stats d)) < 2 ^ 64 - 1"
  shows "\<exists>d' w'. ld_inspect oc clock claim version d w = (Some d', w') \<and>
    ld_current d' = claim \<and> ld_resource_version d' = Some version \<and>
    (if ld_current d = claim \<and> ld_resource_version d = Some version then d' = d \<and> w' = w
     else unat (lst_updates (ld_stats d')) = Suc (unat (lst_updates (ld_stats d))) \<and>
          lst_last_update_timestamp (ld_stats d') = Some (fst (clock w)))"
proof -
  have "rust_add oc (lst_updates (ld_stats d)) 1 = Some (lst_updates (ld_stats d) + 1)"
    "unat (lst_updates (ld_stats d) + 1) = Suc (unat (lst_updates (ld_stats d)))"
    using rust_add_exact[of "lst_updates (ld_stats d)" 1 oc] assms by auto
  then show ?thesis by (auto simp: ld_inspect_def split: prod.splits)
qed

definition sample_lease_params :: lease_params where
  "sample_lease_params = \<lparr>lp_name = ''lease'', lp_namespace = ''default'', lp_claimant = ''alice'',
     lp_lease_duration = 30 * 10 ^ 9, lp_renew_grace_period = 10 ^ 9, lp_field_manager = None\<rparr>"

theorem lease_inspect_counts_changes_witness:
  "\<exists>d'. fst (ld_inspect True (\<lambda>t. (t, t)) (Some \<lparr>claim_holder = ''alice'', claim_expiry = 40\<rparr>) ''7''
       (ld_new id 5 sample_lease_params) 10) = Some d' \<and> unat (lst_updates (ld_stats d')) = 1 \<and>
     lst_last_update_timestamp (ld_stats d') = Some 10"
  using lease_inspect_counts_changes[of "ld_new id 5 sample_lease_params" True "\<lambda>t. (t, t)"
      "Some \<lparr>claim_holder = ''alice'', claim_expiry = 40\<rparr>" "''7''" 10]
  by (auto simp: ld_new_def)

end
