(* ===== verification/Lease_Server.thy ===== *)
theory Lease_Server
  imports Lease_Types
begin

text \<open>
  The Kubernetes API as \<open>kubert/src/lease.rs\<close> uses it, which is not part of the
  repository: the operations a manager calls, the contract of the server that the protocol relies
  on (optimistic concurrency on the resource version), and a concrete server that satisfies it.
\<close>

subsection \<open>The client's operations\<close>

text \<open>
  A call that exceeds its time limit yields \<open>None\<close> (\<open>tokio::time::timeout\<close>); it may
  or may not have changed the world.
\<close>

record 'w lease_api =
  api_get :: "duration \<Rightarrow> string \<Rightarrow> 'w \<Rightarrow> (kube_error + lease_obj) option \<times> 'w"
  api_patch :: "duration \<Rightarrow> string \<Rightarrow> patch_params \<Rightarrow> patch \<Rightarrow> 'w \<Rightarrow> (kube_error + lease_obj) option \<times> 'w"
  utc_now :: "'w \<Rightarrow> timestamp \<times> 'w"

subsection \<open>Patches\<close>

fun patch_body :: "patch \<Rightarrow> lease_patch" where
  "patch_body (PApply b) = b"
| "patch_body (PStrategic b) = b"

text \<open>A member of the patch replaces the field, \<open>null\<close> removes it, an absent one keeps it.\<close>

fun merge_field :: "'a json_field \<Rightarrow> 'a option \<Rightarrow> 'a option" where
  "merge_field Absent x = x"
| "merge_field Null x = None"
| "merge_field (Val v) x = Some v"

text \<open>Times are stored as \<open>MicroTime\<close>, with the precision \<open>micro\<close>.\<close>

definition merge_spec :: "(timestamp \<Rightarrow> timestamp) \<Rightarrow> lease_patch \<Rightarrow> lease_spec \<Rightarrow> lease_spec" where
  "merge_spec micro b spec =
     \<lparr>sp_holder_identity = merge_field (pt_holder_identity b) (sp_holder_identity spec),
      sp_acquire_time = merge_field (map_json_field micro (pt_acquire_time b)) (sp_acquire_time spec),
      sp_renew_time = merge_field (map_json_field micro (pt_renew_time b)) (sp_renew_time spec),
      sp_lease_duration_seconds = merge_field (pt_lease_duration_seconds b) (sp_lease_duration_seconds spec),
      sp_lease_transitions = merge_field (pt_lease_transitions b) (sp_lease_transitions spec)\<rparr>"

subsection \<open>The server's contract\<close>

text \<open>
  The server keeps one lease. Its resource version identifies a generation that grows with every
  write. A patch that names another version is refused with a conflict; one that names the current
  version is not, provided that a server-side apply forces the ownership of its fields. A refused
  patch changes nothing, and an accepted one merges its body into the specification and answers the
  new lease.
\<close>

record 's lease_server =
  srv_lease :: "'s \<Rightarrow> lease_obj"
  srv_patch :: "patch_params \<Rightarrow> patch \<Rightarrow> 's \<Rightarrow> (kube_error + lease_obj) \<times> 's"

locale lease_server_spec =
  fixes S :: "'s lease_server"
    and ver :: "nat \<Rightarrow> string"
    and gen :: "'s \<Rightarrow> nat"
    and micro :: "timestamp \<Rightarrow> timestamp"
  assumes ver_inj: "ver i = ver j \<Longrightarrow> i = j"
    and micro_le: "micro t \<le> t"
    and micro_gt: "t - 1000 < micro t"
    and lease_version: "lo_resource_version (srv_lease S s) = Some (ver (gen s))"
    and lease_has_spec: "\<exists>spec. lo_spec (srv_lease S s) = Some spec"
    and patch_conflict: "pt_resource_version (patch_body p) \<noteq> ver (gen s) \<Longrightarrow>
      srv_patch S pp p s = (Inl (KApi 409), s)"
    and patch_current: "srv_patch S pp p s = (Inl (KApi 409), s') \<Longrightarrow> pp_force pp \<or> p = PStrategic b \<Longrightarrow>
      pt_resource_version (patch_body p) \<noteq> ver (gen s)"
    and patch_refused: "srv_patch S pp p s = (Inl e, s') \<Longrightarrow> s' = s"
    and patch_accepted: "srv_patch S pp p s = (Inr obj, s') \<Longrightarrow>
      gen s < gen s' \<and> obj = srv_lease S s' \<and>
      lo_spec obj = map_option (merge_spec micro (patch_body p)) (lo_spec (srv_lease S s))"
begin

lemma patch_accepted_version:
  "srv_patch S pp p s = (Inr obj, s') \<Longrightarrow> pt_resource_version (patch_body p) = ver (gen s)"
  using patch_conflict[of p s pp] by fastforce

end

subsection \<open>A server\<close>

text \<open>A generation counter and a specification; the version is the generation in unary.\<close>

definition demo_version :: "nat \<Rightarrow> string" where
  "demo_version n = replicate n CHR ''1''"

definition demo_micro :: "timestamp \<Rightarrow> timestamp" where
  "demo_micro t = t - t mod 1000"

definition demo_lease :: "nat \<times> lease_spec \<Rightarrow> lease_obj" where
  "demo_lease s = \<lparr>lo_resource_version = Some (demo_version (fst s)), lo_spec = Some (snd s)\<rparr>"

definition demo_patch :: "patch_params \<Rightarrow> patch \<Rightarrow> nat \<times> lease_spec \<Rightarrow> (kube_error + lease_obj) \<times> nat \<times> lease_spec" where
  "demo_patch pp p s =
     (if pt_resource_version (patch_body p) = demo_version (fst s) \<and>
         (pp_force pp \<or> p = PStrategic (patch_body p))
      then let s' = (Suc (fst s), merge_spec demo_micro (patch_body p) (snd s)) in (Inr (demo_lease s'), s')
      else (Inl (KApi 409), s))"

definition demo_server :: "(nat \<times> lease_spec) lease_server" where
  "demo_server = \<lparr>srv_lease = demo_lease, srv_patch = demo_patch\<rparr>"

lemma demo_version_inj: "demo_version i = demo_version j \<Longrightarrow> i = j"
  by (metis demo_version_def length_replicate)

interpretation demo: lease_server_spec demo_server demo_version fst demo_micro
proof
  fix t :: timestamp
  show "demo_micro t \<le> t" "t - 1000 < demo_micro t"
    using pos_mod_sign[of 1000 t] pos_mod_bound[of 1000 t] by (auto simp: demo_micro_def)
qed (auto simp: demo_server_def demo_lease_def demo_patch_def Let_def demo_version_inj split: if_splits)

text \<open>The client's operations on a server, at an instant; the world is the clock and the server.\<close>

definition direct_api :: "'s lease_server \<Rightarrow> (timestamp \<times> 's) lease_api" where
  "direct_api S = \<lparr>api_get = (\<lambda>_ _ w. (Some (Inr (srv_lease S (snd w))), w)),
     api_patch = (\<lambda>_ _ pp p w. case srv_patch S pp p (snd w) of (r, s) \<Rightarrow> (Some r, (fst w, s))),
     utc_now = (\<lambda>w. (fst w, w))\<rparr>"

end
