(* ===== verification/Lease.thy ===== *)
theory Lease
  imports Lease_Diagnostics Lease_Server
begin

text \<open>
  \<open>kubert/src/lease.rs\<close>: claims and the lease manager. The Kubernetes API and the wall
  clock are parameters (\<open>lease_api\<close>) over the state \<open>'w\<close> of the world. An
  operation of the manager runs while it holds the manager's lock, so it is a function of the
  manager and the world. Its result is \<open>None\<close> when it panics (a date out of range, or an
  addition that overflows in a build with overflow checks, \<open>oc\<close>), and otherwise the
  \<open>Result\<close> of the source. The theorems of the protocol that several managers run
  together are in \<open>Lease_System\<close>.
\<close>

subsection \<open>Claims\<close>

definition is_current :: "timestamp \<Rightarrow> lease_claim \<Rightarrow> bool" where
  "is_current now claim \<longleftrightarrow> now < claim_expiry claim"

definition is_current_for :: "timestamp \<Rightarrow> string \<Rightarrow> lease_claim \<Rightarrow> bool" where
  "is_current_for now claimant claim \<longleftrightarrow> claim_holder claim = claimant \<and> is_current now claim"

text \<open>
  \<open>expire_with_grace\<close>: how long it sleeps, \<open>None\<close> in the result for not at all. The
  subtraction of the two dates yields a duration and does not panic.
\<close>

definition expire_with_grace :: "chrono \<Rightarrow> timestamp \<Rightarrow> duration \<Rightarrow> lease_claim \<Rightarrow> duration option" where
  "expire_with_grace C now grace claim =
     (case ch_to_std C (claim_expiry claim - now) of
        None \<Rightarrow> None
      | Some remaining \<Rightarrow> (let sleep = remaining - grace in if sleep = 0 then None else Some sleep))"

definition claim_expire :: "chrono \<Rightarrow> timestamp \<Rightarrow> lease_claim \<Rightarrow> duration option" where
  "claim_expire C now claim = expire_with_grace C now 0 claim"

subsection \<open>The manager\<close>

record 'f lease_manager =
  lm_name :: string
  lm_field_manager :: string
  lm_state :: lease_state
  lm_diagnostics :: "'f lease_diag option"

definition api_timeout :: duration where
  "api_timeout = 10 * 10 ^ 9"

text \<open>\<open>is_conflict\<close>: \<open>StatusCode::from_u16(code) == Ok(CONFLICT)\<close>.\<close>

fun is_conflict :: "lease_error \<Rightarrow> bool" where
  "is_conflict (EApi (KApi code)) = (code = 409)"
| "is_conflict _ = False"

text \<open>\<open>get\<close>: an \<open>i32\<close> that is not a \<open>u16\<close> reads as 0.\<close>

definition u16_or_zero :: "int \<Rightarrow> 16 word" where
  "u16_or_zero n = (if 0 \<le> n \<and> n < 2 ^ 16 then word_of_int n else 0)"

definition parse_lease :: "chrono \<Rightarrow> lease_obj \<Rightarrow> (lease_error + lease_state) option" where
  "parse_lease C lease =
     (case lo_spec lease of
        None \<Rightarrow> Some (Inl MissingSpec)
      | Some spec \<Rightarrow>
     (case lo_resource_version lease of
        None \<Rightarrow> Some (Inl MissingResourceVersion)
      | Some version \<Rightarrow>
     (let meta = \<lparr>meta_version = version,
                  meta_transitions = u16_or_zero (case sp_lease_transitions spec of None \<Rightarrow> 0 | Some n \<Rightarrow> n)\<rparr>
      in case (sp_holder_identity spec, sp_renew_time spec, sp_lease_duration_seconds spec) of
           (Some holder, Some renew_time, Some secs) \<Rightarrow>
             map_option (\<lambda>expiry. Inr \<lparr>ls_meta = meta, ls_claim = Some \<lparr>claim_holder = holder, claim_expiry = expiry\<rparr>\<rparr>)
               (ch_add C renew_time (ch_seconds C secs))
         | _ \<Rightarrow> Some (Inr \<lparr>ls_meta = meta, ls_claim = None\<rparr>))))"

definition drop_expired :: "timestamp \<Rightarrow> lease_state \<Rightarrow> lease_state" where
  "drop_expired now st =
     (case ls_claim st of
        None \<Rightarrow> st
      | Some claim \<Rightarrow> if claim_expiry claim \<le> now then st\<lparr>ls_claim := None\<rparr> else st)"

definition lm_get :: "chrono \<Rightarrow> 'w lease_api \<Rightarrow> string \<Rightarrow> 'w \<Rightarrow> (lease_error + lease_state) option \<times> 'w" where
  "lm_get C A name w =
     (case api_get A api_timeout name w of
        (None, w) \<Rightarrow> (Some (Inl Timeout), w)
      | (Some (Inl e), w) \<Rightarrow> (Some (Inl (EApi e)), w)
      | (Some (Inr lease), w) \<Rightarrow>
          (case parse_lease C lease of
             None \<Rightarrow> (None, w)
           | Some (Inl e) \<Rightarrow> (Some (Inl e), w)
           | Some (Inr st) \<Rightarrow>
               if ls_claim st = None then (Some (Inr st), w)
               else (case utc_now A w of (now, w) \<Rightarrow> (Some (Inr (drop_expired now st)), w))))"

text \<open>\<open>patch\<close>: server-side apply is forced, a strategic merge is not.\<close>

definition lm_patch ::
  "'w lease_api \<Rightarrow> 'f lease_manager \<Rightarrow> patch \<Rightarrow> 'w \<Rightarrow> (lease_error + lease_obj) \<times> 'w" where
  "lm_patch A m p w =
     (let params = \<lparr>pp_field_manager = Some (lm_field_manager m),
                    pp_force = (case p of PApply _ \<Rightarrow> True | PStrategic _ \<Rightarrow> False)\<rparr>
      in case api_patch A api_timeout (lm_name m) params p w of
           (None, w) \<Rightarrow> (Inl Timeout, w)
         | (Some (Inl e), w) \<Rightarrow> (Inl (EApi e), w)
         | (Some (Inr lease), w) \<Rightarrow> (Inr lease, w))"

subsection \<open>Acquire and renew\<close>

definition claim_duration :: "chrono \<Rightarrow> claim_params \<Rightarrow> int" where
  "claim_duration C params =
     (case ch_from_std C (cp_lease_duration params) of None \<Rightarrow> ch_max C | Some d \<Rightarrow> d)"

definition acquire_patch :: "chrono \<Rightarrow> string \<Rightarrow> claim_params \<Rightarrow> string \<Rightarrow> 16 word \<Rightarrow> timestamp \<Rightarrow> patch" where
  "acquire_patch C claimant params version transitions now =
     PApply \<lparr>pt_resource_version = version, pt_acquire_time = Val now, pt_renew_time = Val now,
       pt_holder_identity = Val claimant,
       pt_lease_duration_seconds = Val (ch_num_seconds C (claim_duration C params)),
       pt_lease_transitions = Val (uint transitions)\<rparr>"

definition renew_patch :: "chrono \<Rightarrow> claim_params \<Rightarrow> string \<Rightarrow> timestamp \<Rightarrow> patch" where
  "renew_patch C params version now =
     PStrategic \<lparr>pt_resource_version = version, pt_acquire_time = Absent, pt_renew_time = Val now,
       pt_holder_identity = Absent,
       pt_lease_duration_seconds = Val (ch_num_seconds C (claim_duration C params)),
       pt_lease_transitions = Absent\<rparr>"

definition vacate_patch :: "string \<Rightarrow> patch" where
  "vacate_patch version =
     PStrategic \<lparr>pt_resource_version = version, pt_acquire_time = Null, pt_renew_time = Null,
       pt_holder_identity = Null, pt_lease_duration_seconds = Null, pt_lease_transitions = Absent\<rparr>"

text \<open>The claim and metadata that follow a patch the API accepted.\<close>

definition claim_granted ::
  "chrono \<Rightarrow> string \<Rightarrow> claim_params \<Rightarrow> 16 word \<Rightarrow> timestamp \<Rightarrow> lease_obj \<Rightarrow>
   (lease_error + lease_claim \<times> lease_meta) option" where
  "claim_granted C claimant params transitions now lease =
     (case ch_add C now (claim_duration C params) of
        None \<Rightarrow> None
      | Some expiry \<Rightarrow>
          Some (case lo_resource_version lease of
             None \<Rightarrow> Inl MissingResourceVersion
           | Some version \<Rightarrow> Inr (\<lparr>claim_holder = claimant, claim_expiry = expiry\<rparr>,
                                 \<lparr>meta_version = version, meta_transitions = transitions\<rparr>)))"

definition lm_acquire ::
  "bool \<Rightarrow> chrono \<Rightarrow> 'w lease_api \<Rightarrow> string \<Rightarrow> claim_params \<Rightarrow> 'f lease_manager \<Rightarrow> 'w \<Rightarrow>
   (lease_error + lease_claim \<times> lease_meta) option \<times> 'w" where
  "lm_acquire oc C A claimant params m w =
     (let meta = ls_meta (lm_state m) in
      case utc_now A w of (now, w) \<Rightarrow>
      (case rust_add oc (meta_transitions meta) 1 of
         None \<Rightarrow> (None, w)
       | Some n \<Rightarrow>
      (case lm_patch A m (acquire_patch C claimant params (meta_version meta) n now) w of
         (Inl e, w) \<Rightarrow> (Some (Inl e), w)
       | (Inr lease, w) \<Rightarrow> (claim_granted C claimant params n now lease, w))))"

definition lm_renew ::
  "chrono \<Rightarrow> 'w lease_api \<Rightarrow> string \<Rightarrow> claim_params \<Rightarrow> 'f lease_manager \<Rightarrow> 'w \<Rightarrow>
   (lease_error + lease_claim \<times> lease_meta) option \<times> 'w" where
  "lm_renew C A claimant params m w =
     (let meta = ls_meta (lm_state m) in
      case utc_now A w of (now, w) \<Rightarrow>
      (case lm_patch A m (renew_patch C params (meta_version meta) now) w of
         (Inl e, w) \<Rightarrow> (Some (Inl e), w)
       | (Inr lease, w) \<Rightarrow> (claim_granted C claimant params (meta_transitions meta) now lease, w)))"

subsection \<open>The manager's operations\<close>

definition lm_init :: "chrono \<Rightarrow> 'w lease_api \<Rightarrow> string \<Rightarrow> 'w \<Rightarrow> (lease_error + 'f lease_manager) option \<times> 'w" where
  "lm_init C A name w =
     (case lm_get C A name w of
        (None, w) \<Rightarrow> (None, w)
      | (Some (Inl e), w) \<Rightarrow> (Some (Inl e), w)
      | (Some (Inr st), w) \<Rightarrow>
          (Some (Inr \<lparr>lm_name = name, lm_field_manager = default_field_manager, lm_state = st,
                      lm_diagnostics = None\<rparr>), w))"

definition with_field_manager :: "string \<Rightarrow> 'f lease_manager \<Rightarrow> 'f lease_manager" where
  "with_field_manager fm m = m\<lparr>lm_field_manager := fm\<rparr>"

definition with_diagnostics :: "'f lease_diag \<Rightarrow> 'f lease_manager \<Rightarrow> 'f lease_manager" where
  "with_diagnostics d m = m\<lparr>lm_diagnostics := Some d\<rparr>"

definition lm_claimed :: "'f lease_manager \<Rightarrow> lease_claim option" where
  "lm_claimed m = ls_claim (lm_state m)"

text \<open>Passes a claim and a resource version to the diagnostics, if there are any; \<open>False\<close> is a panic.\<close>

definition lm_inspect ::
  "bool \<Rightarrow> 'w lease_api \<Rightarrow> lease_claim option \<Rightarrow> string \<Rightarrow> 'f lease_manager \<Rightarrow> 'w \<Rightarrow>
   bool \<times> 'f lease_manager \<times> 'w" where
  "lm_inspect oc A claim version m w =
     (case lm_diagnostics m of
        None \<Rightarrow> (True, m, w)
      | Some d \<Rightarrow>
          (case ld_inspect oc (utc_now A) claim version d w of
             (None, w) \<Rightarrow> (False, m, w)
           | (Some d, w) \<Rightarrow> (True, m\<lparr>lm_diagnostics := Some d\<rparr>, w)))"

definition lm_inspect_state ::
  "bool \<Rightarrow> 'w lease_api \<Rightarrow> 'f lease_manager \<Rightarrow> 'w \<Rightarrow> bool \<times> 'f lease_manager \<times> 'w" where
  "lm_inspect_state oc A m w = lm_inspect oc A (ls_claim (lm_state m)) (meta_version (ls_meta (lm_state m))) m w"

text \<open>\<open>*state = Self::get(..).await?\<close> and the \<open>inspect\<close> that follows it.\<close>

definition lm_resync ::
  "bool \<Rightarrow> chrono \<Rightarrow> 'w lease_api \<Rightarrow> 'f lease_manager \<Rightarrow> 'w \<Rightarrow>
   (lease_error + unit) option \<times> 'f lease_manager \<times> 'w" where
  "lm_resync oc C A m w =
     (case lm_get C A (lm_name m) w of
        (None, w) \<Rightarrow> (None, m, w)
      | (Some (Inl e), w) \<Rightarrow> (Some (Inl e), m, w)
      | (Some (Inr st), w) \<Rightarrow>
          (case lm_inspect_state oc A (m\<lparr>lm_state := st\<rparr>) w of
             (ok, m, w) \<Rightarrow> (if ok then Some (Inr ()) else None, m, w)))"

definition lm_sync ::
  "bool \<Rightarrow> chrono \<Rightarrow> 'w lease_api \<Rightarrow> 'f lease_manager \<Rightarrow> 'w \<Rightarrow>
   (lease_error + lease_claim option) option \<times> 'f lease_manager \<times> 'w" where
  "lm_sync oc C A m w =
     (case lm_resync oc C A m w of
        (r, m, w) \<Rightarrow> (map_option (map_sum id (\<lambda>_. lm_claimed m)) r, m, w))"

subsection \<open>ensure_claimed\<close>

datatype claim_action = Keep lease_claim | Renew | Acquire

definition claim_grace :: "chrono \<Rightarrow> claim_params \<Rightarrow> int" where
  "claim_grace C params = (case ch_from_std C (cp_renew_grace_period params) of None \<Rightarrow> 0 | Some g \<Rightarrow> g)"

definition renew_at :: "chrono \<Rightarrow> claim_params \<Rightarrow> lease_claim \<Rightarrow> timestamp option" where
  "renew_at C params claim = ch_sub C (claim_expiry claim) (claim_grace C params)"

text \<open>What the cached claim calls for at an instant; \<open>None\<close> is a panic of the subtraction.\<close>

definition claim_decision ::
  "chrono \<Rightarrow> string \<Rightarrow> claim_params \<Rightarrow> lease_claim option \<Rightarrow> timestamp \<Rightarrow> claim_action option" where
  "claim_decision C claimant params cached now =
     (case cached of
        None \<Rightarrow> Some Acquire
      | Some claim \<Rightarrow>
          if claim_holder claim = claimant
          then map_option (\<lambda>at. if now < at then Keep claim else Renew) (renew_at C params claim)
          else Some (if is_current now claim then Keep claim else Acquire))"

text \<open>The clock is read only when there is a claim, and after its renewal time was computed.\<close>

definition lm_decide ::
  "chrono \<Rightarrow> 'w lease_api \<Rightarrow> string \<Rightarrow> claim_params \<Rightarrow> lease_claim option \<Rightarrow> 'w \<Rightarrow> claim_action option \<times> 'w" where
  "lm_decide C A claimant params cached w =
     (case cached of
        None \<Rightarrow> (Some Acquire, w)
      | Some claim \<Rightarrow>
          if claim_holder claim = claimant \<and> renew_at C params claim = None then (None, w)
          else (case utc_now A w of (now, w) \<Rightarrow> (claim_decision C claimant params cached now, w)))"

datatype 'a loop_ctl = Continue | Break 'a

text \<open>After a patch: store a granted claim, re-read the lease on a conflict, or return the error.\<close>

definition lm_settle ::
  "bool \<Rightarrow> chrono \<Rightarrow> 'w lease_api \<Rightarrow> 'f lease_manager \<Rightarrow> (lease_error + lease_claim \<times> lease_meta) option \<times> 'w \<Rightarrow>
   (lease_error + lease_claim) option loop_ctl \<times> 'f lease_manager \<times> 'w" where
  "lm_settle oc C A m r =
     (case r of
        (None, w) \<Rightarrow> (Break None, m, w)
      | (Some (Inr (claim, meta)), w) \<Rightarrow>
          (case lm_inspect_state oc A (m\<lparr>lm_state := \<lparr>ls_meta = meta, ls_claim = Some claim\<rparr>\<rparr>) w of
             (ok, m, w) \<Rightarrow> (Break (if ok then Some (Inr claim) else None), m, w))
      | (Some (Inl e), w) \<Rightarrow>
          if is_conflict e then
            (case lm_resync oc C A m w of
               (None, m, w) \<Rightarrow> (Break None, m, w)
             | (Some (Inl e), m, w) \<Rightarrow> (Break (Some (Inl e)), m, w)
             | (Some (Inr _), m, w) \<Rightarrow> (Continue, m, w))
          else (Break (Some (Inl e)), m, w))"

definition ensure_claimed_once ::
  "bool \<Rightarrow> chrono \<Rightarrow> 'w lease_api \<Rightarrow> string \<Rightarrow> claim_params \<Rightarrow> 'f lease_manager \<Rightarrow> 'w \<Rightarrow>
   (lease_error + lease_claim) option loop_ctl \<times> 'f lease_manager \<times> 'w" where
  "ensure_claimed_once oc C A claimant params m w =
     (case lm_decide C A claimant params (lm_claimed m) w of
        (None, w) \<Rightarrow> (Break None, m, w)
      | (Some (Keep claim), w) \<Rightarrow> (Break (Some (Inr claim)), m, w)
      | (Some Renew, w) \<Rightarrow> lm_settle oc C A m (lm_renew C A claimant params m w)
      | (Some Acquire, w) \<Rightarrow> lm_settle oc C A m (lm_acquire oc C A claimant params m w))"

partial_function (option) ensure_claimed ::
  "bool \<Rightarrow> chrono \<Rightarrow> 'w lease_api \<Rightarrow> string \<Rightarrow> claim_params \<Rightarrow> 'f lease_manager \<Rightarrow> 'w \<Rightarrow>
   ((lease_error + lease_claim) option \<times> 'f lease_manager \<times> 'w) option" where
  "ensure_claimed oc C A claimant params m w =
     (case ensure_claimed_once oc C A claimant params m w of
        (ctl, m', w') \<Rightarrow>
          (case ctl of Continue \<Rightarrow> ensure_claimed oc C A claimant params m' w'
                     | Break r \<Rightarrow> Some (r, m', w')))"

subsection \<open>vacate\<close>

definition lm_vacate ::
  "bool \<Rightarrow> 'w lease_api \<Rightarrow> string \<Rightarrow> 'f lease_manager \<Rightarrow> 'w \<Rightarrow>
   (lease_error + bool) option \<times> 'f lease_manager \<times> 'w" where
  "lm_vacate oc A claimant m w =
     (case lm_claimed m of
        None \<Rightarrow> (Some (Inr False), m, w)
      | Some claim \<Rightarrow>
     (let st = lm_state m; taken = m\<lparr>lm_state := st\<lparr>ls_claim := None\<rparr>\<rparr> in
      case utc_now A w of (now, w) \<Rightarrow>
        if \<not> is_current now claim then (Some (Inr False), taken, w)
        else if claim_holder claim \<noteq> claimant
        then (Some (Inr False), taken\<lparr>lm_state := st\<lparr>ls_claim := Some claim\<rparr>\<rparr>, w)
        else (case lm_patch A taken (vacate_patch (meta_version (ls_meta st))) w of
                (Inl e, w) \<Rightarrow> (Some (Inl e), taken, w)
              | (Inr lease, w) \<Rightarrow>
                  (case lm_inspect oc A None (case lo_resource_version lease of None \<Rightarrow> [] | Some v \<Rightarrow> v) taken w of
                     (ok, m, w) \<Rightarrow> (if ok then Some (Inr True) else None, m, w)))))"

subsection \<open>Facts about single operations\<close>

lemma patch_versions [simp]:
  "pt_resource_version (patch_body (acquire_patch C claimant params v n now)) = v"
  "pt_resource_version (patch_body (renew_patch C params v now)) = v"
  "pt_resource_version (patch_body (vacate_patch v)) = v"
  by (simp_all add: acquire_patch_def renew_patch_def vacate_patch_def)

lemma claim_granted_ok:
  "claim_granted C claimant params n now lease = Some (Inr (c, meta)) \<Longrightarrow>
   claim_holder c = claimant \<and> ch_add C now (claim_duration C params) = Some (claim_expiry c) \<and>
   meta_transitions meta = n \<and> lo_resource_version lease = Some (meta_version meta)"
  by (auto simp: claim_granted_def split: option.splits)

lemma lm_inspect_keeps:
  "lm_inspect oc A claim version m w = (ok, m', w') \<Longrightarrow>
   lm_state m' = lm_state m \<and> lm_name m' = lm_name m \<and> lm_field_manager m' = lm_field_manager m"
  by (auto simp: lm_inspect_def split: option.splits prod.splits)

lemma lm_inspect_state_keeps:
  "lm_inspect_state oc A m w = (ok, m', w') \<Longrightarrow>
   lm_state m' = lm_state m \<and> lm_name m' = lm_name m \<and> lm_field_manager m' = lm_field_manager m"
  unfolding lm_inspect_state_def by (rule lm_inspect_keeps)

lemma lm_resync_ok:
  assumes "lm_resync oc C A m w = (Some (Inr u), m', w')"
  obtains st w1 where "lm_get C A (lm_name m) w = (Some (Inr st), w1)"
    and "lm_inspect_state oc A (m\<lparr>lm_state := st\<rparr>) w1 = (True, m', w')" and "lm_state m' = st"
proof -
  obtain st w1 where "lm_get C A (lm_name m) w = (Some (Inr st), w1)"
    and i: "lm_inspect_state oc A (m\<lparr>lm_state := st\<rparr>) w1 = (True, m', w')"
    using assms by (auto simp: lm_resync_def split: prod.splits option.splits sum.splits if_splits)
  then show thesis using that lm_inspect_state_keeps[OF i] by simp
qed

lemma lm_settle_ok:
  "lm_settle oc C A m (r, w) = (Break (Some (Inr c)), m', w') \<Longrightarrow>
   (\<exists>meta. r = Some (Inr (c, meta))) \<and> lm_claimed m' = Some c"
  by (auto simp: lm_settle_def lm_claimed_def split: option.splits sum.splits prod.splits if_splits
      dest!: lm_inspect_state_keeps)

lemma lm_settle_again:
  "lm_settle oc C A m (r, w) = (Continue, m', w') \<Longrightarrow>
   (\<exists>e. r = Some (Inl e) \<and> is_conflict e) \<and> lm_resync oc C A m w = (Some (Inr ()), m', w')"
  by (auto simp: lm_settle_def split: option.splits sum.splits prod.splits if_splits)

lemma is_conflict_iff: "is_conflict e \<longleftrightarrow> e = EApi (KApi 409)"
  by (induction e rule: is_conflict.induct) auto

lemma ensure_claimed_induct [consumes 1, case_names again exit]:
  assumes "ensure_claimed oc C A claimant params m w = Some (r, m', w')"
    and again: "\<And>m w m1 w1. ensure_claimed_once oc C A claimant params m w = (Continue, m1, w1) \<Longrightarrow>
      P m1 w1 \<Longrightarrow> P m w"
    and exit: "\<And>m w. ensure_claimed_once oc C A claimant params m w = (Break r, m', w') \<Longrightarrow> P m w"
  shows "P m w"
proof -
  define Q where "Q = (\<lambda>oc' C' A' cl' ps' m w y.
    y = (r, m', w') \<and> oc' = oc \<and> C' = C \<and> A' = A \<and> cl' = claimant \<and> ps' = params \<longrightarrow> P m w)"
  have "Q oc C A claimant params m w (r, m', w')"
    by (rule ensure_claimed.raw_induct[where P = Q, OF _ assms(1)])
      (auto simp: Q_def split: prod.splits loop_ctl.splits intro: again exit)
  then show ?thesis by (simp add: Q_def)
qed

subsection \<open>The clock\<close>

text \<open>
  The clock does not run backwards: \<open>time\<close> of a world is a lower bound for every later
  reading. API calls take time.
\<close>

locale wall_clock = chrono_spec C
  for C :: chrono +
  fixes A :: "'w lease_api"
    and time :: "'w \<Rightarrow> timestamp"
  assumes now_time: "utc_now A w = (t, w') \<Longrightarrow> time w \<le> t \<and> t \<le> time w'"
    and get_time: "api_get A d n w = (r, w') \<Longrightarrow> time w \<le> time w'"
    and patch_time: "api_patch A d n pp p w = (pr, w') \<Longrightarrow> time w \<le> time w'"
begin

lemma now_later: "utc_now A w = (t, w') \<Longrightarrow> time w \<le> time w'"
  using now_time by force

lemma lm_get_time: "lm_get C A n w = (r, w') \<Longrightarrow> time w \<le> time w'"
  by (auto simp: lm_get_def split: prod.splits option.splits sum.splits if_splits
      dest!: get_time now_later)

lemma lm_inspect_time: "lm_inspect oc A claim version m w = (ok, m', w') \<Longrightarrow> time w \<le> time w'"
  by (auto simp: lm_inspect_def ld_inspect_def split: prod.splits option.splits if_splits
      dest!: now_later)

lemma lm_resync_time: "lm_resync oc C A m w = (r, m', w') \<Longrightarrow> time w \<le> time w'"
  by (auto simp: lm_resync_def lm_inspect_state_def
      split: prod.splits option.splits sum.splits if_splits dest!: lm_inspect_time lm_get_time)

lemma lm_patch_time: "lm_patch A m p w = (r, w') \<Longrightarrow> time w \<le> time w'"
  by (auto simp: lm_patch_def Let_def split: prod.splits option.splits sum.splits dest!: patch_time)

lemma lm_decide_time: "lm_decide C A claimant params cached w = (r, w') \<Longrightarrow> time w \<le> time w'"
  by (auto simp: lm_decide_def split: prod.splits option.splits if_splits dest!: now_later)

lemma lm_acquire_time: "lm_acquire oc C A claimant params m w = (r, w') \<Longrightarrow> time w \<le> time w'"
  by (fastforce simp: lm_acquire_def Let_def split: prod.splits option.splits sum.splits
      dest!: now_later lm_patch_time)

lemma lm_renew_time: "lm_renew C A claimant params m w = (r, w') \<Longrightarrow> time w \<le> time w'"
  by (fastforce simp: lm_renew_def Let_def split: prod.splits option.splits sum.splits
      dest!: now_later lm_patch_time)

lemma lm_acquire_claim:
  "lm_acquire oc C A claimant params m w = (Some (Inr (c, meta)), w') \<Longrightarrow>
   claim_holder c = claimant \<and> time w + claim_duration C params \<le> claim_expiry c"
  by (auto simp: lm_acquire_def Let_def split: prod.splits option.splits sum.splits
      dest!: claim_granted_ok now_time add)

lemma lm_renew_claim:
  "lm_renew C A claimant params m w = (Some (Inr (c, meta)), w') \<Longrightarrow>
   claim_holder c = claimant \<and> time w + claim_duration C params \<le> claim_expiry c"
  by (auto simp: lm_renew_def Let_def split: prod.splits option.splits sum.splits
      dest!: claim_granted_ok now_time add)


lemma lm_decide_keep:
  assumes "lm_decide C A claimant params cached w = (Some (Keep c), w')"
  shows "cached = Some c \<and> (if claim_holder c = claimant then time w + claim_grace C params < claim_expiry c
                          else time w < claim_expiry c)"
  using assms
  by (auto simp: lm_decide_def claim_decision_def renew_at_def is_current_def
      split: prod.splits option.splits if_splits dest!: now_time sub)

lemma ensure_claimed_once_ok:
  assumes "ensure_claimed_once oc C A claimant params m w = (Break (Some (Inr c)), m', w')"
  shows "lm_claimed m' = Some c \<and>
    (if claim_holder c = claimant
     then time w + min (claim_duration C params) (claim_grace C params) \<le> claim_expiry c
     else time w < claim_expiry c)"
proof -
  obtain d w1 where d: "lm_decide C A claimant params (lm_claimed m) w = (d, w1)" by fastforce
  from assms d consider (keep) "d = Some (Keep c)" "m' = m"
    | (renew) r w2 where "lm_renew C A claimant params m w1 = (r, w2)"
        "lm_settle oc C A m (r, w2) = (Break (Some (Inr c)), m', w')"
    | (acquire) r w2 where "lm_acquire oc C A claimant params m w1 = (r, w2)"
        "lm_settle oc C A m (r, w2) = (Break (Some (Inr c)), m', w')"
    by (cases d; cases "the d") (auto simp: ensure_claimed_once_def, (metis prod.exhaust)+)
  then show ?thesis
  proof cases
    case keep
    with lm_decide_keep[OF d[unfolded keep(1)]] show ?thesis by (auto split: if_splits)
  next
    case renew
    with lm_settle_ok[OF renew(2)] lm_renew_claim lm_decide_time[OF d] show ?thesis by fastforce
  next
    case acquire
    with lm_settle_ok[OF acquire(2)] lm_acquire_claim lm_decide_time[OF d] show ?thesis by fastforce
  qed
qed

lemma ensure_claimed_once_time:
  assumes "ensure_claimed_once oc C A claimant params m w = (Continue, m', w')"
  shows "time w \<le> time w'"
proof -
  obtain d w1 where d: "lm_decide C A claimant params (lm_claimed m) w = (d, w1)" by fastforce
  obtain r w2 where "lm_settle oc C A m (r, w2) = (Continue, m', w')" and "time w1 \<le> time w2"
    using assms d lm_renew_time[of claimant params m w1] lm_acquire_time[of oc claimant params m w1]
    by (auto simp: ensure_claimed_once_def split: option.splits claim_action.splits) (metis prod.exhaust)+
  then show ?thesis using lm_settle_again lm_resync_time lm_decide_time[OF d] by fastforce
qed

lemma ensure_claimed_ok:
  assumes "ensure_claimed oc C A claimant params m w = Some (Some (Inr c), m', w')"
  shows "lm_claimed m' = Some c \<and>
    (if claim_holder c = claimant
     then time w + min (claim_duration C params) (claim_grace C params) \<le> claim_expiry c
     else time w < claim_expiry c)"
  using assms
proof (induction rule: ensure_claimed_induct)
  case (again m w m1 w1)
  then show ?case using ensure_claimed_once_time[OF again(1)] by (auto split: if_splits)
next
  case (exit m w)
  then show ?case by (rule ensure_claimed_once_ok)
qed

end

subsection \<open>No interference\<close>

text \<open>
  An API that no other process writes to while an operation runs: a version that was just read
  stays \<open>fresh\<close> until the next write, and a forced patch with a fresh version is not
  refused with a conflict.
\<close>

locale quiet_api =
  fixes A :: "'w lease_api"
    and fresh :: "string \<Rightarrow> 'w \<Rightarrow> bool"
  assumes get_fresh: "api_get A d n w = (Some (Inr lease), w') \<Longrightarrow>
      lo_resource_version lease = Some v \<Longrightarrow> fresh v w'"
    and now_fresh: "utc_now A w = (t, w') \<Longrightarrow> fresh v w \<Longrightarrow> fresh v w'"
    and patch_fresh: "fresh (pt_resource_version (patch_body p)) w \<Longrightarrow> pp_force pp \<or> p = PStrategic b \<Longrightarrow>
      api_patch A d n pp p w = (Some (Inl e), w') \<Longrightarrow> e \<noteq> KApi 409"
begin

abbreviation synced :: "'f lease_manager \<Rightarrow> 'w \<Rightarrow> bool" where
  "synced m w \<equiv> fresh (meta_version (ls_meta (lm_state m))) w"

lemma parse_lease_version:
  "parse_lease C lease = Some (Inr st) \<Longrightarrow> lo_resource_version lease = Some (meta_version (ls_meta st))"
  by (auto simp: parse_lease_def Let_def split: option.splits)

lemma drop_expired_meta [simp]: "ls_meta (drop_expired now st) = ls_meta st"
  by (simp add: drop_expired_def split: option.splits)

lemma lm_get_fresh: "lm_get C A n w = (Some (Inr st), w') \<Longrightarrow> fresh (meta_version (ls_meta st)) w'"
  by (auto simp: lm_get_def split: prod.splits option.splits sum.splits if_splits
      dest!: parse_lease_version get_fresh intro: now_fresh)

lemma lm_inspect_fresh: "lm_inspect oc A claim version m w = (ok, m', w') \<Longrightarrow> fresh v w \<Longrightarrow> fresh v w'"
  by (auto simp: lm_inspect_def ld_inspect_def split: prod.splits option.splits if_splits
      intro: now_fresh)

lemma lm_resync_synced: "lm_resync oc C A m w = (Some (Inr u), m', w') \<Longrightarrow> synced m' w'"
  by (erule lm_resync_ok) (auto simp: lm_inspect_state_def dest!: lm_get_fresh intro: lm_inspect_fresh)

lemma lm_patch_fresh:
  assumes "lm_patch A m p w = (Inl e, w')" and "fresh (pt_resource_version (patch_body p)) w"
  shows "\<not> is_conflict e"
proof
  let ?pp = "\<lparr>pp_field_manager = Some (lm_field_manager m),
    pp_force = (case p of PApply _ \<Rightarrow> True | PStrategic _ \<Rightarrow> False)\<rparr>"
  assume "is_conflict e"
  with assms(1) have "api_patch A api_timeout (lm_name m) ?pp p w = (Some (Inl (KApi 409)), w')"
    by (auto simp: lm_patch_def Let_def is_conflict_iff split: prod.splits option.splits sum.splits)
  with patch_fresh[OF assms(2), of ?pp "patch_body p" api_timeout "lm_name m"] show False
    by (cases p) auto
qed

lemma lm_decide_synced: "lm_decide C A claimant params cached w = (d, w') \<Longrightarrow> fresh v w \<Longrightarrow> fresh v w'"
  by (auto simp: lm_decide_def split: prod.splits option.splits if_splits intro: now_fresh)

lemma lm_renew_no_conflict:
  "synced m w \<Longrightarrow> lm_renew C A claimant params m w = (Some (Inl e), w') \<Longrightarrow> \<not> is_conflict e"
  by (auto simp: lm_renew_def Let_def claim_granted_def split: prod.splits sum.splits option.splits
      dest!: now_fresh lm_patch_fresh)

lemma lm_acquire_no_conflict:
  "synced m w \<Longrightarrow> lm_acquire oc C A claimant params m w = (Some (Inl e), w') \<Longrightarrow> \<not> is_conflict e"
  by (auto simp: lm_acquire_def Let_def claim_granted_def split: prod.splits sum.splits option.splits
      dest!: now_fresh lm_patch_fresh)

lemma lm_settle_no_conflict:
  "(\<And>e. r = Some (Inl e) \<Longrightarrow> \<not> is_conflict e) \<Longrightarrow> \<exists>x m' w'. lm_settle oc C A m (r, w) = (Break x, m', w')"
  by (auto simp: lm_settle_def split: prod.splits option.splits sum.splits)

lemma ensure_claimed_once_synced:
  assumes "synced m w"
  shows "\<exists>r m' w'. ensure_claimed_once oc C A claimant params m w = (Break r, m', w')"
proof -
  obtain d w1 where d: "lm_decide C A claimant params (lm_claimed m) w = (d, w1)" by fastforce
  then have s: "synced m w1" using lm_decide_synced assms by blast
  obtain r w2 r' w2' where r: "lm_renew C A claimant params m w1 = (r, w2)"
    "lm_acquire oc C A claimant params m w1 = (r', w2')" by fastforce
  then have "\<exists>x m' w'. lm_settle oc C A m (r, w2) = (Break x, m', w')"
    "\<exists>x m' w'. lm_settle oc C A m (r', w2') = (Break x, m', w')"
    using lm_renew_no_conflict[OF s] lm_acquire_no_conflict[OF s]
    by (auto intro!: lm_settle_no_conflict)
  with r d show ?thesis
    by (cases d; cases "the d") (auto simp: ensure_claimed_once_def)
qed

lemma ensure_claimed_once_again:
  assumes "ensure_claimed_once oc C A claimant params m w = (Continue, m', w')"
  shows "synced m' w'"
proof -
  obtain d w1 where d: "lm_decide C A claimant params (lm_claimed m) w = (d, w1)" by fastforce
  obtain r w2 r' w2' where "lm_renew C A claimant params m w1 = (r, w2)"
    "lm_acquire oc C A claimant params m w1 = (r', w2')" by fastforce
  with assms d show ?thesis
    by (cases d; cases "the d") (auto simp: ensure_claimed_once_def dest!: lm_settle_again lm_resync_synced)
qed

lemma ensure_claimed_returns: "\<exists>r m' w'. ensure_claimed oc C A claimant params m w = Some (r, m', w')"
proof -
  obtain ctl m1 w1 where once: "ensure_claimed_once oc C A claimant params m w = (ctl, m1, w1)"
    by (cases "ensure_claimed_once oc C A claimant params m w") auto
  show ?thesis
  proof (cases ctl)
    case (Break r)
    with once show ?thesis by (simp add: ensure_claimed.simps)
  next
    case Continue
    with once ensure_claimed_once_again have "synced m1 w1" by blast
    then obtain r m' w' where "ensure_claimed_once oc C A claimant params m1 w1 = (Break r, m', w')"
      using ensure_claimed_once_synced by blast
    then have "ensure_claimed oc C A claimant params m1 w1 = Some (r, m', w')"
      by (simp add: ensure_claimed.simps)
    with once Continue show ?thesis by (simp add: ensure_claimed.simps[of oc C A claimant params m w])
  qed
qed

end

subsection \<open>The operations on a server\<close>

text \<open>
  A manager that talks to a server directly satisfies both interfaces: the clock stands still during
  an operation, and the current version is the fresh one.
\<close>

context lease_server_spec
begin

lemma direct_quiet: "quiet_api (direct_api S) (\<lambda>v w. v = ver (gen (snd w)))"
proof
  fix p w pp b d n e w'
  assume "pt_resource_version (patch_body p) = ver (gen (snd w))" "pp_force pp \<or> p = PStrategic b"
    "api_patch (direct_api S) d n pp p w = (Some (Inl e), w')"
  then show "e \<noteq> KApi 409"
    using patch_current[of pp p "snd w" "snd w'" b] by (auto simp: direct_api_def split: prod.splits)
qed (auto simp: direct_api_def lease_version)

lemma direct_clock: "chrono_spec C \<Longrightarrow> wall_clock C (direct_api S) fst"
  unfolding wall_clock_def
  by (auto simp: wall_clock_axioms_def direct_api_def split: prod.splits)

lemma direct_patch_ok:
  "lm_patch (direct_api S) m p (now, s) = (Inr lease, (now', s')) \<Longrightarrow>
   now' = now \<and> (\<exists>pp. srv_patch S pp p s = (Inr lease, s'))"
  by (auto simp: lm_patch_def Let_def direct_api_def split: prod.splits sum.splits)

lemma direct_patch_err:
  "lm_patch (direct_api S) m p (now, s) = (Inl e, (now', s')) \<Longrightarrow> now' = now \<and> s' = s"
  by (auto simp: lm_patch_def Let_def direct_api_def split: prod.splits sum.splits dest: patch_refused)

lemma direct_inspect: "lm_inspect oc (direct_api S) claim version m w = (ok, m', w') \<Longrightarrow> w' = w"
  by (auto simp: lm_inspect_def ld_inspect_def direct_api_def split: option.splits if_splits)

lemma direct_acquire:
  assumes "lm_acquire oc C (direct_api S) claimant params m (now, s) = (Some (Inr (c, meta)), (now', s'))"
    and "lo_spec (srv_lease S s) = Some spec"
  shows "lo_resource_version (srv_lease S s') = Some (meta_version meta) \<and>
    lo_spec (srv_lease S s') = Some \<lparr>sp_holder_identity = Some claimant, sp_acquire_time = Some (micro now),
      sp_renew_time = Some (micro now),
      sp_lease_duration_seconds = Some (ch_num_seconds C (claim_duration C params)),
      sp_lease_transitions = Some (uint (meta_transitions meta))\<rparr>"
proof -
  obtain n lease w' where n: "rust_add oc (meta_transitions (ls_meta (lm_state m))) 1 = Some n"
    and p: "lm_patch (direct_api S) m
      (acquire_patch C claimant params (meta_version (ls_meta (lm_state m))) n now) (now, s) = (Inr lease, w')"
    and g: "claim_granted C claimant params n now lease = Some (Inr (c, meta))" and w': "w' = (now', s')"
    using assms(1) by (auto simp: lm_acquire_def Let_def direct_api_def split: option.splits prod.splits sum.splits)
  then obtain pp where "srv_patch S pp
      (acquire_patch C claimant params (meta_version (ls_meta (lm_state m))) n now) s = (Inr lease, s')"
    using direct_patch_ok[of m _ now s lease now' s'] by blast
  from patch_accepted[OF this] claim_granted_ok[OF g] assms(2) show ?thesis
    by (auto simp: merge_spec_def acquire_patch_def)
qed

end

interpretation demo_quiet: quiet_api "direct_api demo_server" "\<lambda>v w. v = demo_version (fst (snd w))"
  by (rule demo.direct_quiet)

interpretation demo_clock: wall_clock ideal_chrono "direct_api demo_server" fst
  by (rule demo.direct_clock) unfold_locales

lemma u16_or_zero_uint [simp]: "u16_or_zero (uint (n :: 16 word)) = n"
  using uint_bounded[of n] by (simp add: u16_or_zero_def)

subsection \<open>Properties\<close>


definition unheld_lease :: lease_spec where
  "unheld_lease = \<lparr>sp_holder_identity = None, sp_acquire_time = None, sp_renew_time = None,
     sp_lease_duration_seconds = None, sp_lease_transitions = None\<rparr>"

definition fresh_manager :: "unit lease_manager" where
  "fresh_manager = \<lparr>lm_name = ''lease'', lm_field_manager = ''kubert'',
     lm_state = \<lparr>ls_meta = \<lparr>meta_version = '''', meta_transitions = 0\<rparr>, ls_claim = None\<rparr>, lm_diagnostics = None\<rparr>"

lemmas lease_run_simps = ensure_claimed.simps ensure_claimed_once_def lm_decide_def lm_claimed_def
  lm_settle_def lm_acquire_def lm_patch_def acquire_patch_def claim_granted_def claim_duration_def
  lm_inspect_state_def lm_inspect_def demo_server_def demo_patch_def demo_lease_def demo_version_def
  direct_api_def ideal_chrono_def rust_add_def fresh_manager_def Let_def claim_params_default_def




text \<open>
  C27. What a process acquires is what every process reads: after a successful acquire, the lease on
  the server parses to the metadata the manager stores and to a claim of the claimant, which expires
  no later than the claim the manager stores, and less than a second and a microsecond earlier.
\<close>
theorem acquire_read_back:
  assumes "lease_server_spec S ver gen micro" and "chrono_spec C" and "0 \<le> claim_duration C params"
    and "lm_acquire oc C (direct_api S) claimant params m (now, s) = (Some (Inr (c, meta)), (now', s'))"
    and "ch_add C (micro now) (ch_seconds C (ch_num_seconds C (claim_duration C params))) \<noteq> None"
  shows "\<exists>e. parse_lease C (srv_lease S s') =
      Some (Inr \<lparr>ls_meta = meta, ls_claim = Some \<lparr>claim_holder = claimant, claim_expiry = e\<rparr>\<rparr>) \<and>
    c = \<lparr>claim_holder = claimant, claim_expiry = now + claim_duration C params\<rparr> \<and>
    e \<le> claim_expiry c \<and> claim_expiry c < e + nanos + 1000"
proof -
  let ?d = "claim_duration C params"
  obtain spec where "lo_spec (srv_lease S s) = Some spec"
    using lease_server_spec.lease_has_spec[OF assms(1)] by blast
  note srv = lease_server_spec.direct_acquire[OF assms(1,4) this]
  obtain e where e: "ch_add C (micro now) (ch_seconds C (ch_num_seconds C ?d)) = Some e"
    using assms(5) by blast
  then have "e = micro now + ch_num_seconds C ?d * nanos"
    using chrono_spec.add[OF assms(2)] chrono_spec.seconds[OF assms(2)] by simp
  moreover have "c = \<lparr>claim_holder = claimant, claim_expiry = now + ?d\<rparr>"
    using assms(4) chrono_spec.add[OF assms(2)]
    by (auto simp: lm_acquire_def Let_def direct_api_def split: option.splits prod.splits sum.splits
        dest!: claim_granted_ok)
  moreover have "parse_lease C (srv_lease S s') =
      Some (Inr \<lparr>ls_meta = meta, ls_claim = Some \<lparr>claim_holder = claimant, claim_expiry = e\<rparr>\<rparr>)"
    using srv e by (simp add: parse_lease_def)
  ultimately show ?thesis
    using chrono_spec.num_seconds_le[OF assms(2,3)] chrono_spec.num_seconds_slack[OF assms(2,3)]
      lease_server_spec.micro_le[OF assms(1), of now] lease_server_spec.micro_gt[OF assms(1), of now]
    by auto
qed

lemma alice_acquires:
  "\<exists>s'. lm_acquire True ideal_chrono (direct_api demo_server) ''alice'' claim_params_default
     fresh_manager (100, (0, unheld_lease)) =
     (Some (Inr (\<lparr>claim_holder = ''alice'', claim_expiry = 100 + 30 * nanos\<rparr>,
                 \<lparr>meta_version = ''1'', meta_transitions = 1\<rparr>)), (100, s'))"
  by (simp add: lease_run_simps)

theorem acquire_read_back_witness:
  "\<exists>s' e. lm_acquire True ideal_chrono (direct_api demo_server) ''alice'' claim_params_default
     fresh_manager (100, (0, unheld_lease)) =
     (Some (Inr (\<lparr>claim_holder = ''alice'', claim_expiry = 100 + 30 * nanos\<rparr>,
                 \<lparr>meta_version = ''1'', meta_transitions = 1\<rparr>)), (100, s')) \<and>
   parse_lease ideal_chrono (srv_lease demo_server s') =
     Some (Inr \<lparr>ls_meta = \<lparr>meta_version = ''1'', meta_transitions = 1\<rparr>,
                ls_claim = Some \<lparr>claim_holder = ''alice'', claim_expiry = e\<rparr>\<rparr>) \<and> e \<le> 100 + 30 * nanos"
proof -
  obtain s' where "lm_acquire True ideal_chrono (direct_api demo_server) ''alice'' claim_params_default
     fresh_manager (100, (0, unheld_lease)) =
     (Some (Inr (\<lparr>claim_holder = ''alice'', claim_expiry = 100 + 30 * nanos\<rparr>,
                 \<lparr>meta_version = ''1'', meta_transitions = 1\<rparr>)), (100, s'))"
    using alice_acquires by blast
  with acquire_read_back[OF demo.lease_server_spec_axioms ideal_chrono.chrono_spec_axioms _ this]
  show ?thesis by (force simp: claim_duration_def ideal_chrono_def claim_params_default_def)
qed

text \<open>
  C28. \<open>vacate\<close> releases only the caller's own current claim: it changes the lease only if
  the cached claim is held by the caller and current, and then only by removing the holder, the times
  and the duration, with the count of transitions kept; the manager then caches no claim. When the
  API refuses, the lease is unchanged.
\<close>
theorem vacate_only_own:
  assumes "lease_server_spec S ver gen micro" and "lo_spec (srv_lease S s) = Some spec"
    and "lm_vacate oc (direct_api S) claimant m (now, s) = (r, m', (now', s'))"
  shows "if \<exists>c. lm_claimed m = Some c \<and> is_current_for now claimant c
    then lm_claimed m' = None \<and>
      (case r of
         Some (Inl e) \<Rightarrow> s' = s
       | _ \<Rightarrow> r \<noteq> Some (Inr False) \<and>
           lo_spec (srv_lease S s') = Some (unheld_lease\<lparr>sp_lease_transitions := sp_lease_transitions spec\<rparr>))
    else r = Some (Inr False) \<and> s' = s \<and>
      lm_claimed m' = (case lm_claimed m of None \<Rightarrow> None | Some c \<Rightarrow> if is_current now c then Some c else None)"
proof (cases "\<exists>c. lm_claimed m = Some c \<and> is_current_for now claimant c")
  case False
  with assms(3) show ?thesis
    by (auto simp: lm_vacate_def is_current_for_def direct_api_def lm_claimed_def Let_def split: option.splits)
next
  case True
  let ?m = "m\<lparr>lm_state := (lm_state m)\<lparr>ls_claim := None\<rparr>\<rparr>"
  obtain pr w1 where p: "lm_patch (direct_api S) ?m (vacate_patch (meta_version (ls_meta (lm_state m)))) (now, s) = (pr, w1)"
    using prod.exhaust by blast
  show ?thesis
  proof (cases pr)
    case (Inl e)
    with p True assms(3) lease_server_spec.direct_patch_err[OF assms(1)] show ?thesis
      by (cases w1) (fastforce simp: lm_vacate_def is_current_for_def direct_api_def[of S] lm_claimed_def Let_def)
  next
    case (Inr lease)
    obtain ok m1 w2 where i: "lm_inspect oc (direct_api S) None
        (case lo_resource_version lease of None \<Rightarrow> [] | Some v \<Rightarrow> v) ?m w1 = (ok, m1, w2)"
      using prod_cases3 by blast
    obtain s1 where w1: "w1 = (now, s1)" and "lo_spec (srv_lease S s1) =
        Some (unheld_lease\<lparr>sp_lease_transitions := sp_lease_transitions spec\<rparr>)"
      using p Inr lease_server_spec.direct_patch_ok[OF assms(1)] lease_server_spec.patch_accepted[OF assms(1)] assms(2)
      by (cases w1) (fastforce simp: merge_spec_def vacate_patch_def unheld_lease_def)
    moreover have "lm_claimed m1 = None" "w2 = w1"
      using lm_inspect_keeps[OF i] lease_server_spec.direct_inspect[OF assms(1) i] by (simp_all add: lm_claimed_def)
    moreover have "r = (if ok then Some (Inr True) else None)" "m' = m1" "w2 = (now', s')"
      using True assms(3) p i Inr
      by (auto simp: lm_vacate_def is_current_for_def direct_api_def[of S] Let_def split: prod.splits if_splits)
    ultimately show ?thesis using True by (auto split: option.splits)
  qed
qed

definition alice_manager :: "unit lease_manager" where
  "alice_manager = fresh_manager\<lparr>lm_state := \<lparr>ls_meta = \<lparr>meta_version = ''1'', meta_transitions = 1\<rparr>,
     ls_claim = Some \<lparr>claim_holder = ''alice'', claim_expiry = 130\<rparr>\<rparr>\<rparr>"

definition alice_lease :: lease_spec where
  "alice_lease = \<lparr>sp_holder_identity = Some ''alice'', sp_acquire_time = Some 0, sp_renew_time = Some 0,
     sp_lease_duration_seconds = Some 30, sp_lease_transitions = Some 1\<rparr>"

theorem vacate_only_own_witness:
  "\<exists>r m' now' s'. lm_vacate True (direct_api demo_server) ''alice'' alice_manager (100, (1, alice_lease)) =
      (r, m', (now', s')) \<and> r = Some (Inr True) \<and> lm_claimed m' = None \<and>
      lo_spec (srv_lease demo_server s') = Some (unheld_lease\<lparr>sp_lease_transitions := Some 1\<rparr>)"
proof -
  obtain m' now' s' where v: "lm_vacate True (direct_api demo_server) ''alice'' alice_manager (100, (1, alice_lease)) =
      (Some (Inr True), m', (now', s'))"
    by (simp add: lm_vacate_def lease_run_simps alice_manager_def is_current_def vacate_patch_def)
  moreover have "lo_spec (srv_lease demo_server (1, alice_lease)) = Some alice_lease"
    by (simp add: demo_server_def demo_lease_def)
  ultimately show ?thesis
    using vacate_only_own[OF demo.lease_server_spec_axioms _ v]
    by (simp add: alice_manager_def lm_claimed_def is_current_for_def is_current_def alice_lease_def)
qed

subsection \<open>The claiming task\<close>

text \<open>
  \<open>spawn\<close>: the first claim is made by the caller, then a task keeps it. The task is a state
  machine over its phase, the manager, the world, the claim published on the watch channel and
  whether all receivers were dropped. \<open>backoff::future::retry\<close> repeats a transient failure
  until its policy gives up, which is the choice between \<open>retry\<close> and \<open>give_up\<close>.
\<close>

datatype backoff_error = Permanent lease_error | Transient lease_error

text \<open>The classification of errors; \<open>None\<close> is the failed \<open>debug_assert!\<close> of a debug build.\<close>

fun lease_backoff_error :: "bool \<Rightarrow> lease_error \<Rightarrow> backoff_error option" where
  "lease_backoff_error dbg (EApi KAuth) = Some (Permanent (EApi KAuth))"
| "lease_backoff_error dbg (EApi KDiscovery) = Some (Permanent (EApi KDiscovery))"
| "lease_backoff_error dbg (EApi KBuildRequest) = Some (Permanent (EApi KBuildRequest))"
| "lease_backoff_error dbg (EApi KInferConfig) = (if dbg then None else Some (Permanent (EApi KInferConfig)))"
| "lease_backoff_error dbg e = Some (Transient e)"

datatype task_phase =
    TWaiting lease_claim
  | TSleeping lease_claim duration
  | TClaiming duration
  | TVacating
  | TDone "lease_error + unit"
  | TPanicked

record ('f, 'w) lease_task =
  lt_phase :: task_phase
  lt_manager :: "'f lease_manager"
  lt_world :: "'w"
  lt_published :: lease_claim
  lt_closed :: bool

definition lm_spawn ::
  "bool \<Rightarrow> chrono \<Rightarrow> 'w lease_api \<Rightarrow> string \<Rightarrow> claim_params \<Rightarrow> 'f lease_manager \<Rightarrow> 'w \<Rightarrow>
   (lease_error + ('f, 'w) lease_task) option option" where
  "lm_spawn oc C A claimant params m w =
     (case ensure_claimed oc C A claimant params m w of
        None \<Rightarrow> None
      | Some (None, m, w) \<Rightarrow> Some None
      | Some (Some (Inl e), m, w) \<Rightarrow> Some (Some (Inl e))
      | Some (Some (Inr claim), m, w) \<Rightarrow>
          Some (Some (Inr \<lparr>lt_phase = TWaiting claim, lt_manager = m, lt_world = w, lt_published = claim,
                           lt_closed = False\<rparr>)))"

definition task_grace :: "string \<Rightarrow> claim_params \<Rightarrow> lease_claim \<Rightarrow> duration" where
  "task_grace claimant params claim = (if claim_holder claim = claimant then cp_renew_grace_period params else 0)"

inductive lease_task_step ::
  "bool \<Rightarrow> bool \<Rightarrow> chrono \<Rightarrow> 'w lease_api \<Rightarrow> string \<Rightarrow> claim_params \<Rightarrow>
   ('f, 'w) lease_task \<Rightarrow> ('f, 'w) lease_task \<Rightarrow> bool"
  for oc dbg C A claimant params where
  closed: "lt_phase s = TWaiting claim \<or> lt_phase s = TSleeping claim d \<Longrightarrow> lt_closed s \<Longrightarrow>
    lease_task_step oc dbg C A claimant params s (s\<lparr>lt_phase := TVacating\<rparr>)"
| sleep: "lt_phase s = TWaiting claim \<Longrightarrow> \<not> lt_closed s \<Longrightarrow> utc_now A (lt_world s) = (now, w) \<Longrightarrow>
    expire_with_grace C now (task_grace claimant params claim) claim = Some d \<Longrightarrow>
    lease_task_step oc dbg C A claimant params s (s\<lparr>lt_phase := TSleeping claim d, lt_world := w\<rparr>)"
| no_sleep: "lt_phase s = TWaiting claim \<Longrightarrow> \<not> lt_closed s \<Longrightarrow> utc_now A (lt_world s) = (now, w) \<Longrightarrow>
    expire_with_grace C now (task_grace claimant params claim) claim = None \<Longrightarrow>
    lease_task_step oc dbg C A claimant params s
      (s\<lparr>lt_phase := TClaiming (task_grace claimant params claim), lt_world := w\<rparr>)"
| wake: "lt_phase s = TSleeping claim d \<Longrightarrow> \<not> lt_closed s \<Longrightarrow>
    lease_task_step oc dbg C A claimant params s (s\<lparr>lt_phase := TClaiming (task_grace claimant params claim)\<rparr>)"
| claim: "lt_phase s = TClaiming grace \<Longrightarrow>
    ensure_claimed oc C A claimant params (lt_manager s) (lt_world s) = Some (Some (Inr claim), m, w) \<Longrightarrow>
    lease_task_step oc dbg C A claimant params s
      (if lt_closed s then s\<lparr>lt_phase := TVacating, lt_manager := m, lt_world := w\<rparr>
       else s\<lparr>lt_phase := TWaiting claim, lt_manager := m, lt_world := w, lt_published := claim\<rparr>)"
| permanent: "lt_phase s = TClaiming grace \<Longrightarrow>
    ensure_claimed oc C A claimant params (lt_manager s) (lt_world s) = Some (Some (Inl e), m, w) \<Longrightarrow>
    lease_backoff_error dbg e = Some (Permanent e') \<Longrightarrow>
    lease_task_step oc dbg C A claimant params s (s\<lparr>lt_phase := TDone (Inl e'), lt_manager := m, lt_world := w\<rparr>)"
| retry: "lt_phase s = TClaiming grace \<Longrightarrow>
    ensure_claimed oc C A claimant params (lt_manager s) (lt_world s) = Some (Some (Inl e), m, w) \<Longrightarrow>
    lease_backoff_error dbg e = Some (Transient e') \<Longrightarrow>
    lease_task_step oc dbg C A claimant params s (s\<lparr>lt_manager := m, lt_world := w\<rparr>)"
| give_up: "lt_phase s = TClaiming grace \<Longrightarrow>
    ensure_claimed oc C A claimant params (lt_manager s) (lt_world s) = Some (Some (Inl e), m, w) \<Longrightarrow>
    lease_backoff_error dbg e = Some (Transient e') \<Longrightarrow>
    lease_task_step oc dbg C A claimant params s (s\<lparr>lt_phase := TDone (Inl e'), lt_manager := m, lt_world := w\<rparr>)"
| assertion: "lt_phase s = TClaiming grace \<Longrightarrow>
    ensure_claimed oc C A claimant params (lt_manager s) (lt_world s) = Some (Some (Inl e), m, w) \<Longrightarrow>
    lease_backoff_error dbg e = None \<Longrightarrow>
    lease_task_step oc dbg C A claimant params s (s\<lparr>lt_phase := TPanicked, lt_manager := m, lt_world := w\<rparr>)"
| claim_panic: "lt_phase s = TClaiming grace \<Longrightarrow>
    ensure_claimed oc C A claimant params (lt_manager s) (lt_world s) = Some (None, m, w) \<Longrightarrow>
    lease_task_step oc dbg C A claimant params s (s\<lparr>lt_phase := TPanicked, lt_manager := m, lt_world := w\<rparr>)"
| vacate: "lt_phase s = TVacating \<Longrightarrow>
    lm_vacate oc A claimant (lt_manager s) (lt_world s) = (r, m, w) \<Longrightarrow>
    lease_task_step oc dbg C A claimant params s
      (s\<lparr>lt_phase := (case r of None \<Rightarrow> TPanicked | Some (Inl e) \<Rightarrow> TDone (Inl e) | Some (Inr _) \<Rightarrow> TDone (Inr ())),
         lt_manager := m, lt_world := w\<rparr>)"

text \<open>The environment: time passes and other processes act; the last receiver is dropped.\<close>

inductive lease_task_env :: "('f, 'w) lease_task \<Rightarrow> ('f, 'w) lease_task \<Rightarrow> bool" where
  world: "lease_task_env s (s\<lparr>lt_world := w\<rparr>)"
| drop_receivers: "lease_task_env s (s\<lparr>lt_closed := True\<rparr>)"

lemma lm_settle_claimed:
  "lm_settle oc C A m p = (Break (Some (Inr c)), m', w') \<Longrightarrow> lm_claimed m' = Some c"
  by (cases p) (auto dest: lm_settle_ok)

lemma ensure_claimed_caches:
  assumes "ensure_claimed oc C A claimant params m w = Some (Some (Inr c), m', w')"
  shows "lm_claimed m' = Some c"
  using assms
proof (induction rule: ensure_claimed_induct)
  case (exit m w)
  then show ?case
    by (auto simp: ensure_claimed_once_def lm_decide_def claim_decision_def
        split: prod.splits option.splits if_splits claim_action.splits
        dest: lm_settle_claimed)
qed

lemma lm_vacate_keeps_other:
  "lm_vacate oc A claimant m w = (Some (Inr b), m', w') \<Longrightarrow> lm_claimed m' = Some c \<Longrightarrow> claim_holder c \<noteq> claimant"
  by (auto simp: lm_vacate_def lm_claimed_def Let_def split: option.splits prod.splits sum.splits if_splits
      dest!: lm_inspect_keeps)

definition task_inv :: "string \<Rightarrow> ('f, 'w) lease_task \<Rightarrow> bool" where
  "task_inv claimant s \<longleftrightarrow>
     (case lt_phase s of
        TWaiting c \<Rightarrow> c = lt_published s \<and> lm_claimed (lt_manager s) = Some c
      | TSleeping c d \<Rightarrow> c = lt_published s \<and> lm_claimed (lt_manager s) = Some c
      | TVacating \<Rightarrow> lt_closed s
      | TDone (Inr _) \<Rightarrow> lt_closed s \<and> (\<forall>c. lm_claimed (lt_manager s) = Some c \<longrightarrow> claim_holder c \<noteq> claimant)
      | _ \<Rightarrow> True)"

lemma task_step_inv: "lease_task_step oc dbg C A claimant params s t \<Longrightarrow> task_inv claimant s \<Longrightarrow> task_inv claimant t"
proof (induction rule: lease_task_step.induct)
  case (claim s grace c m w)
  then show ?case using ensure_claimed_caches by (fastforce simp: task_inv_def)
next
  case (vacate s r m w)
  then show ?case
    by (auto simp: task_inv_def split: option.splits sum.splits dest: lm_vacate_keeps_other)
qed (auto simp: task_inv_def)

lemma task_env_inv: "lease_task_env s t \<Longrightarrow> task_inv claimant s \<Longrightarrow> task_inv claimant t"
  by (induction rule: lease_task_env.induct)
    (auto simp: task_inv_def split: task_phase.splits sum.splits)

lemma task_reachable_inv:
  assumes "(\<lambda>s t. lease_task_step oc dbg C A claimant params s t \<or> lease_task_env s t)\<^sup>*\<^sup>* s0 s"
    and "lm_spawn oc C A claimant params m w = Some (Some (Inr s0))"
  shows "task_inv claimant s"
  using assms(1)
proof (induction rule: rtranclp_induct)
  case base
  from assms(2) show ?case
    by (auto simp: lm_spawn_def task_inv_def split: option.splits prod.splits sum.splits
        dest: ensure_claimed_caches)
next
  case (step s t)
  then show ?case using task_step_inv task_env_inv by blast
qed

text \<open>
  C22. The spawned task, over every interleaving with the rest of the world: while it waits, the claim
  it has published is the one its manager has cached, and when it ends successfully all receivers have been
  dropped and its manager holds no claim of its own any more.
\<close>
theorem spawned_task_publishes_and_vacates:
  assumes "lm_spawn oc C A claimant params m w = Some (Some (Inr s0))"
    and "(\<lambda>s t. lease_task_step oc dbg C A claimant params s t \<or> lease_task_env s t)\<^sup>*\<^sup>* s0 s"
  shows "(lt_phase s = TWaiting c \<or> lt_phase s = TSleeping c d \<longrightarrow>
      lt_published s = c \<and> lm_claimed (lt_manager s) = Some c) \<and>
    (lt_phase s = TDone (Inr ()) \<longrightarrow>
      lt_closed s \<and> (\<forall>c. lm_claimed (lt_manager s) = Some c \<longrightarrow> claim_holder c \<noteq> claimant))"
  using task_reachable_inv[OF assms(2,1)] by (auto simp: task_inv_def)


theorem spawned_task_publishes_and_vacates_witness:
  "\<exists>s0. lm_spawn True ideal_chrono (direct_api demo_server) ''alice'' claim_params_default
      fresh_manager (100, (0, unheld_lease)) = Some (Some (Inr s0)) \<and>
    lt_published s0 = \<lparr>claim_holder = ''alice'', claim_expiry = 100 + 30 * nanos\<rparr> \<and>
    lm_claimed (lt_manager s0) = Some \<lparr>claim_holder = ''alice'', claim_expiry = 100 + 30 * nanos\<rparr>"
proof -
  obtain s0 where "lm_spawn True ideal_chrono (direct_api demo_server) ''alice'' claim_params_default
      fresh_manager (100, (0, unheld_lease)) = Some (Some (Inr s0))"
    "lt_phase s0 = TWaiting \<lparr>claim_holder = ''alice'', claim_expiry = 100 + 30 * nanos\<rparr>"
    by (simp add: lm_spawn_def lease_run_simps)
  then show ?thesis
    using spawned_task_publishes_and_vacates[OF _ rtranclp.rtrancl_refl] by metis
qed

text \<open>
  The task is never stuck: if \<open>ensure_claimed\<close> returns, then in every phase but
  the final ones it can take a step, and in a final phase it takes none.
\<close>
theorem spawned_task_progress:
  fixes s :: "('f, 'w) lease_task"
  assumes "\<And>(m :: 'f lease_manager) w. \<exists>r m' w'. ensure_claimed oc C A claimant params m w = Some (r, m', w')"
  shows "(\<exists>t. lease_task_step oc dbg C A claimant params s t) \<longleftrightarrow>
    lt_phase s \<noteq> TPanicked \<and> (\<forall>r. lt_phase s \<noteq> TDone r)"
proof
  assume "\<exists>t. lease_task_step oc dbg C A claimant params s t"
  then show "lt_phase s \<noteq> TPanicked \<and> (\<forall>r. lt_phase s \<noteq> TDone r)"
    by (auto elim: lease_task_step.cases)
next
  assume p: "lt_phase s \<noteq> TPanicked \<and> (\<forall>r. lt_phase s \<noteq> TDone r)"
  obtain now w where now: "utc_now A (lt_world s) = (now, w)" by fastforce
  obtain r m' w' where e: "ensure_claimed oc C A claimant params (lt_manager s) (lt_world s) = Some (r, m', w')"
    using assms by blast
  obtain vr vm vw where v: "lm_vacate oc A claimant (lt_manager s) (lt_world s) = (vr, vm, vw)"
    using prod_cases3 by blast
  show "\<exists>t. lease_task_step oc dbg C A claimant params s t"
  proof (cases "lt_phase s")
    case (TWaiting c)
    then show ?thesis using now
      by (cases "lt_closed s"; cases "expire_with_grace C now (task_grace claimant params c) c")
        (blast intro: lease_task_step.intros)+
  next
    case (TSleeping c d)
    then show ?thesis by (cases "lt_closed s") (blast intro: lease_task_step.intros)+
  next
    case (TClaiming d)
    then consider "r = None" | c where "r = Some (Inr c)" | x where "r = Some (Inl x)" "lease_backoff_error dbg x = None"
      | x y where "r = Some (Inl x)" "lease_backoff_error dbg x = Some (Permanent y)"
      | x y where "r = Some (Inl x)" "lease_backoff_error dbg x = Some (Transient y)"
      by (metis backoff_error.exhaust option.exhaust sum.exhaust)
    then show ?thesis using TClaiming e by cases (blast intro: lease_task_step.intros)+
  next
    case TVacating
    then show ?thesis using v by (blast intro: lease_task_step.intros)
  qed (use p in auto)
qed

theorem spawned_task_progress_witness:
  "\<exists>t. lease_task_step True True ideal_chrono (direct_api demo_server) ''alice'' claim_params_default
     \<lparr>lt_phase = TClaiming 0, lt_manager = fresh_manager, lt_world = (100, (3, unheld_lease)),
      lt_published = \<lparr>claim_holder = ''bob'', claim_expiry = 90\<rparr>, lt_closed = False\<rparr> t"
  using spawned_task_progress[OF demo_quiet.ensure_claimed_returns] by force

end
