(* ===== verification/Index.thy ===== *)
theory Index
  imports Kubert_Prelude
begin

text \<open>
  \<open>kubert/src/index.rs\<close>: the loops \<open>namespaced\<close> and \<open>cluster\<close> that keep an
  index in step with a watch, the default \<open>reset\<close> of the two index traits, and the caches
  of the file's tests, which implement the traits. The interface between a loop and the index it
  drives is the locale \<open>ns_resource_index\<close> (\<open>cluster_resource_index\<close>): what
  \<open>apply\<close>, \<open>delete\<close> and \<open>reset\<close> do to the set of keys the index
  holds. A panic is \<open>None\<close>.
\<close>

subsection \<open>Keys grouped by namespace\<close>

type_synonym ns_keys = "string \<rightharpoonup> string set"

definition ns_insert :: "string \<Rightarrow> string \<Rightarrow> ns_keys \<Rightarrow> ns_keys" where
  "ns_insert ns n m = m(ns \<mapsto> insert n (case m ns of None \<Rightarrow> {} | Some s \<Rightarrow> s))"

definition ns_remove :: "string \<Rightarrow> string \<Rightarrow> ns_keys \<Rightarrow> ns_keys" where
  "ns_remove ns n m = (case m ns of
     None \<Rightarrow> m
   | Some s \<Rightarrow> let s' = s - {n} in if s' = {} then m(ns := None) else m(ns \<mapsto> s'))"

definition ns_forget :: "string \<Rightarrow> string \<Rightarrow> ns_keys \<Rightarrow> ns_keys" where
  "ns_forget ns n m = (case m ns of None \<Rightarrow> m | Some s \<Rightarrow> m(ns \<mapsto> s - {n}))"

definition ns_pairs :: "ns_keys \<Rightarrow> (string \<times> string) set" where
  "ns_pairs m = {(ns, n). \<exists>s. m ns = Some s \<and> n \<in> s}"

definition ns_finite :: "ns_keys \<Rightarrow> bool" where
  "ns_finite m \<longleftrightarrow> finite (dom m) \<and> (\<forall>s \<in> ran m. finite s)"

subsection \<open>The traits\<close>

record ('t, 'r) ns_index =
  nsi_apply :: "'r \<Rightarrow> 't \<Rightarrow> 't option"
  nsi_delete :: "string \<Rightarrow> string \<Rightarrow> 't \<Rightarrow> 't option"
  nsi_reset :: "'r list \<Rightarrow> ns_keys \<Rightarrow> 't \<Rightarrow> 't option"

definition ns_reset_default ::
  "(string set \<Rightarrow> string list) \<Rightarrow> ('r \<Rightarrow> 't \<Rightarrow> 't option) \<Rightarrow> (string \<Rightarrow> string \<Rightarrow> 't \<Rightarrow> 't option) \<Rightarrow>
   'r list \<Rightarrow> ns_keys \<Rightarrow> 't \<Rightarrow> 't option" where
  "ns_reset_default it app del resources removed idx =
     do { idx \<leftarrow> fold_opt app resources idx;
          fold_opt (\<lambda>ns. fold_opt (del ns) (it (case removed ns of None \<Rightarrow> {} | Some s \<Rightarrow> s)))
            (it (dom removed)) idx }"

record ('t, 'r) cluster_index =
  cli_apply :: "'r \<Rightarrow> 't \<Rightarrow> 't option"
  cli_delete :: "string \<Rightarrow> 't \<Rightarrow> 't option"
  cli_reset :: "'r list \<Rightarrow> string set \<Rightarrow> 't \<Rightarrow> 't option"

definition cluster_reset_default ::
  "(string set \<Rightarrow> string list) \<Rightarrow> ('r \<Rightarrow> 't \<Rightarrow> 't option) \<Rightarrow> (string \<Rightarrow> 't \<Rightarrow> 't option) \<Rightarrow>
   'r list \<Rightarrow> string set \<Rightarrow> 't \<Rightarrow> 't option" where
  "cluster_reset_default it app del resources removed idx =
     do { idx \<leftarrow> fold_opt app resources idx; fold_opt del (it removed) idx }"

subsection \<open>The loops\<close>

record 'r ns_loop =
  nsl_keys :: ns_keys
  nsl_reset_added :: "'r list"
  nsl_reset_removed :: ns_keys

definition ns_loop_init :: "'r ns_loop" where
  "ns_loop_init = \<lparr>nsl_keys = Map.empty, nsl_reset_added = [], nsl_reset_removed = Map.empty\<rparr>"

fun namespaced_step ::
  "'r resource_ext \<Rightarrow> ('t, 'r) ns_index \<Rightarrow> 'r event \<Rightarrow> 'r ns_loop \<times> 't \<Rightarrow> ('r ns_loop \<times> 't) option" where
  "namespaced_step ext ix (Apply r) (st, idx) =
     do { ns \<leftarrow> res_namespace ext r;
          n \<leftarrow> res_name ext r;
          idx \<leftarrow> nsi_apply ix r idx;
          Some (st\<lparr>nsl_keys := ns_insert ns n (nsl_keys st)\<rparr>, idx) }"
| "namespaced_step ext ix (Delete r) (st, idx) =
     do { ns \<leftarrow> res_namespace ext r;
          n \<leftarrow> res_name ext r;
          idx \<leftarrow> nsi_delete ix ns n idx;
          Some (st\<lparr>nsl_keys := ns_remove ns n (nsl_keys st)\<rparr>, idx) }"
| "namespaced_step ext ix Init (st, idx) =
     Some (st\<lparr>nsl_reset_removed := nsl_keys st, nsl_keys := Map.empty\<rparr>, idx)"
| "namespaced_step ext ix (InitApply r) (st, idx) =
     do { ns \<leftarrow> res_namespace ext r;
          n \<leftarrow> res_name ext r;
          Some (st\<lparr>nsl_reset_removed := ns_forget ns n (nsl_reset_removed st),
                   nsl_keys := ns_insert ns n (nsl_keys st),
                   nsl_reset_added := nsl_reset_added st @ [r]\<rparr>, idx) }"
| "namespaced_step ext ix InitDone (st, idx) =
     do { idx \<leftarrow> nsi_reset ix (nsl_reset_added st) (nsl_reset_removed st) idx;
          Some (st\<lparr>nsl_reset_added := [], nsl_reset_removed := Map.empty\<rparr>, idx) }"

definition namespaced ::
  "'r resource_ext \<Rightarrow> ('t, 'r) ns_index \<Rightarrow> 'r event list \<Rightarrow> 't \<Rightarrow> 't option" where
  "namespaced ext ix events idx =
     map_option snd (fold_opt (namespaced_step ext ix) events (ns_loop_init, idx))"

record 'r cluster_loop =
  cl_keys :: "string set"
  cl_reset_added :: "'r list"
  cl_reset_removed :: "string set"

definition cluster_loop_init :: "'r cluster_loop" where
  "cluster_loop_init = \<lparr>cl_keys = {}, cl_reset_added = [], cl_reset_removed = {}\<rparr>"

fun cluster_step ::
  "'r resource_ext \<Rightarrow> ('t, 'r) cluster_index \<Rightarrow> 'r event \<Rightarrow> 'r cluster_loop \<times> 't \<Rightarrow>
   ('r cluster_loop \<times> 't) option" where
  "cluster_step ext ix (Apply r) (st, idx) =
     do { n \<leftarrow> res_name ext r;
          idx \<leftarrow> cli_apply ix r idx;
          Some (st\<lparr>cl_keys := insert n (cl_keys st)\<rparr>, idx) }"
| "cluster_step ext ix (Delete r) (st, idx) =
     do { n \<leftarrow> res_name ext r;
          idx \<leftarrow> cli_delete ix n idx;
          Some (st\<lparr>cl_keys := cl_keys st - {n}\<rparr>, idx) }"
| "cluster_step ext ix Init (st, idx) =
     Some (st\<lparr>cl_reset_removed := cl_keys st, cl_keys := {}\<rparr>, idx)"
| "cluster_step ext ix (InitApply r) (st, idx) =
     do { n \<leftarrow> res_name ext r;
          Some (st\<lparr>cl_reset_added := cl_reset_added st @ [r],
                   cl_reset_removed := cl_reset_removed st - {n},
                   cl_keys := insert n (cl_keys st)\<rparr>, idx) }"
| "cluster_step ext ix InitDone (st, idx) =
     do { idx \<leftarrow> cli_reset ix (cl_reset_added st) (cl_reset_removed st) idx;
          Some (st\<lparr>cl_reset_added := [], cl_reset_removed := {}\<rparr>, idx) }"

definition cluster ::
  "'r resource_ext \<Rightarrow> ('t, 'r) cluster_index \<Rightarrow> 'r event list \<Rightarrow> 't \<Rightarrow> 't option" where
  "cluster ext ix events idx =
     map_option snd (fold_opt (cluster_step ext ix) events (cluster_loop_init, idx))"

subsection \<open>The caches of the tests, as implementations of the traits\<close>

definition ns_cache_apply :: "'r resource_ext \<Rightarrow> 'r \<Rightarrow> ns_keys \<Rightarrow> ns_keys option" where
  "ns_cache_apply ext r c =
     do { ns \<leftarrow> res_namespace ext r; n \<leftarrow> res_name ext r; Some (ns_insert ns n c) }"

definition ns_cache_delete :: "string \<Rightarrow> string \<Rightarrow> ns_keys \<Rightarrow> ns_keys option" where
  "ns_cache_delete ns n c = Some (ns_remove ns n c)"

definition ns_cache :: "(string set \<Rightarrow> string list) \<Rightarrow> 'r resource_ext \<Rightarrow> (ns_keys, 'r) ns_index" where
  "ns_cache it ext = \<lparr>nsi_apply = ns_cache_apply ext, nsi_delete = ns_cache_delete,
     nsi_reset = ns_reset_default it (ns_cache_apply ext) ns_cache_delete\<rparr>"

definition cluster_cache_apply :: "'r resource_ext \<Rightarrow> 'r \<Rightarrow> string set \<Rightarrow> string set option" where
  "cluster_cache_apply ext r c = do { n \<leftarrow> res_name ext r; Some (insert n c) }"

definition cluster_cache_delete :: "string \<Rightarrow> string set \<Rightarrow> string set option" where
  "cluster_cache_delete n c = Some (c - {n})"

definition cluster_cache ::
  "(string set \<Rightarrow> string list) \<Rightarrow> 'r resource_ext \<Rightarrow> (string set, 'r) cluster_index" where
  "cluster_cache it ext = \<lparr>cli_apply = cluster_cache_apply ext, cli_delete = cluster_cache_delete,
     cli_reset = cluster_reset_default it (cluster_cache_apply ext) cluster_cache_delete\<rparr>"

subsection \<open>The specification: the keys a watch reports as live\<close>

text \<open>
  What the events say is alive, by namespace and name: a list of events starts over at
  \<open>Init\<close>. \<open>watch_phase\<close> is the order in which a watch emits events when each
  listing runs to its end: \<open>Init\<close>, then \<open>InitApply\<close>s, then \<open>InitDone\<close>,
  with \<open>Apply\<close> and \<open>Delete\<close> only between listings. The phase is
  \<open>True\<close> while a listing is in progress.
\<close>

definition res_key :: "'r resource_ext \<Rightarrow> 'r \<Rightarrow> (string \<times> string) option" where
  "res_key ext r = do { ns \<leftarrow> res_namespace ext r; n \<leftarrow> res_name ext r; Some (ns, n) }"

fun event_resource :: "'r event \<Rightarrow> 'r option" where
  "event_resource (Apply r) = Some r"
| "event_resource (Delete r) = Some r"
| "event_resource (InitApply r) = Some r"
| "event_resource Init = None"
| "event_resource InitDone = None"

definition keyed :: "('r \<Rightarrow> 'k option) \<Rightarrow> 'r event \<Rightarrow> bool" where
  "keyed key e \<longleftrightarrow> (case event_resource e of None \<Rightarrow> True | Some r \<Rightarrow> key r \<noteq> None)"

fun live_step :: "('r \<Rightarrow> 'k option) \<Rightarrow> 'r event \<Rightarrow> 'k set \<Rightarrow> 'k set" where
  "live_step key (Apply r) L = insert (the (key r)) L"
| "live_step key (Delete r) L = L - {the (key r)}"
| "live_step key Init L = {}"
| "live_step key (InitApply r) L = insert (the (key r)) L"
| "live_step key InitDone L = L"

definition live :: "('r \<Rightarrow> 'k option) \<Rightarrow> 'r event list \<Rightarrow> 'k set" where
  "live key es = fold (live_step key) es {}"

fun watch_phase :: "'r event \<Rightarrow> bool \<Rightarrow> bool option" where
  "watch_phase (Apply r) b = (if b then None else Some False)"
| "watch_phase (Delete r) b = (if b then None else Some False)"
| "watch_phase Init b = (if b then None else Some True)"
| "watch_phase (InitApply r) b = (if b then Some True else None)"
| "watch_phase InitDone b = (if b then Some False else None)"

lemma res_key_Some [simp]:
  "res_key ext r = Some (ns, n) \<longleftrightarrow> res_namespace ext r = Some ns \<and> res_name ext r = Some n"
  by (auto simp: res_key_def panic_simps)

lemma res_key_eval [simp]:
  "res_namespace ext r = Some ns \<Longrightarrow> res_name ext r = Some n \<Longrightarrow> res_key ext r = Some (ns, n)"
  by simp

lemma keyed_simps [simp]:
  "keyed key (Apply r) \<longleftrightarrow> key r \<noteq> None" "keyed key (Delete r) \<longleftrightarrow> key r \<noteq> None"
  "keyed key (InitApply r) \<longleftrightarrow> key r \<noteq> None" "keyed key Init" "keyed key InitDone"
  by (simp_all add: keyed_def)

subsection \<open>Laws of the key containers\<close>

lemma ns_pairs_empty [simp, view_simps]: "ns_pairs Map.empty = {}"
  by (simp add: ns_pairs_def)

lemma ns_pairs_insert [simp, view_simps]: "ns_pairs (ns_insert ns n m) = insert (ns, n) (ns_pairs m)"
  by (auto simp: ns_pairs_def ns_insert_def split: option.splits if_splits)

lemma ns_pairs_remove [simp, view_simps]: "ns_pairs (ns_remove ns n m) = ns_pairs m - {(ns, n)}"
  by (auto simp: ns_pairs_def ns_remove_def Let_def split: option.splits if_splits)

lemma ns_pairs_forget [simp, view_simps]: "ns_pairs (ns_forget ns n m) = ns_pairs m - {(ns, n)}"
  by (auto simp: ns_pairs_def ns_forget_def split: option.splits if_splits)

lemma ns_finite_empty [simp]: "ns_finite Map.empty"
  by (simp add: ns_finite_def)

lemma ns_finite_upd: "ns_finite m \<Longrightarrow> finite s \<Longrightarrow> ns_finite (m(k \<mapsto> s))"
  by (auto simp: ns_finite_def ran_def)

lemma ns_finite_drop: "ns_finite m \<Longrightarrow> ns_finite (m(k := None))"
  by (auto simp: ns_finite_def ran_def)

lemma ns_finite_lookup: "ns_finite m \<Longrightarrow> m k = Some s \<Longrightarrow> finite s"
  by (auto simp: ns_finite_def ran_def)

lemma ns_finite_insert [simp]: "ns_finite m \<Longrightarrow> ns_finite (ns_insert ns n m)"
  by (auto simp: ns_insert_def split: option.splits intro!: ns_finite_upd dest: ns_finite_lookup)

lemma ns_finite_remove [simp]: "ns_finite m \<Longrightarrow> ns_finite (ns_remove ns n m)"
  by (auto simp: ns_remove_def Let_def split: option.splits
      intro!: ns_finite_upd ns_finite_drop dest: ns_finite_lookup)

lemma ns_finite_forget [simp]: "ns_finite m \<Longrightarrow> ns_finite (ns_forget ns n m)"
  by (auto simp: ns_forget_def split: option.splits intro!: ns_finite_upd dest: ns_finite_lookup)

text \<open>No namespace is left without a name: \<open>Delete\<close> drops an emptied group.\<close>

definition ns_tidy :: "ns_keys \<Rightarrow> bool" where
  "ns_tidy m \<longleftrightarrow> (\<forall>s \<in> ran m. s \<noteq> {})"

lemma ns_tidy_empty [simp]: "ns_tidy Map.empty"
  by (simp add: ns_tidy_def)

lemma ns_tidy_insert [simp]: "ns_tidy m \<Longrightarrow> ns_tidy (ns_insert ns n m)"
  by (auto simp: ns_tidy_def ns_insert_def ran_def split: option.splits)

lemma ns_tidy_remove [simp]: "ns_tidy m \<Longrightarrow> ns_tidy (ns_remove ns n m)"
  by (auto simp: ns_tidy_def ns_remove_def ran_def Let_def split: option.splits)

lemma ns_pairs_it:
  assumes "hash_order it" and "ns_finite m"
  shows "(\<Union>ns \<in> set (it (dom m)). Pair ns ` set (it (case m ns of None \<Rightarrow> {} | Some s \<Rightarrow> s))) = ns_pairs m"
proof -
  have "set (it (case m ns of None \<Rightarrow> {} | Some s \<Rightarrow> s)) = (case m ns of None \<Rightarrow> {} | Some s \<Rightarrow> s)" for ns
    by (rule hash_order.it_set[OF assms(1)])
      (auto split: option.splits intro: ns_finite_lookup[OF assms(2)])
  moreover have "set (it (dom m)) = dom m"
    using assms by (simp add: hash_order.it_set ns_finite_def)
  ultimately show ?thesis by (force simp: ns_pairs_def)
qed

subsection \<open>The index a loop drives\<close>

text \<open>
  \<open>view\<close> is the set of keys an index holds. The loops need its operations to succeed on
  resources that have a key and to insert, remove and replace keys as the trait's documentation
  says: \<open>reset\<close> adds the live resources and removes the keys that were removed.
\<close>

locale ns_resource_index =
  fixes ext :: "'r resource_ext"
    and ix :: "('t, 'r) ns_index"
    and view :: "'t \<Rightarrow> (string \<times> string) set"
  assumes view_apply:
      "res_key ext r = Some k \<Longrightarrow> \<exists>t'. nsi_apply ix r t = Some t' \<and> view t' = insert k (view t)"
    and view_delete: "\<exists>t'. nsi_delete ix ns n t = Some t' \<and> view t' = view t - {(ns, n)}"
    and view_reset: "\<forall>r \<in> set rs. res_key ext r \<noteq> None \<Longrightarrow> ns_finite rm \<Longrightarrow>
      \<exists>t'. nsi_reset ix rs rm t = Some t' \<and>
        view t' = (view t \<union> (the \<circ> res_key ext) ` set rs) - ns_pairs rm"

text \<open>An index that leaves \<open>reset\<close> to the trait's default has only to provide the rest.\<close>

locale ns_default_reset = hash_order it
  for it :: "string set \<Rightarrow> string list" +
  fixes ext :: "'r resource_ext"
    and app :: "'r \<Rightarrow> 't \<Rightarrow> 't option"
    and del :: "string \<Rightarrow> string \<Rightarrow> 't \<Rightarrow> 't option"
    and view :: "'t \<Rightarrow> (string \<times> string) set"
  assumes default_apply:
      "res_key ext r = Some k \<Longrightarrow> \<exists>t'. app r t = Some t' \<and> view t' = insert k (view t)"
    and default_delete: "\<exists>t'. del ns n t = Some t' \<and> view t' = view t - {(ns, n)}"
begin

lemma fold_apply_view:
  assumes "\<forall>r \<in> set rs. res_key ext r \<noteq> None"
  shows "\<exists>t'. fold_opt app rs t = Some t' \<and> view t' = view t \<union> (the \<circ> res_key ext) ` set rs"
proof -
  have "\<exists>t'. app r t = Some t' \<and> view t' = insert ((the \<circ> res_key ext) r) (view t)"
    if "r \<in> set rs" for r t
    using default_apply[of r "the (res_key ext r)" t] assms that by simp
  from fold_opt_abs[where av = view and xs = rs and f = app
      and g = "\<lambda>r. insert ((the \<circ> res_key ext) r)", OF this] show ?thesis
    by (simp only: fold_insert_Un)
qed

lemma fold_delete_view:
  "\<exists>t'. fold_opt (del ns) ks t = Some t' \<and> view t' = view t - Pair ns ` set ks"
  using fold_opt_abs[where av = view and f = "del ns" and g = "\<lambda>n A. A - {Pair ns n}" and xs = ks]
    default_delete by (simp only: fold_Diff_singleton)

lemma default_reset_view:
  assumes "\<forall>r \<in> set rs. res_key ext r \<noteq> None" and "ns_finite rm"
  shows "\<exists>t'. ns_reset_default it app del rs rm t = Some t' \<and>
    view t' = (view t \<union> (the \<circ> res_key ext) ` set rs) - ns_pairs rm"
proof -
  let ?names = "\<lambda>ns. it (case rm ns of None \<Rightarrow> {} | Some s \<Rightarrow> s)"
  obtain t1 where t1: "fold_opt app rs t = Some t1" "view t1 = view t \<union> (the \<circ> res_key ext) ` set rs"
    using fold_apply_view[OF assms(1)] by blast
  obtain t2 where t2: "fold_opt (\<lambda>ns. fold_opt (del ns) (?names ns)) (it (dom rm)) t1 = Some t2"
    "view t2 = fold (\<lambda>ns A. A - Pair ns ` set (?names ns)) (it (dom rm)) (view t1)"
    using fold_opt_abs[where av = view and f = "\<lambda>ns. fold_opt (del ns) (?names ns)"
        and g = "\<lambda>ns A. A - Pair ns ` set (?names ns)"] fold_delete_view by meson
  then have "view t2 = view t1 - ns_pairs rm"
    by (simp add: fold_Diff_Union ns_pairs_it[OF hash_order_axioms assms(2)])
  with t1 t2 show ?thesis by (simp add: ns_reset_default_def)
qed

lemma default_index:
  "ns_resource_index ext
     \<lparr>nsi_apply = app, nsi_delete = del, nsi_reset = ns_reset_default it app del\<rparr> view"
  using default_apply default_delete default_reset_view by unfold_locales simp_all

end

sublocale ns_default_reset \<subseteq> ns_resource_index ext
  "\<lparr>nsi_apply = app, nsi_delete = del, nsi_reset = ns_reset_default it app del\<rparr>" view
  by (rule default_index)

lemma ns_cache_lawful:
  "hash_order it \<Longrightarrow> ns_default_reset it ext (ns_cache_apply ext) ns_cache_delete ns_pairs"
  by (auto simp: ns_default_reset_def ns_default_reset_axioms_def ns_cache_apply_def
      ns_cache_delete_def panic_simps)

interpretation ns_cache_index: ns_default_reset sorted_list_of_set ext "ns_cache_apply ext"
  ns_cache_delete ns_pairs for ext :: "'r resource_ext"
  by (rule ns_cache_lawful) unfold_locales

lemma ns_cache_resource_index:
  "hash_order it \<Longrightarrow> ns_resource_index ext (ns_cache it ext) ns_pairs"
  unfolding ns_cache_def by (rule ns_default_reset.default_index[OF ns_cache_lawful])

subsection \<open>The loop and the index stay in step\<close>

text \<open>
  Between listings the index holds exactly the live keys. During a listing the index still holds
  the old keys, \<open>keys\<close> and \<open>reset_added\<close> the keys listed so far, and
  \<open>reset_removed\<close> the old keys that have not been listed.
\<close>

definition ns_sync ::
  "'r resource_ext \<Rightarrow> ('t \<Rightarrow> (string \<times> string) set) \<Rightarrow> bool \<Rightarrow> (string \<times> string) set \<Rightarrow>
   'r ns_loop \<times> 't \<Rightarrow> bool" where
  "ns_sync ext view b L s \<longleftrightarrow>
     ns_finite (nsl_keys (fst s)) \<and> ns_tidy (nsl_keys (fst s)) \<and> ns_pairs (nsl_keys (fst s)) = L \<and>
     ns_finite (nsl_reset_removed (fst s)) \<and>
     (\<forall>r \<in> set (nsl_reset_added (fst s)). res_key ext r \<noteq> None) \<and>
     (if b then ns_pairs (nsl_reset_removed (fst s)) = view (snd s) - L \<and>
               (the \<circ> res_key ext) ` set (nsl_reset_added (fst s)) = L
      else nsl_reset_added (fst s) = [] \<and> view (snd s) = L)"

definition ns_ok :: "'r resource_ext \<Rightarrow> 'r ns_loop \<times> 't \<Rightarrow> bool" where
  "ns_ok ext s \<longleftrightarrow> ns_finite (nsl_keys (fst s)) \<and> ns_finite (nsl_reset_removed (fst s)) \<and>
     (\<forall>r \<in> set (nsl_reset_added (fst s)). res_key ext r \<noteq> None)"

lemma ns_ok_init [simp]: "ns_ok ext (ns_loop_init, idx)"
  by (simp add: ns_ok_def ns_loop_init_def)

context ns_resource_index
begin

lemma step_sync:
  assumes "ns_sync ext view b L s" and "watch_phase e b = Some b'" and "keyed (res_key ext) e"
  shows "\<exists>s'. namespaced_step ext ix e s = Some s' \<and>
    ns_sync ext view b' (live_step (res_key ext) e L) s'"
proof (cases e)
  case (Apply r)
  obtain st t where s: "s = (st, t)" by fastforce
  from Apply assms obtain ns n where k: "res_key ext r = Some (ns, n)" by auto
  with view_apply[OF k, of t] assms Apply s show ?thesis
    by (auto simp: ns_sync_def split: if_splits)
next
  case (Delete r)
  obtain st t where s: "s = (st, t)" by fastforce
  from Delete assms obtain ns n where k: "res_key ext r = Some (ns, n)" by auto
  with view_delete[of ns n t] assms Delete s show ?thesis
    by (auto simp: ns_sync_def split: if_splits)
next
  case Init
  with assms show ?thesis by (cases s) (auto simp: ns_sync_def split: if_splits)
next
  case (InitApply r)
  obtain st t where s: "s = (st, t)" by fastforce
  from InitApply assms obtain ns n where k: "res_key ext r = Some (ns, n)" by auto
  with assms InitApply s show ?thesis
    by (auto simp: ns_sync_def split: if_splits)
next
  case InitDone
  obtain st t where s: "s = (st, t)" by fastforce
  from InitDone assms s have "b" "\<not> b'" by (auto split: if_splits)
  with assms(1) s obtain t' where "nsi_reset ix (nsl_reset_added st) (nsl_reset_removed st) t = Some t'"
    "view t' = (view t \<union> L) - (view t - L)"
    using view_reset[of "nsl_reset_added st" "nsl_reset_removed st" t] by (auto simp: ns_sync_def)
  with assms(1) InitDone s \<open>b\<close> \<open>\<not> b'\<close> show ?thesis by (auto simp: ns_sync_def)
qed

lemma run_sync:
  assumes "ns_sync ext view b L s" and "fold_opt watch_phase es b = Some b'"
    and "\<forall>e \<in> set es. keyed (res_key ext) e"
  shows "\<exists>s'. fold_opt (namespaced_step ext ix) es s = Some s' \<and>
    ns_sync ext view b' (fold (live_step (res_key ext)) es L) s'"
  using assms
proof (induction es arbitrary: b L s)
  case (Cons e es)
  then obtain b1 where b1: "watch_phase e b = Some b1" "fold_opt watch_phase es b1 = Some b'"
    by (auto simp: panic_simps)
  with step_sync[of b L s e b1] Cons.prems obtain s1 where
    "namespaced_step ext ix e s = Some s1" "ns_sync ext view b1 (live_step (res_key ext) e L) s1"
    by auto
  with Cons.IH[of b1 _ s1] b1 Cons.prems show ?case by simp
qed simp

lemma step_total:
  assumes "keyed (res_key ext) e" and "ns_ok ext s"
  shows "\<exists>s'. namespaced_step ext ix e s = Some s' \<and> ns_ok ext s'"
proof -
  obtain st t where s: "s = (st, t)" by fastforce
  have key: "\<exists>ns n. res_key ext r = Some (ns, n)" if "event_resource e = Some r" for r
    using assms(1) that by (auto simp: keyed_def)
  show ?thesis
  proof (cases e)
    case (Apply r)
    then obtain ns n where k: "res_key ext r = Some (ns, n)" using key by fastforce
    with view_apply[OF k, of t] assms Apply s show ?thesis by (auto simp: ns_ok_def)
  next
    case (Delete r)
    then obtain ns n where k: "res_key ext r = Some (ns, n)" using key by fastforce
    with view_delete[of ns n t] assms Delete s show ?thesis by (auto simp: ns_ok_def)
  next
    case (InitApply r)
    then obtain ns n where "res_key ext r = Some (ns, n)" using key by fastforce
    with assms InitApply s show ?thesis by (auto simp: ns_ok_def)
  next
    case InitDone
    with view_reset[of "nsl_reset_added st" "nsl_reset_removed st" t] assms s show ?thesis
      by (auto simp: ns_ok_def)
  qed (use assms s in \<open>simp add: ns_ok_def\<close>)
qed

lemma init_sync: "view t = {} \<Longrightarrow> ns_sync ext view False {} (ns_loop_init, t)"
  by (simp add: ns_sync_def ns_loop_init_def)

end


text \<open>The resources of the file's tests: pods in a namespace.\<close>

definition pod_ext :: "(string \<times> string) resource_ext" where
  "pod_ext = \<lparr>res_namespace = (\<lambda>p. Some (fst p)), res_name = (\<lambda>p. Some (snd p))\<rparr>"

abbreviation pod :: "string \<Rightarrow> string \<times> string" where
  "pod n \<equiv> (''default'', n)"

lemma pod_ext_simps [simp]:
  "res_namespace pod_ext p = Some (fst p)" "res_name pod_ext p = Some (snd p)"
  "res_key pod_ext p = Some p"
  by (simp_all add: pod_ext_def res_key_def)


text \<open>
  C30. A listing that is interrupted and started again (\<open>Init\<close> twice with no
  \<open>InitDone\<close> between, which is how a watch reports a failed listing page) makes the loop
  lose keys: \<open>reset_removed\<close> is overwritten with the partial list, so a resource that
  disappeared stays in the index although the watch no longer reports it, for every index that
  keeps its contract.
\<close>
theorem namespaced_interrupted_listing_leaks:
  assumes "ns_resource_index ext ix view" and "res_key ext a = Some ka" and "res_key ext b = Some kb"
    and "ka \<noteq> kb" and "view idx = {}"
  shows "let es = [Init, InitApply a, InitApply b, InitDone,
                   Init, InitApply a, Init, InitApply a, InitDone]
    in live (res_key ext) es = {ka} \<and>
       (\<exists>idx'. namespaced ext ix es idx = Some idx' \<and> view idx' = {ka, kb})"
proof -
  obtain na ma nb mb where ab: "ka = (na, ma)" "kb = (nb, mb)" by fastforce
  let ?es0 = "[Init, InitApply a, InitApply b, InitDone]"
  obtain st0 t0 where 0: "fold_opt (namespaced_step ext ix) ?es0 (ns_loop_init, idx) = Some (st0, t0)"
    and "ns_sync ext view False {ka, kb} (st0, t0)"
    using ns_resource_index.run_sync[OF assms(1) ns_resource_index.init_sync[OF assms(1,5)], of ?es0 False]
      assms(2,3) by (auto simp: insert_commute)
  then have st0: "nsl_reset_added st0 = []" "view t0 = {ka, kb}" by (auto simp: ns_sync_def)
  obtain t1 where "nsi_reset ix [a, a] (ns_forget na ma (ns_insert na ma Map.empty)) t0 = Some t1"
    "view t1 = {ka, kb}"
    using ns_resource_index.view_reset[OF assms(1), of "[a, a]" "ns_forget na ma (ns_insert na ma Map.empty)" t0]
      assms(2) st0 ab by auto
  then have 1: "\<exists>st1. fold_opt (namespaced_step ext ix) [Init, InitApply a, Init, InitApply a, InitDone]
      (st0, t0) = Some (st1, t1)"
    using assms(2) st0 ab by simp
  have "\<exists>st1. fold_opt (namespaced_step ext ix) (?es0 @ [Init, InitApply a, Init, InitApply a, InitDone])
      (ns_loop_init, idx) = Some (st1, t1)"
    unfolding fold_opt_append 0 using 1 by (simp del: fold_opt.simps)
  with \<open>view t1 = {ka, kb}\<close> have "\<exists>idx'. namespaced ext ix
      (?es0 @ [Init, InitApply a, Init, InitApply a, InitDone]) idx = Some idx' \<and> view idx' = {ka, kb}"
    by (auto simp: namespaced_def simp del: fold_opt.simps)
  then show ?thesis using assms(2,3) by (simp add: live_def)
qed

theorem namespaced_interrupted_listing_leaks_witness:
  "let es = [Init, InitApply (pod ''a''), InitApply (pod ''b''), InitDone,
             Init, InitApply (pod ''a''), Init, InitApply (pod ''a''), InitDone]
   in live (res_key pod_ext) es = {pod ''a''} \<and>
      (\<exists>idx'. namespaced pod_ext (ns_cache sorted_list_of_set pod_ext) es Map.empty = Some idx' \<and>
              ns_pairs idx' = {pod ''a'', pod ''b''})"
  using namespaced_interrupted_listing_leaks[OF ns_cache_resource_index[OF sorted_order.hash_order_axioms],
      of pod_ext "pod ''a''" "pod ''a''" "pod ''b''" "pod ''b''" Map.empty]
  by simp

text \<open>
  The loop panics exactly when an event's resource has no namespace or no name, provided the
  index itself does not panic on resources that have both: the two \<open>expect\<close>s are the only
  way it can fail. The statement covers every event sequence, well ordered or not.
\<close>
theorem namespaced_panics_iff:
  assumes "ns_resource_index ext ix view"
  shows "namespaced ext ix es idx = None \<longleftrightarrow> (\<exists>e \<in> set es. \<not> keyed (res_key ext) e)"
proof -
  have "namespaced_step ext ix e s = None" if "\<not> keyed (res_key ext) e" for e s
    using that by (cases e; cases s) (auto simp: res_key_def split: bind_splits)
  then have bad: "fold_opt (namespaced_step ext ix) es s = None"
    if "\<exists>e \<in> set es. \<not> keyed (res_key ext) e" for s
    using that by (induction es arbitrary: s) (auto split: bind_splits)
  have "\<exists>s'. fold_opt (namespaced_step ext ix) es (ns_loop_init, idx) = Some s'"
    if "\<forall>e \<in> set es. keyed (res_key ext) e"
    using fold_opt_invariant[where P = "ns_ok ext" and xs = es and f = "namespaced_step ext ix"
        and s = "(ns_loop_init, idx)"] ns_resource_index.step_total[OF assms] that
      ns_ok_init[of ext idx] by blast
  with bad[of "(ns_loop_init, idx)"] show ?thesis unfolding namespaced_def
    by (cases "\<forall>e \<in> set es. keyed (res_key ext) e") auto
qed

theorem namespaced_panics_iff_witness:
  "namespaced \<lparr>res_namespace = (\<lambda>r. None), res_name = (\<lambda>r. Some r)\<rparr>
     (ns_cache sorted_list_of_set \<lparr>res_namespace = (\<lambda>r. None), res_name = (\<lambda>r. Some r)\<rparr>)
     [Init, InitApply ''node'', InitDone] Map.empty = None"
  using namespaced_panics_iff[OF ns_cache_resource_index[OF sorted_order.hash_order_axioms],
      of "\<lparr>res_namespace = (\<lambda>r. None), res_name = (\<lambda>r. Some r)\<rparr>" "[Init, InitApply ''node'', InitDone]" Map.empty]
  by (simp add: res_key_def)

subsection \<open>The cluster-scoped loop\<close>

locale cluster_resource_index =
  fixes ext :: "'r resource_ext"
    and ix :: "('t, 'r) cluster_index"
    and view :: "'t \<Rightarrow> string set"
  assumes cview_apply:
      "res_name ext r = Some n \<Longrightarrow> \<exists>t'. cli_apply ix r t = Some t' \<and> view t' = insert n (view t)"
    and cview_delete: "\<exists>t'. cli_delete ix n t = Some t' \<and> view t' = view t - {n}"
    and cview_reset: "\<forall>r \<in> set rs. res_name ext r \<noteq> None \<Longrightarrow> finite rm \<Longrightarrow>
      \<exists>t'. cli_reset ix rs rm t = Some t' \<and>
        view t' = (view t \<union> (the \<circ> res_name ext) ` set rs) - rm"

locale cluster_default_reset = hash_order it
  for it :: "string set \<Rightarrow> string list" +
  fixes ext :: "'r resource_ext"
    and app :: "'r \<Rightarrow> 't \<Rightarrow> 't option"
    and del :: "string \<Rightarrow> 't \<Rightarrow> 't option"
    and view :: "'t \<Rightarrow> string set"
  assumes cdefault_apply:
      "res_name ext r = Some n \<Longrightarrow> \<exists>t'. app r t = Some t' \<and> view t' = insert n (view t)"
    and cdefault_delete: "\<exists>t'. del n t = Some t' \<and> view t' = view t - {n}"
begin

lemma cdefault_reset_view:
  assumes "\<forall>r \<in> set rs. res_name ext r \<noteq> None" and "finite rm"
  shows "\<exists>t'. cluster_reset_default it app del rs rm t = Some t' \<and>
    view t' = (view t \<union> (the \<circ> res_name ext) ` set rs) - rm"
proof -
  have "\<exists>t'. app r t = Some t' \<and> view t' = insert ((the \<circ> res_name ext) r) (view t)"
    if "r \<in> set rs" for r t
    using cdefault_apply[of r "the (res_name ext r)" t] assms(1) that by simp
  from fold_opt_abs[where av = view and xs = rs and f = app
      and g = "\<lambda>r. insert ((the \<circ> res_name ext) r)" and s = t, OF this]
  obtain t1 where t1: "fold_opt app rs t = Some t1" "view t1 = view t \<union> (the \<circ> res_name ext) ` set rs"
    unfolding fold_insert_Un by blast
  obtain t2 where "fold_opt del (it rm) t1 = Some t2" "view t2 = view t1 - rm"
    using fold_opt_abs[where av = view and xs = "it rm" and f = del and g = "\<lambda>n A. A - {id n}" and s = t1]
      cdefault_delete unfolding fold_Diff_singleton it_set[OF assms(2)] by auto
  with t1 show ?thesis by (simp add: cluster_reset_default_def)
qed

lemma cdefault_index:
  "cluster_resource_index ext
     \<lparr>cli_apply = app, cli_delete = del, cli_reset = cluster_reset_default it app del\<rparr> view"
  using cdefault_apply cdefault_delete cdefault_reset_view by unfold_locales simp_all

end

sublocale cluster_default_reset \<subseteq> cluster_resource_index ext
  "\<lparr>cli_apply = app, cli_delete = del, cli_reset = cluster_reset_default it app del\<rparr>" view
  by (rule cdefault_index)

lemma cluster_cache_lawful:
  "hash_order it \<Longrightarrow> cluster_default_reset it ext (cluster_cache_apply ext) cluster_cache_delete id"
  by (auto simp: cluster_default_reset_def cluster_default_reset_axioms_def cluster_cache_apply_def
      cluster_cache_delete_def panic_simps)

interpretation cluster_cache_index: cluster_default_reset sorted_list_of_set ext
  "cluster_cache_apply ext" cluster_cache_delete id for ext :: "'r resource_ext"
  by (rule cluster_cache_lawful) unfold_locales

lemma cluster_cache_resource_index:
  "hash_order it \<Longrightarrow> cluster_resource_index ext (cluster_cache it ext) id"
  unfolding cluster_cache_def by (rule cluster_default_reset.cdefault_index[OF cluster_cache_lawful])

definition cluster_sync ::
  "'r resource_ext \<Rightarrow> ('t \<Rightarrow> string set) \<Rightarrow> bool \<Rightarrow> string set \<Rightarrow> 'r cluster_loop \<times> 't \<Rightarrow> bool" where
  "cluster_sync ext view b L s \<longleftrightarrow>
     finite (cl_keys (fst s)) \<and> cl_keys (fst s) = L \<and> finite (cl_reset_removed (fst s)) \<and>
     (\<forall>r \<in> set (cl_reset_added (fst s)). res_name ext r \<noteq> None) \<and>
     (if b then cl_reset_removed (fst s) = view (snd s) - L \<and>
               (the \<circ> res_name ext) ` set (cl_reset_added (fst s)) = L
      else cl_reset_added (fst s) = [] \<and> view (snd s) = L)"

context cluster_resource_index
begin

lemma cstep_sync:
  assumes "cluster_sync ext view b L s" and "watch_phase e b = Some b'" and "keyed (res_name ext) e"
  shows "\<exists>s'. cluster_step ext ix e s = Some s' \<and>
    cluster_sync ext view b' (live_step (res_name ext) e L) s'"
proof (cases e)
  case (Apply r)
  with assms cview_apply[of r _ "snd s"] show ?thesis
    by (cases s) (auto simp: cluster_sync_def split: if_splits)
next
  case (Delete r)
  with assms cview_delete[of "the (res_name ext r)" "snd s"] show ?thesis
    by (cases s) (auto simp: cluster_sync_def split: if_splits)
next
  case InitDone
  obtain st t where s: "s = (st, t)" by fastforce
  from InitDone assms s have "b" "\<not> b'" by (auto split: if_splits)
  with assms(1) s obtain t' where "cli_reset ix (cl_reset_added st) (cl_reset_removed st) t = Some t'"
    "view t' = (view t \<union> L) - (view t - L)"
    using cview_reset[of "cl_reset_added st" "cl_reset_removed st" t] by (auto simp: cluster_sync_def)
  with assms(1) InitDone s \<open>b\<close> \<open>\<not> b'\<close> show ?thesis by (auto simp: cluster_sync_def)
qed (use assms in \<open>cases s; auto simp: cluster_sync_def split: if_splits\<close>)+

lemma crun_sync:
  assumes "cluster_sync ext view b L s" and "fold_opt watch_phase es b = Some b'"
    and "\<forall>e \<in> set es. keyed (res_name ext) e"
  shows "\<exists>s'. fold_opt (cluster_step ext ix) es s = Some s' \<and>
    cluster_sync ext view b' (fold (live_step (res_name ext)) es L) s'"
  using assms
proof (induction es arbitrary: b L s)
  case (Cons e es)
  then obtain b1 where b1: "watch_phase e b = Some b1" "fold_opt watch_phase es b1 = Some b'"
    by (auto simp: panic_simps)
  with cstep_sync[of b L s e b1] Cons.prems obtain s1 where
    "cluster_step ext ix e s = Some s1" "cluster_sync ext view b1 (live_step (res_name ext) e L) s1"
    by auto
  with Cons.IH[of b1 _ s1] b1 Cons.prems show ?case by simp
qed simp

end



end
