(* ===== verification/Shutdown.thy ===== *)
theory Shutdown
  imports Kubert_Prelude
begin

text \<open>
  \<open>kubert/src/shutdown.rs\<close>: the task that drives graceful shutdown
  (\<open>Shutdown::signaled\<close>) and the wrapper that ends a future or stream when shutdown is
  signaled (\<open>CancelOnShutdown\<close>). The drain channel (the \<open>drain\<close> crate) and the
  delivery of signals are the environment: the contract of the channel is the locale
  \<open>drain_channel\<close>.
\<close>

subsection \<open>Shutdown::signaled\<close>

record 'd drain_api =
  dr_signal :: "'d \<Rightarrow> 'd"
  dr_signaled :: "'d \<Rightarrow> bool"
  dr_closed :: "'d \<Rightarrow> bool"
  dr_drained :: "'d \<Rightarrow> bool"

datatype aborted = Aborted
datatype shutdown_phase = Watching | Draining | Completed "aborted + unit"

text \<open>
  The state of the task: where it is, whether a SIGINT or SIGTERM notification is waiting to be
  received (several deliveries before a receive coalesce into one), and the drain channel.
  \<open>sh_delivered\<close> counts the signals the process was sent.
\<close>

record 'd shutdown =
  sh_phase :: shutdown_phase
  sh_interrupt :: bool
  sh_terminate :: bool
  sh_tx :: "'d"
  sh_delivered :: nat

definition shutdown_new :: "'d \<Rightarrow> 'd shutdown" where
  "shutdown_new tx = \<lparr>sh_phase = Watching, sh_interrupt = False, sh_terminate = False,
     sh_tx = tx, sh_delivered = 0\<rparr>"

text \<open>
  \<open>sigint_or_sigterm\<close>: the registration of each signal may fail (\<open>RegisterError\<close>);
  \<open>tx\<close> is the sending end of a new drain channel.
\<close>

datatype signal_kind = SigInt | SigTerm

definition sigint_or_sigterm :: "(signal_kind \<Rightarrow> 'e + unit) \<Rightarrow> 'd \<Rightarrow> 'e + 'd shutdown" where
  "sigint_or_sigterm register tx =
     (case register SigInt of
        Inl e \<Rightarrow> Inl e
      | Inr _ \<Rightarrow> (case register SigTerm of Inl e \<Rightarrow> Inl e | Inr _ \<Rightarrow> Inr (shutdown_new tx)))"

lemma sigint_or_sigterm_ok: "sigint_or_sigterm register tx = Inr s \<Longrightarrow> s = shutdown_new tx"
  by (auto simp: sigint_or_sigterm_def split: sum.splits)

text \<open>
  The task's own steps: each \<open>select!\<close> takes any branch that is ready. Starting the drain
  (\<open>tx.drain()\<close>) signals the watches.
\<close>

inductive signaled :: "'d drain_api \<Rightarrow> 'd shutdown \<Rightarrow> 'd shutdown \<Rightarrow> bool" for D where
  interrupt: "sh_phase s = Watching \<Longrightarrow> sh_interrupt s \<Longrightarrow>
    signaled D s (s\<lparr>sh_phase := Draining, sh_interrupt := False, sh_tx := dr_signal D (sh_tx s)\<rparr>)"
| terminate: "sh_phase s = Watching \<Longrightarrow> sh_terminate s \<Longrightarrow>
    signaled D s (s\<lparr>sh_phase := Draining, sh_terminate := False, sh_tx := dr_signal D (sh_tx s)\<rparr>)"
| closed: "sh_phase s = Watching \<Longrightarrow> dr_closed D (sh_tx s) \<Longrightarrow>
    signaled D s (s\<lparr>sh_phase := Completed (Inr ())\<rparr>)"
| drained: "sh_phase s = Draining \<Longrightarrow> dr_drained D (sh_tx s) \<Longrightarrow>
    signaled D s (s\<lparr>sh_phase := Completed (Inr ())\<rparr>)"
| interrupt_again: "sh_phase s = Draining \<Longrightarrow> sh_interrupt s \<Longrightarrow>
    signaled D s (s\<lparr>sh_phase := Completed (Inl Aborted), sh_interrupt := False\<rparr>)"
| terminate_again: "sh_phase s = Draining \<Longrightarrow> sh_terminate s \<Longrightarrow>
    signaled D s (s\<lparr>sh_phase := Completed (Inl Aborted), sh_terminate := False\<rparr>)"

text \<open>Steps of the environment: signals arrive, watches are cloned and dropped.\<close>

inductive shutdown_env :: "'d drain_api \<Rightarrow> 'd shutdown \<Rightarrow> 'd shutdown \<Rightarrow> bool" for D where
  sigint: "shutdown_env D s (s\<lparr>sh_interrupt := True, sh_delivered := Suc (sh_delivered s)\<rparr>)"
| sigterm: "shutdown_env D s (s\<lparr>sh_terminate := True, sh_delivered := Suc (sh_delivered s)\<rparr>)"
| watches: "dr_signaled D tx = dr_signaled D (sh_tx s) \<Longrightarrow> shutdown_env D s (s\<lparr>sh_tx := tx\<rparr>)"

definition shutdown_step :: "'d drain_api \<Rightarrow> 'd shutdown \<Rightarrow> 'd shutdown \<Rightarrow> bool" where
  "shutdown_step D s t \<longleftrightarrow> signaled D s t \<or> shutdown_env D s t"

subsection \<open>CancelOnShutdown\<close>

text \<open>
  The boxed future that awaits the shutdown signal; polling it again after it completed panics
  (\<open>None\<close>), as any async block does.
\<close>

datatype 'f async_block = Running 'f | Finished

fun async_poll :: "('f, unit) poll_fn \<Rightarrow> instant \<Rightarrow> 'f async_block \<Rightarrow> (unit poll \<times> 'f async_block) option" where
  "async_poll watch now (Running f) =
     Some (case watch now f of (Pending, f) \<Rightarrow> (Pending, Running f) | (Ready u, f) \<Rightarrow> (Ready u, Finished))"
| "async_poll watch now Finished = None"

record ('s, 'f) cancel_on_shutdown =
  cos_inner :: "'s"
  cos_shutdown :: "'f async_block"

definition cos_new :: "'f \<Rightarrow> 's \<Rightarrow> ('s, 'f) cancel_on_shutdown" where
  "cos_new watch inner = \<lparr>cos_inner = inner, cos_shutdown = Running watch\<rparr>"

definition cos_poll ::
  "('s, unit) poll_fn \<Rightarrow> ('f, unit) poll_fn \<Rightarrow> instant \<Rightarrow> ('s, 'f) cancel_on_shutdown \<Rightarrow>
   (unit poll \<times> ('s, 'f) cancel_on_shutdown) option" where
  "cos_poll inner watch now st =
     (case inner now (cos_inner st) of
        (Ready u, s) \<Rightarrow> Some (Ready (), st\<lparr>cos_inner := s\<rparr>)
      | (Pending, s) \<Rightarrow> do { (p, f) \<leftarrow> async_poll watch now (cos_shutdown st);
                           Some (p, st\<lparr>cos_inner := s, cos_shutdown := f\<rparr>) })"

definition cos_poll_next ::
  "('s, 'a option) poll_fn \<Rightarrow> ('f, unit) poll_fn \<Rightarrow> instant \<Rightarrow> ('s, 'f) cancel_on_shutdown \<Rightarrow>
   ('a option poll \<times> ('s, 'f) cancel_on_shutdown) option" where
  "cos_poll_next inner watch now st =
     (case inner now (cos_inner st) of
        (Ready nxt, s) \<Rightarrow> Some (Ready nxt, st\<lparr>cos_inner := s\<rparr>)
      | (Pending, s) \<Rightarrow> do { (p, f) \<leftarrow> async_poll watch now (cos_shutdown st);
                           Some (if is_ready p then Ready None else Pending,
                                 st\<lparr>cos_inner := s, cos_shutdown := f\<rparr>) })"

text \<open>A stream polled at a sequence of instants, up to its end.\<close>

fun cos_drive ::
  "('s, 'a option) poll_fn \<Rightarrow> ('f, unit) poll_fn \<Rightarrow> instant list \<Rightarrow> ('s, 'f) cancel_on_shutdown \<Rightarrow>
   ('a option poll list \<times> ('s, 'f) cancel_on_shutdown) option" where
  "cos_drive inner watch [] st = Some ([], st)"
| "cos_drive inner watch (now # nows) st =
     do { (out, st) \<leftarrow> cos_poll_next inner watch now st;
          if out = Ready None then Some ([out], st)
          else do { (outs, st) \<leftarrow> cos_drive inner watch nows st; Some (out # outs, st) } }"

subsection \<open>The drain channel's contract\<close>

text \<open>
  The channel knows how many watches are alive. It is closed, and a drain completes, exactly when
  none is; the signal reaches the watches and does not change their number.
\<close>

locale drain_channel =
  fixes D :: "'d drain_api"
    and alive :: "'d \<Rightarrow> nat"
  assumes closed_iff: "dr_closed D d \<longleftrightarrow> alive d = 0"
    and drained_iff: "dr_drained D d \<longleftrightarrow> alive d = 0"
    and alive_signal: "alive (dr_signal D d) = alive d"
    and signaled_signal: "dr_signaled D (dr_signal D d)"

definition counting_drain :: "(nat \<times> bool) drain_api" where
  "counting_drain = \<lparr>dr_signal = (\<lambda>d. (fst d, True)), dr_signaled = snd,
     dr_closed = (\<lambda>d. fst d = 0), dr_drained = (\<lambda>d. fst d = 0)\<rparr>"

interpretation counting_drain: drain_channel counting_drain fst
  by unfold_locales (auto simp: counting_drain_def)

text \<open>
  What holds in every reachable state: the signals received so far have been delivered, and the
  watches are signaled once the drain has started and not before.
\<close>

fun sh_received :: "shutdown_phase \<Rightarrow> nat" where
  "sh_received Watching = 0"
| "sh_received Draining = 1"
| "sh_received (Completed (Inl _)) = 2"
| "sh_received (Completed (Inr _)) = 0"

definition shutdown_inv :: "'d drain_api \<Rightarrow> 'd shutdown \<Rightarrow> bool" where
  "shutdown_inv D s \<longleftrightarrow>
     sh_received (sh_phase s) + of_bool (sh_interrupt s) + of_bool (sh_terminate s) \<le> sh_delivered s \<and>
     (dr_signaled D (sh_tx s) \<longrightarrow> sh_phase s \<noteq> Watching \<and> 0 < sh_delivered s) \<and>
     (sh_phase s = Draining \<or> sh_phase s = Completed (Inl Aborted) \<longrightarrow> dr_signaled D (sh_tx s))"

context drain_channel
begin

lemma signaled_inv: "signaled D s t \<Longrightarrow> shutdown_inv D s \<Longrightarrow> shutdown_inv D t"
  by (induction rule: signaled.induct)
    (auto simp: shutdown_inv_def signaled_signal split: if_splits)

lemma env_inv: "shutdown_env D s t \<Longrightarrow> shutdown_inv D s \<Longrightarrow> shutdown_inv D t"
  by (induction rule: shutdown_env.induct) (auto simp: shutdown_inv_def)

lemma shutdown_reachable_inv:
  assumes "(shutdown_step D)\<^sup>*\<^sup>* (shutdown_new tx) s" and "\<not> dr_signaled D tx"
  shows "shutdown_inv D s"
  using assms(1)
proof (induction rule: rtranclp_induct)
  case base
  then show ?case using assms(2) by (simp add: shutdown_inv_def shutdown_new_def)
next
  case (step s t)
  then show ?case using signaled_inv env_inv by (auto simp: shutdown_step_def)
qed

lemma completes_ok: "signaled D s t \<Longrightarrow> sh_phase t = Completed (Inr ()) \<Longrightarrow> alive (sh_tx t) = 0"
  by (induction rule: signaled.induct) (auto simp: closed_iff drained_iff)

end

subsection \<open>Properties\<close>

text \<open>
  C12. Graceful shutdown, over every interleaving of the task with arriving signals and with
  watches being cloned and dropped: the watches are told to shut down only after a signal was
  delivered; the task completes successfully only in a state where no watch is alive; it is
  aborted only if at least two signals were delivered.
\<close>
theorem shutdown_is_graceful:
  assumes "drain_channel D alive" and "\<not> dr_signaled D tx"
    and "sigint_or_sigterm register tx = Inr s0" and "(shutdown_step D)\<^sup>*\<^sup>* s0 s"
  shows "(dr_signaled D (sh_tx s) \<longrightarrow> 1 \<le> sh_delivered s) \<and>
    (sh_phase s = Completed (Inl Aborted) \<longrightarrow> 2 \<le> sh_delivered s) \<and>
    (\<forall>t. signaled D s t \<and> sh_phase t = Completed (Inr ()) \<longrightarrow> alive (sh_tx t) = 0)"
proof -
  have "shutdown_inv D s"
    using drain_channel.shutdown_reachable_inv[OF assms(1) _ assms(2)] sigint_or_sigterm_ok[OF assms(3)] assms(4)
    by simp
  then show ?thesis
    using drain_channel.completes_ok[OF assms(1)] by (auto simp: shutdown_inv_def)
qed

lemma drained_after_sigint:
  "(shutdown_step counting_drain)\<^sup>*\<^sup>* (shutdown_new (0, False))
     \<lparr>sh_phase = Draining, sh_interrupt = False, sh_terminate = False, sh_tx = (0, True), sh_delivered = 1\<rparr>"
proof -
  let ?s0 = "shutdown_new (0 :: nat, False)"
  let ?s1 = "?s0\<lparr>sh_interrupt := True, sh_delivered := Suc (sh_delivered ?s0)\<rparr>"
  have "shutdown_step counting_drain ?s0 ?s1"
    by (simp add: shutdown_step_def shutdown_env.sigint)
  moreover have "shutdown_step counting_drain ?s1
      (?s1\<lparr>sh_phase := Draining, sh_interrupt := False, sh_tx := dr_signal counting_drain (sh_tx ?s1)\<rparr>)"
    unfolding shutdown_step_def by (rule disjI1, rule signaled.interrupt) (simp_all add: shutdown_new_def)
  ultimately show ?thesis
    by (auto simp: shutdown_new_def counting_drain_def intro: converse_rtranclp_into_rtranclp)
qed

theorem shutdown_is_graceful_witness:
  "\<exists>t. signaled counting_drain
      \<lparr>sh_phase = Draining, sh_interrupt = False, sh_terminate = False, sh_tx = (0, True), sh_delivered = 1\<rparr> t \<and>
      sh_phase t = Completed (Inr ()) \<and> fst (sh_tx t) = (0 :: nat)"
proof -
  let ?s = "\<lparr>sh_phase = Draining, sh_interrupt = False, sh_terminate = False, sh_tx = (0 :: nat, True), sh_delivered = 1\<rparr>"
  have "signaled counting_drain ?s (?s\<lparr>sh_phase := Completed (Inr ())\<rparr>)"
    by (rule signaled.drained) (simp_all add: counting_drain_def)
  moreover have "\<forall>t. signaled counting_drain ?s t \<and> sh_phase t = Completed (Inr ()) \<longrightarrow> fst (sh_tx t) = 0"
    using shutdown_is_graceful[OF counting_drain.drain_channel_axioms _ _ drained_after_sigint,
        where register = "\<lambda>_. Inr ()" and tx = "(0, False)"]
    by (simp add: counting_drain_def sigint_or_sigterm_def)
  ultimately show ?thesis by (auto intro!: exI[of _ "?s\<lparr>sh_phase := Completed (Inr ())\<rparr>"])
qed

text \<open>
  The shutdown task is never stuck: before it has completed, it can take a step exactly when
  a signal is waiting or no watch is left, and a completed task takes no further step.
\<close>
theorem shutdown_progress:
  assumes "drain_channel D alive"
  shows "(\<exists>t. signaled D s t) \<longleftrightarrow>
    (\<forall>r. sh_phase s \<noteq> Completed r) \<and> (sh_interrupt s \<or> sh_terminate s \<or> alive (sh_tx s) = 0)"
proof
  assume "\<exists>t. signaled D s t"
  then show "(\<forall>r. sh_phase s \<noteq> Completed r) \<and> (sh_interrupt s \<or> sh_terminate s \<or> alive (sh_tx s) = 0)"
    by (auto elim!: signaled.cases
        simp: drain_channel.closed_iff[OF assms] drain_channel.drained_iff[OF assms])
next
  assume "(\<forall>r. sh_phase s \<noteq> Completed r) \<and> (sh_interrupt s \<or> sh_terminate s \<or> alive (sh_tx s) = 0)"
  then show "\<exists>t. signaled D s t"
    using drain_channel.closed_iff[OF assms, of "sh_tx s"] drain_channel.drained_iff[OF assms, of "sh_tx s"]
    by (cases "sh_phase s") (blast intro: signaled.intros)+
qed

theorem shutdown_progress_witness:
  "\<exists>t. signaled counting_drain
      \<lparr>sh_phase = Watching, sh_interrupt = False, sh_terminate = True, sh_tx = (2, False), sh_delivered = 1\<rparr> t"
  using shutdown_progress[OF counting_drain.drain_channel_axioms,
      of "\<lparr>sh_phase = Watching, sh_interrupt = False, sh_terminate = True, sh_tx = (2, False), sh_delivered = 1\<rparr>"]
  by simp

lemma cos_poll_next_cases:
  assumes "cos_shutdown st = Running f"
  obtains (inner) nxt s where "inner now (cos_inner st) = (Ready nxt, s)"
      "cos_poll_next inner watch now st = Some (Ready nxt, st\<lparr>cos_inner := s\<rparr>)"
  | (waiting) s f' where "inner now (cos_inner st) = (Pending, s)"
      "cos_poll_next inner watch now st = Some (Pending, st\<lparr>cos_inner := s, cos_shutdown := Running f'\<rparr>)"
  | (cancelled) s where "inner now (cos_inner st) = (Pending, s)"
      "cos_poll_next inner watch now st = Some (Ready None, st\<lparr>cos_inner := s, cos_shutdown := Finished\<rparr>)"
      "is_ready (fst (watch now f))"
proof -
  obtain p s q f' where "inner now (cos_inner st) = (p, s)" "watch now f = (q, f')" by fastforce
  with assms that show thesis
    by (cases p; cases q) (simp_all add: cos_poll_next_def)
qed

lemma cos_drive_drains:
  assumes "cos_shutdown st = Running f"
  shows "\<exists>outs st' new. cos_drive (logged inner) watch nows st = Some (outs, st') \<and>
    fst (cos_inner st') = fst (cos_inner st) @ new \<and> items outs = items new \<and>
    (Ready None \<in> set outs \<longrightarrow> new \<noteq> [] \<and>
       (last new = Ready None \<or> last new = Pending \<and> cos_shutdown st' = Finished))"
  using assms
proof (induction nows arbitrary: st f)
  case (Cons now nows)
  obtain p s where ps: "inner now (snd (cos_inner st)) = (p, s)" by fastforce
  then have l: "logged inner now (cos_inner st) = (p, (fst (cos_inner st) @ [p], s))"
    by (simp add: logged_def)
  from Cons.prems show ?case
  proof (cases rule: cos_poll_next_cases[where inner = "logged inner" and watch = watch and now = now])
    case (inner nxt s')
    show ?thesis
    proof (cases nxt)
      case None
      with inner l show ?thesis by (auto intro!: exI[of _ "[Ready None]"])
    next
      case (Some a)
      obtain outs st' new where "cos_drive (logged inner) watch nows (st\<lparr>cos_inner := s'\<rparr>) = Some (outs, st')"
        "fst (cos_inner st') = fst s' @ new" "items outs = items new"
        "Ready None \<in> set outs \<longrightarrow> new \<noteq> [] \<and>
           (last new = Ready None \<or> last new = Pending \<and> cos_shutdown st' = Finished)"
        using Cons.IH[of "st\<lparr>cos_inner := s'\<rparr>" f] Cons.prems by auto
      with inner l Some show ?thesis
        by (auto intro!: exI[of _ "Ready (Some a) # outs"] exI[of _ st'] exI[of _ "Ready (Some a) # new"])
    qed
  next
    case (waiting s' f')
    obtain outs st' new where "cos_drive (logged inner) watch nows
        (st\<lparr>cos_inner := s', cos_shutdown := Running f'\<rparr>) = Some (outs, st')"
      "fst (cos_inner st') = fst s' @ new" "items outs = items new"
      "Ready None \<in> set outs \<longrightarrow> new \<noteq> [] \<and>
         (last new = Ready None \<or> last new = Pending \<and> cos_shutdown st' = Finished)"
      using Cons.IH[of "st\<lparr>cos_inner := s', cos_shutdown := Running f'\<rparr>" f'] by auto
    with waiting l show ?thesis
      by (auto intro!: exI[of _ "Pending # outs"] exI[of _ st'] exI[of _ "Pending # new"])
  next
    case (cancelled s')
    with l show ?thesis by (auto intro!: exI[of _ "[Pending]"])
  qed
qed simp

text \<open>
  C14. A stream wrapped in \<open>CancelOnShutdown\<close> and polled until it ends never panics and
  loses nothing: it yields exactly the items the inner stream yielded, and it ends only when the
  inner stream ended or was pending at a poll at which shutdown was signaled. Items that are ready
  are delivered even after the signal.
\<close>
theorem cancel_on_shutdown_drains:
  "\<exists>outs st' log. cos_drive (logged inner) watch nows (cos_new f ([], s)) = Some (outs, st') \<and>
     fst (cos_inner st') = log \<and> items outs = items log \<and>
     (Ready None \<in> set outs \<longrightarrow> log \<noteq> [] \<and>
        (last log = Ready None \<or> last log = Pending \<and> cos_shutdown st' = Finished))"
  using cos_drive_drains[of "cos_new f ([], s)" f inner watch nows] by (auto simp: cos_new_def)

text \<open>The test \<open>cancel_stream_drains\<close>: two items are ready when shutdown is signaled at instant 2.\<close>

theorem cancel_on_shutdown_drains_witness:
  "let inner = (\<lambda>now xs. case xs of [] \<Rightarrow> (Pending, []) | x # xs \<Rightarrow> (Ready (Some x), xs));
       watch = (\<lambda>now u. (if 2 \<le> now then Ready () else Pending, u))
   in \<exists>outs st' log. cos_drive (logged inner) watch [1, 2, 3] (cos_new () ([], [''1'', ''2''])) = Some (outs, st') \<and>
     fst (cos_inner st') = log \<and> items outs = items log \<and> log \<noteq> [] \<and>
     (last log = Ready None \<or> last log = Pending \<and> cos_shutdown st' = Finished)"
  using cancel_on_shutdown_drains[of "\<lambda>now xs. case xs of [] \<Rightarrow> (Pending, []) | x # xs \<Rightarrow> (Ready (Some x), xs)"
      "\<lambda>now u. (if 2 \<le> now then Ready () else Pending, u)" "[1, 2, 3]" "()" "[''1'', ''2'']"]
  by (auto simp: cos_new_def cos_poll_next_def logged_def)

end
