(* ===== verification/Example_Watch_Pods.thy ===== *)
theory Example_Watch_Pods
  imports Index Shutdown "HOL-Library.Product_Lexorder"
begin

text \<open>
  \<open>examples/watch_pods.rs\<close>: the command that watches pods and keeps metrics about them, and its
  parser of durations (\<open>examples/lease.rs\<close> has the same). The assembly of the runtime
  is in \<open>Example_Programs\<close>; argument parsing by \<open>clap\<close> and logging are left out.
\<close>

subsection \<open>Timeout::from_str\<close>

text \<open>
  The regular expression \<open>^\s*(\d+)(ms|s|m)?\s*$\<close> on ASCII strings: white space, digits, a unit, white
  space. The captures are the digits and the unit, empty if there is none.
\<close>

definition re_space :: "char \<Rightarrow> bool" where
  "re_space c \<longleftrightarrow> of_char c \<in> {9, 10, 11, 12, 13, 32 :: nat}"

definition re_digit :: "char \<Rightarrow> bool" where
  "re_digit c \<longleftrightarrow> 48 \<le> (of_char c :: nat) \<and> (of_char c :: nat) \<le> 57"

definition timeout_captures :: "string \<Rightarrow> (string \<times> string) option" where
  "timeout_captures s =
     (let s = dropWhile re_space s; digits = takeWhile re_digit s; s = dropWhile re_digit s;
          unit = takeWhile (\<lambda>c. \<not> re_space c) s; s = dropWhile (\<lambda>c. \<not> re_space c) s
      in if digits \<noteq> [] \<and> unit \<in> {'''', ''ms'', ''s'', ''m''} \<and> list_all re_space s then Some (digits, unit) else None)"

definition digits_value :: "string \<Rightarrow> nat" where
  "digits_value ds = fold (\<lambda>c n. 10 * n + (of_char c - 48)) ds 0"

text \<open>\<open>str::parse::<u64>\<close> on a string of digits.\<close>

definition parse_u64 :: "string \<Rightarrow> 64 word option" where
  "parse_u64 ds = (let n = digits_value ds in if n < 2 ^ 64 then Some (word_of_nat n) else None)"

datatype invalid_timeout = InvalidTimeout

text \<open>
  A duration in milliseconds. The outer \<open>None\<close> is the overflow of \<open>magnitude * 60\<close> in a build with
  overflow checks.
\<close>

definition timeout_from_str :: "bool \<Rightarrow> string \<Rightarrow> (invalid_timeout + nat) option" where
  "timeout_from_str oc s =
     (case timeout_captures s of
        None \<Rightarrow> Some (Inl InvalidTimeout)
      | Some (digits, unit) \<Rightarrow>
     (case parse_u64 digits of
        None \<Rightarrow> Some (Inl InvalidTimeout)
      | Some magnitude \<Rightarrow>
          if unit = '''' \<and> magnitude = 0 then Some (Inr 0)
          else if unit = ''ms'' then Some (Inr (unat magnitude))
          else if unit = ''s'' then Some (Inr (unat magnitude * 1000))
          else if unit = ''m'' then map_option (\<lambda>secs. Inr (unat secs * 1000)) (rust_mul oc magnitude 60)
          else Some (Inl InvalidTimeout)))"

subsection \<open>The watch\<close>

record pods_metrics =
  pm_events_restart :: "64 word"
  pm_events_apply :: "64 word"
  pm_events_delete :: "64 word"
  pm_current_pods :: "64 word"
  pm_total_pods :: "64 word"

definition pods_register :: pods_metrics where
  "pods_register = \<lparr>pm_events_restart = 0, pm_events_apply = 0, pm_events_delete = 0, pm_current_pods = 0, pm_total_pods = 0\<rparr>"

record pods_state =
  ps_known :: "(string \<times> string) set"
  ps_prior :: "(string \<times> string) set"
  ps_metrics :: pods_metrics

definition pods_new :: "pods_metrics \<Rightarrow> pods_state" where
  "pods_new m = \<lparr>ps_known = {}, ps_prior = {}, ps_metrics = m\<rparr>"

definition pod_added :: "pods_metrics \<Rightarrow> pods_metrics" where
  "pod_added m = m\<lparr>pm_current_pods := pm_current_pods m + 1, pm_total_pods := pm_total_pods m + 1\<rparr>"

definition pod_gone :: "pods_metrics \<Rightarrow> pods_metrics" where
  "pod_gone m = m\<lparr>pm_current_pods := pm_current_pods m - 1\<rparr>"

text \<open>
  One event; \<open>None\<close> is the panic of \<open>unwrap\<close> or \<open>name_unchecked\<close> on a pod without a namespace or
  name (\<open>res_key\<close>). \<open>it\<close> enumerates a hash set.
\<close>

fun pods_event ::
  "((string \<times> string) set \<Rightarrow> (string \<times> string) list) \<Rightarrow> 'r resource_ext \<Rightarrow> 'r event \<Rightarrow> pods_state \<Rightarrow> pods_state option" where
  "pods_event it ext Init st = Some (st\<lparr>ps_prior := ps_known st, ps_known := {}\<rparr>)"
| "pods_event it ext (InitApply r) st =
     (let m = (ps_metrics st)\<lparr>pm_events_restart := pm_events_restart (ps_metrics st) + 1\<rparr>
      in map_option (\<lambda>k. \<lparr>ps_known = insert k (ps_known st), ps_prior = ps_prior st - {k},
                       ps_metrics = (if k \<in> ps_prior st then m else pod_added m)\<rparr>)
           (res_key ext r))"
| "pods_event it ext InitDone st =
     Some (st\<lparr>ps_prior := {}, ps_metrics := fold (\<lambda>_. pod_gone) (it (ps_prior st)) (ps_metrics st)\<rparr>)"
| "pods_event it ext (Apply r) st =
     (let m = (ps_metrics st)\<lparr>pm_events_apply := pm_events_apply (ps_metrics st) + 1\<rparr>
      in map_option (\<lambda>k. (st\<lparr>ps_known := insert k (ps_known st),
                          ps_metrics := (if k \<in> ps_known st then m else pod_added m)\<rparr>))
           (res_key ext r))"
| "pods_event it ext (Delete r) st =
     (let m = (ps_metrics st)\<lparr>pm_events_delete := pm_events_delete (ps_metrics st) + 1\<rparr>
      in map_option (\<lambda>k. (st\<lparr>ps_known := ps_known st - {k},
                          ps_metrics := (if k \<in> ps_known st then pod_gone m else m)\<rparr>))
           (res_key ext r))"

text \<open>
  \<open>init_timeout\<close> on a future that completes at an instant: with a deadline it fails if the deadline
  passes first.
\<close>

datatype elapsed = Elapsed

definition init_timeout :: "instant option \<Rightarrow> instant \<Rightarrow> 'a \<Rightarrow> elapsed + 'a" where
  "init_timeout deadline at out =
     (case deadline of Some d \<Rightarrow> if d < at then Inl Elapsed else Inr out | None \<Rightarrow> Inr out)"

text \<open>
  The spawned task: the events of the stream with the instants they arrive at, and the instant the
  stream ends. The deadline is taken by the first wait. With \<open>--exit\<close> the task ends after one event.
\<close>

fun pods_task ::
  "((string \<times> string) set \<Rightarrow> (string \<times> string) list) \<Rightarrow> 'r resource_ext \<Rightarrow> bool \<Rightarrow> instant option \<Rightarrow>
   (instant \<times> 'r event) list \<Rightarrow> instant \<Rightarrow> pods_state \<Rightarrow> (elapsed + pods_state) option" where
  "pods_task it ext exit deadline [] end_at st = Some (init_timeout deadline end_at st)"
| "pods_task it ext exit deadline ((at, ev) # evs) end_at st =
     (case init_timeout deadline at ev of
        Inl e \<Rightarrow> Some (Inl e)
      | Inr ev \<Rightarrow> do {
          st \<leftarrow> pods_event it ext ev st;
          if exit then Some (Inr st) else pods_task it ext exit None evs end_at st })"

text \<open>The end of \<open>main\<close>: whichever of the runtime and the task ends first.\<close>

datatype main_branch = RunEnded "aborted + unit" | TaskEnded "string + (elapsed + unit)"

definition watch_pods_main :: "main_branch \<Rightarrow> string + unit" where
  "watch_pods_main b =
     (case b of
        RunEnded (Inl _) \<Rightarrow> Inl ''aborted''
      | RunEnded (Inr _) \<Rightarrow> Inr ()
      | TaskEnded (Inl error) \<Rightarrow> Inl (''spawned task failed: '' @ error)
      | TaskEnded (Inr (Inl _)) \<Rightarrow> Inl ''Timed out waiting for the first update''
      | TaskEnded (Inr (Inr _)) \<Rightarrow> Inr ())"

subsection \<open>Properties\<close>

text \<open>The decimal digits of a number.\<close>

fun show_nat :: "nat \<Rightarrow> string" where
  "show_nat n = (if n < 10 then [char_of (48 + n)] else show_nat (n div 10) @ [char_of (48 + n mod 10)])"

declare show_nat.simps [simp del]

lemma of_char_digit: "d < 10 \<Longrightarrow> of_char (char_of (48 + d)) = (48 + d :: nat)"
  by simp

lemma digits_value_snoc: "digits_value (ds @ [c]) = 10 * digits_value ds + (of_char c - 48)"
  by (simp add: digits_value_def)

lemma show_nat_props: "digits_value (show_nat n) = n \<and> list_all re_digit (show_nat n) \<and> show_nat n \<noteq> []"
proof (induction n rule: show_nat.induct)
  case (1 n)
  show ?case
  proof (cases "n < 10")
    case True
    then show ?thesis using of_char_digit[OF True]
      by (simp add: show_nat.simps[of n] digits_value_def re_digit_def del: of_char_of)
  next
    case False
    with 1 have IH: "digits_value (show_nat (n div 10)) = n div 10" "list_all re_digit (show_nat (n div 10))" by auto
    have d: "of_char (char_of (48 + n mod 10)) = (48 + n mod 10 :: nat)" by (rule of_char_digit) simp
    have "n mod 10 < 10" by simp
    then have "re_digit (char_of (48 + n mod 10))" unfolding re_digit_def d by linarith
    with False IH show ?thesis
      by (simp add: show_nat.simps[of n] digits_value_snoc d del: of_char_of)
  qed
qed

lemma digit_not_space: "re_digit c \<Longrightarrow> \<not> re_space c"
  by (auto simp: re_digit_def re_space_def)

lemma takeWhile_block:
  "list_all P xs \<Longrightarrow> ys = [] \<or> \<not> P (hd ys) \<Longrightarrow> takeWhile P (xs @ ys) = xs \<and> dropWhile P (xs @ ys) = ys"
  by (induction xs) (cases ys; auto)+

lemma timeout_captures_print:
  assumes "list_all re_space ws1" and "list_all re_space ws2" and "list_all re_digit ds" and "ds \<noteq> []"
    and "u \<in> {'''', ''ms'', ''s'', ''m''}"
  shows "timeout_captures (ws1 @ ds @ u @ ws2) = Some (ds, u)"
proof -
  have u: "list_all (\<lambda>c. \<not> re_space c) u" "u @ ws2 = [] \<or> \<not> re_digit (hd (u @ ws2))"
    using assms(2,5) digit_not_space by (cases ws2; auto simp: re_space_def re_digit_def)+
  have "dropWhile re_space (ws1 @ ds @ u @ ws2) = ds @ u @ ws2"
    using takeWhile_block[of re_space ws1 "ds @ u @ ws2"] assms(1,3,4) digit_not_space by (cases ds) auto
  moreover have "takeWhile re_digit (ds @ u @ ws2) = ds \<and> dropWhile re_digit (ds @ u @ ws2) = u @ ws2"
    using takeWhile_block[OF assms(3) u(2)] .
  moreover have "takeWhile (\<lambda>c. \<not> re_space c) (u @ ws2) = u \<and> dropWhile (\<lambda>c. \<not> re_space c) (u @ ws2) = ws2"
    using takeWhile_block[OF u(1), of ws2] assms(2) by (cases ws2) auto
  ultimately show ?thesis using assms(2,4,5) by (simp add: timeout_captures_def Let_def)
qed

lemma parse_u64_show:
  "parse_u64 (show_nat n) = (if n < 2 ^ 64 then Some (word_of_nat n) else None)"
  using show_nat_props[of n] by (simp add: parse_u64_def Let_def)

lemma unat_u64: "n < 2 ^ 64 \<Longrightarrow> unat (word_of_nat n :: 64 word) = n"
  by (simp add: unat_of_nat take_bit_nat_eq_self)

text \<open>
  C39. A printed duration is read back: a number of up to 64 bits with a unit, and any white space around
  it, gives that many milliseconds, seconds or minutes, as long as the minutes in seconds fit 64 bits too.
  A larger number is rejected, and so is a number other than zero without a unit.
\<close>
theorem timeout_roundtrip:
  assumes "list_all re_space ws1" and "list_all re_space ws2"
  shows "(n < 2 ^ 64 \<longrightarrow>
      timeout_from_str oc (ws1 @ show_nat n @ ''ms'' @ ws2) = Some (Inr n) \<and>
      timeout_from_str oc (ws1 @ show_nat n @ ''s'' @ ws2) = Some (Inr (n * 1000)) \<and>
      timeout_from_str oc (ws1 @ show_nat n @ ws2) = Some (if n = 0 then Inr 0 else Inl InvalidTimeout)) \<and>
    (n * 60 < 2 ^ 64 \<longrightarrow> timeout_from_str oc (ws1 @ show_nat n @ ''m'' @ ws2) = Some (Inr (n * 60000))) \<and>
    (2 ^ 64 \<le> n \<and> u \<in> {'''', ''ms'', ''s'', ''m''} \<longrightarrow>
      timeout_from_str oc (ws1 @ show_nat n @ u @ ws2) = Some (Inl InvalidTimeout))"
proof -
  have cap: "timeout_captures (ws1 @ show_nat n @ u @ ws2) = Some (show_nat n, u)"
    if "u \<in> {'''', ''ms'', ''s'', ''m''}" for u
    using timeout_captures_print[OF assms] show_nat_props that by blast
  have zero: "(word_of_nat n :: 64 word) = 0 \<longleftrightarrow> n = 0" if "n < 2 ^ 64"
    unfolding unat_eq_zero[symmetric] unat_u64[OF that] ..
  have mul: "rust_mul oc (word_of_nat n :: 64 word) 60 = Some (word_of_nat n * 60) \<and>
      unat ((word_of_nat n :: 64 word) * 60) = n * 60" if "n * 60 < 2 ^ 64"
    using rust_mul_exact[of "word_of_nat n :: 64 word" 60 oc] unat_u64[of n] that by simp
  show ?thesis
  proof (intro conjI impI)
    assume n: "n < 2 ^ 64"
    show "timeout_from_str oc (ws1 @ show_nat n @ ''ms'' @ ws2) = Some (Inr n)"
      using n cap[of "''ms''"] by (simp add: timeout_from_str_def parse_u64_show unat_u64)
    show "timeout_from_str oc (ws1 @ show_nat n @ ''s'' @ ws2) = Some (Inr (n * 1000))"
      using n cap[of "''s''"] by (simp add: timeout_from_str_def parse_u64_show unat_u64)
    show "timeout_from_str oc (ws1 @ show_nat n @ ws2) = Some (if n = 0 then Inr 0 else Inl InvalidTimeout)"
      using n cap[of "''''"] zero[OF n] by (simp add: timeout_from_str_def parse_u64_show)
  next
    assume "n * 60 < 2 ^ 64"
    then show "timeout_from_str oc (ws1 @ show_nat n @ ''m'' @ ws2) = Some (Inr (n * 60000))"
      using cap[of "''m''"] mul by (simp add: timeout_from_str_def parse_u64_show)
  next
    assume "2 ^ 64 \<le> n \<and> u \<in> {'''', ''ms'', ''s'', ''m''}"
    then show "timeout_from_str oc (ws1 @ show_nat n @ u @ ws2) = Some (Inl InvalidTimeout)"
      using cap[of u] by (simp add: timeout_from_str_def parse_u64_show)
  qed
qed

theorem timeout_roundtrip_witness:
  "timeout_from_str True (''  '' @ show_nat 90 @ ''m'' @ '' '') = Some (Inr 5400000) \<and>
   timeout_from_str True ('''' @ show_nat 10 @ ''s'' @ '''') = Some (Inr 10000)"
  using timeout_roundtrip[of "''  ''" "'' ''" 90 True "''''"] timeout_roundtrip[of "''''" "''''" 10 True "''''"]
  by (simp add: re_space_def)

text \<open>
  A watch as the API server sends it: events in the phases of \<open>watch_phase\<close>, and within a listing no
  resource twice. The state is the phase and the live resources.
\<close>

definition listing_step :: "('r \<Rightarrow> 'k option) \<Rightarrow> 'r event \<Rightarrow> bool \<times> 'k set \<Rightarrow> (bool \<times> 'k set) option" where
  "listing_step key e bl =
     (case watch_phase e (fst bl) of
        None \<Rightarrow> None
      | Some b \<Rightarrow>
          if (case e of InitApply r \<Rightarrow> the (key r) \<in> snd bl | _ \<Rightarrow> False) then None else Some (b, live_step key e (snd bl)))"

lemma listing_live: "fold_opt (listing_step key) es bl = Some (b, L) \<Longrightarrow> L = fold (live_step key) es (snd bl)"
  by (induction es arbitrary: bl) (auto simp: listing_step_def panic_simps split: option.splits if_splits)

definition pods_inv :: "bool \<Rightarrow> (string \<times> string) set \<Rightarrow> pods_state \<Rightarrow> bool" where
  "pods_inv b L st \<longleftrightarrow> ps_known st = L \<and> finite L \<and> finite (ps_prior st) \<and> ps_prior st \<inter> L = {} \<and>
     (\<not> b \<longrightarrow> ps_prior st = {}) \<and> pm_current_pods (ps_metrics st) = word_of_nat (card L + card (ps_prior st))"

lemma fold_pod_gone: "pm_current_pods (fold (\<lambda>_. pod_gone) xs m) = pm_current_pods m - word_of_nat (length xs)"
  by (induction xs arbitrary: m) (simp_all add: pod_gone_def algebra_simps)

lemma card_remove_word: "finite S \<Longrightarrow> k \<in> S \<Longrightarrow> (word_of_nat (card S) :: 64 word) = word_of_nat (card (S - {k})) + 1"
  by (metis card_Suc_Diff1 of_nat_Suc add.commute)

lemma pods_event_inv:
  assumes "hash_order it" and "keyed (res_key ext) e" and "pods_inv b L st"
    and "listing_step (res_key ext) e (b, L) = Some (b', L')"
  shows "\<exists>st'. pods_event it ext e st = Some st' \<and> pods_inv b' L' st'"
proof (cases e)
  case (InitApply r)
  then obtain k where k: "res_key ext r = Some k" using assms(2) by auto
  with InitApply assms(4) have *: "b'" "L' = insert k L" "k \<notin> L"
    by (auto simp: listing_step_def split: if_splits)
  show ?thesis
  proof (cases "k \<in> ps_prior st")
    case True
    with assms(3) * k show ?thesis
      by (auto simp: InitApply pods_inv_def Let_def card_remove_word[of "ps_prior st" k])
  next
    case False
    with assms(3) * k show ?thesis
      by (auto simp: InitApply pods_inv_def Let_def pod_added_def)
  qed
next
  case (Apply r)
  then obtain k where k: "res_key ext r = Some k" using assms(2) by auto
  with Apply assms(4) have "\<not> b'" "\<not> b" "L' = insert k L" by (auto simp: listing_step_def split: if_splits)
  with assms(3) k show ?thesis
    by (auto simp: Apply pods_inv_def Let_def pod_added_def insert_absorb)
next
  case (Delete r)
  then obtain k where k: "res_key ext r = Some k" using assms(2) by auto
  with Delete assms(4) have "\<not> b'" "\<not> b" "L' = L - {k}" by (auto simp: listing_step_def split: if_splits)
  with assms(3) k show ?thesis
    by (auto simp: Delete pods_inv_def Let_def pod_gone_def card_remove_word[of L k])
next
  case Init
  with assms(3,4) show ?thesis by (auto simp: pods_inv_def listing_step_def split: if_splits)
next
  case InitDone
  have "length (it (ps_prior st)) = card (ps_prior st)"
    using hash_order.it_length[OF assms(1)] assms(3) by (simp add: pods_inv_def)
  with InitDone assms(3,4) show ?thesis
    by (auto simp: pods_inv_def listing_step_def fold_pod_gone split: if_splits)
qed

lemma pods_task_inv:
  assumes "hash_order it" and "\<forall>e \<in> set (map snd evs). keyed (res_key ext) e" and "pods_inv b L st"
    and "fold_opt (listing_step (res_key ext)) (map snd evs) (b, L) = Some (b', L')"
    and "case deadline of None \<Rightarrow> True | Some d \<Rightarrow> (case evs of [] \<Rightarrow> end_at | (at, _) # _ \<Rightarrow> at) \<le> d"
  shows "\<exists>st'. pods_task it ext False deadline evs end_at st = Some (Inr st') \<and> pods_inv b' L' st'"
  using assms(2-)
proof (induction evs arbitrary: b L st deadline)
  case Nil
  then show ?case by (auto simp: init_timeout_def split: option.splits)
next
  case (Cons te evs)
  obtain at e where te: "te = (at, e)" by fastforce
  from Cons.prems(3) te obtain b1 L1 where 1: "listing_step (res_key ext) e (b, L) = Some (b1, L1)"
    "fold_opt (listing_step (res_key ext)) (map snd evs) (b1, L1) = Some (b', L')"
    by (auto simp: panic_simps)
  then obtain st1 where st1: "pods_event it ext e st = Some st1" "pods_inv b1 L1 st1"
    using pods_event_inv[OF assms(1) _ Cons.prems(2), of ext e b1 L1] Cons.prems(1) te by auto
  from Cons.IH[OF _ st1(2) 1(2), of None] Cons.prems(1,4) te st1(1) show ?case
    by (auto simp: init_timeout_def split: option.splits)
qed

lemma pods_gauge_live:
  assumes "hash_order it" and "\<forall>e \<in> set (map snd evs). keyed (res_key ext) e"
    and "fold_opt (listing_step (res_key ext)) (map snd evs) (False, {}) = Some (False, L)"
    and "evs \<noteq> []" and "fst (hd evs) \<le> deadline"
  shows "\<exists>st. pods_task it ext False (Some deadline) evs end_at (pods_new pods_register) = Some (Inr st) \<and>
    ps_known st = live (res_key ext) (map snd evs) \<and> ps_prior st = {} \<and>
    pm_current_pods (ps_metrics st) = word_of_nat (card (live (res_key ext) (map snd evs)))"
proof -
  have "L = live (res_key ext) (map snd evs)"
    using listing_live[OF assms(3)] by (simp add: live_def)
  moreover have "pods_inv False {} (pods_new pods_register)"
    by (simp add: pods_inv_def pods_new_def pods_register_def)
  moreover have "(case evs of [] \<Rightarrow> end_at | (at, _) # _ \<Rightarrow> at) \<le> deadline"
    using assms(4,5) by (cases evs) auto
  ultimately show ?thesis
    using pods_task_inv[OF assms(1,2) _ assms(3), where deadline = "Some deadline" and end_at = end_at]
    by (fastforce simp: pods_inv_def)
qed

text \<open>
  The example's metrics are right: over a watch that arrives in time and whose last listing is
  complete, the task does not panic, the pods it knows are the live pods of the watch, and the gauge of
  current pods is their number, however many listings were repeated in between.
\<close>
theorem pods_gauge_counts_live:
  assumes "hash_order it" and "\<forall>e \<in> set (map snd evs). keyed (res_key ext) e"
    and "fold_opt (listing_step (res_key ext)) (map snd evs) (False, {}) = Some (False, L)"
    and "evs \<noteq> []" and "fst (hd evs) \<le> deadline"
  shows "\<exists>st. pods_task it ext False (Some deadline) evs end_at (pods_new pods_register) = Some (Inr st) \<and>
    ps_known st = live (res_key ext) (map snd evs) \<and> ps_prior st = {} \<and>
    pm_current_pods (ps_metrics st) = word_of_nat (card (live (res_key ext) (map snd evs)))"
  by (rule pods_gauge_live[OF assms])

interpretation pair_order: hash_order "sorted_list_of_set :: (string \<times> string) set \<Rightarrow> (string \<times> string) list"
  by unfold_locales simp_all

theorem pods_gauge_counts_live_witness:
  "\<exists>st. pods_task sorted_list_of_set pod_ext False (Some 10)
      [(1, Init), (1, InitApply (pod ''a'')), (2, InitApply (pod ''b'')), (2, InitDone), (30, Delete (pod ''a'')),
       (300, Init), (300, InitApply (pod ''c'')), (301, InitDone)] 400 (pods_new pods_register) = Some (Inr st) \<and>
    ps_known st = {pod ''c''} \<and> pm_current_pods (ps_metrics st) = 1"
  using pods_gauge_counts_live[OF pair_order.hash_order_axioms, of "[(1, Init), (1, InitApply (pod ''a'')), (2, InitApply (pod ''b'')),
      (2, InitDone), (30, Delete (pod ''a'')), (300, Init), (300, InitApply (pod ''c'')), (301, InitDone)]" pod_ext "{pod ''c''}" 10 400]
  by (auto simp: live_def listing_step_def)

text \<open>
  A listing that is interrupted and started again makes the gauge drift: the pods known before the
  interruption are neither found again nor counted as gone.
\<close>

lemma pods_gauge_drifts:
  "\<exists>st. pods_task sorted_list_of_set pod_ext False None
      [(1, Init), (1, InitApply (pod ''a'')), (1, InitDone), (2, Init), (3, Init), (3, InitDone)] 4 (pods_new pods_register) =
        Some (Inr st) \<and>
    ps_known st = {} \<and> pm_current_pods (ps_metrics st) = 1"
  by (simp add: init_timeout_def pods_new_def pods_register_def pod_added_def)

end
