(* ===== verification/Example_Lease.thy ===== *)
theory Example_Lease
  imports Lease Example_Watch_Pods
begin

text \<open>
  \<open>examples/lease.rs\<close>: the command that creates, reads, claims, vacates and keeps a lease. The
  creation of a lease and the text of a timestamp are parameters; argument parsing by \<open>clap\<close> is
  left out. The assembly of the runtime is in \<open>Example_Programs\<close>, the command \<open>run\<close> as a process in
  \<open>Example_Lease_Run\<close>. A command yields the lines it prints and its exit code.
\<close>

definition print_claim :: "(timestamp \<Rightarrow> string) \<Rightarrow> timestamp \<Rightarrow> lease_claim \<Rightarrow> string \<Rightarrow> string" where
  "print_claim rfc3339 now claim identity =
     (if \<not> is_current now claim
      then ''! Expired for '' @ claim_holder claim @ '' at '' @ rfc3339 (claim_expiry claim)
      else (if claim_holder claim = identity then ''+'' else ''-'') @ '' Claimed by '' @ claim_holder claim @
        '' until '' @ rfc3339 (claim_expiry claim))"

text \<open>
  \<open>LeaseManager::init\<close> with a field manager (and no diagnostics, so that their type is \<open>unit\<close>), and what a command does with it; \<open>None\<close> in a command's
  result is a panic.
\<close>

type_synonym command_result = "(lease_error + string list \<times> int) option"

definition with_lease ::
  "chrono \<Rightarrow> 'w lease_api \<Rightarrow> string \<Rightarrow> string \<Rightarrow> (unit lease_manager \<Rightarrow> 'w \<Rightarrow> command_result \<times> 'w) \<Rightarrow> 'w \<Rightarrow> command_result \<times> 'w" where
  "with_lease C A name field_manager f w =
     (case lm_init C A name w of
        (None, w) \<Rightarrow> (None, w)
      | (Some (Inl e), w) \<Rightarrow> (Some (Inl e), w)
      | (Some (Inr m), w) \<Rightarrow> f (with_field_manager field_manager m) w)"

definition command_create ::
  "(string \<Rightarrow> string \<Rightarrow> 'w \<Rightarrow> (kube_error + string) \<times> 'w) \<Rightarrow> string \<Rightarrow> string \<Rightarrow> 'w \<Rightarrow> command_result \<times> 'w" where
  "command_create create namespace name w =
     (case create namespace name w of
        (Inl e, w) \<Rightarrow> (Some (Inl (EApi e)), w)
      | (Inr created, w) \<Rightarrow> (Some (Inr ([''Created lease: '' @ created], 0)), w))"

definition command_get ::
  "(timestamp \<Rightarrow> string) \<Rightarrow> chrono \<Rightarrow> 'w lease_api \<Rightarrow> string \<Rightarrow> string \<Rightarrow> string \<Rightarrow> 'w \<Rightarrow> command_result \<times> 'w" where
  "command_get rfc3339 C A field_manager identity name w =
     with_lease C A name field_manager (\<lambda>m w.
       (case lm_claimed m of
          Some claim \<Rightarrow> (case utc_now A w of (now, w) \<Rightarrow> (Some (Inr ([print_claim rfc3339 now claim identity], 0)), w))
        | None \<Rightarrow> (Some (Inr ([''? Unclaimed''], 0)), w))) w"

text \<open>The outer option: \<open>ensure_claimed\<close> may not return.\<close>

definition command_claim ::
  "(timestamp \<Rightarrow> string) \<Rightarrow> bool \<Rightarrow> chrono \<Rightarrow> 'w lease_api \<Rightarrow> string \<Rightarrow> string \<Rightarrow> claim_params \<Rightarrow> string \<Rightarrow> 'w \<Rightarrow>
   (command_result \<times> 'w) option" where
  "command_claim rfc3339 oc C A field_manager identity params name w =
     (case lm_init C A name w of
        (None, w) \<Rightarrow> Some (None, w)
      | (Some (Inl e), w) \<Rightarrow> Some (Some (Inl e), w)
      | (Some (Inr m), w) \<Rightarrow>
          (case ensure_claimed oc C A identity params (with_field_manager field_manager (m :: unit lease_manager)) w of
             None \<Rightarrow> None
           | Some (None, _, w) \<Rightarrow> Some (None, w)
           | Some (Some (Inl e), _, w) \<Rightarrow> Some (Some (Inl e), w)
           | Some (Some (Inr claim), _, w) \<Rightarrow>
               (case utc_now A w of (t1, w) \<Rightarrow>
               (case utc_now A w of (t2, w) \<Rightarrow>
                 Some (Some (Inr ([print_claim rfc3339 t1 claim identity], of_bool (\<not> is_current_for t2 identity claim))), w)))))"

definition command_vacate ::
  "bool \<Rightarrow> chrono \<Rightarrow> 'w lease_api \<Rightarrow> string \<Rightarrow> string \<Rightarrow> string \<Rightarrow> 'w \<Rightarrow> command_result \<times> 'w" where
  "command_vacate oc C A field_manager identity name w =
     with_lease C A name field_manager (\<lambda>m w.
       (case lm_vacate oc A identity m w of
          (None, _, w) \<Rightarrow> (None, w)
        | (Some (Inl e), _, w) \<Rightarrow> (Some (Inl e), w)
        | (Some (Inr released), _, w) \<Rightarrow>
            (Some (Inr (if released then ([''+ Claim vacated''], 0) else ([''- Claim not vacated''], 1))), w))) w"

text \<open>
  \<open>Run\<close>: the loop over the claims that the spawned task publishes, each with the instant it is looked
  at, and the metrics it keeps.
\<close>

record claim_metrics =
  cm_claimed :: bool
  cm_claim_state :: int
  cm_state_changes :: "64 word"

definition claim_metrics_new :: claim_metrics where
  "claim_metrics_new = \<lparr>cm_claimed = False, cm_claim_state = 0, cm_state_changes = 0\<rparr>"

definition run_observe :: "string \<Rightarrow> lease_claim \<times> timestamp \<Rightarrow> claim_metrics \<Rightarrow> claim_metrics" where
  "run_observe identity obs s =
     (case (cm_claimed s, is_current_for (snd obs) identity (fst obs)) of
        (True, True) \<Rightarrow> s\<lparr>cm_claimed := True\<rparr>
      | (False, False) \<Rightarrow> s\<lparr>cm_claimed := False\<rparr>
      | (True, False) \<Rightarrow> s\<lparr>cm_claim_state := 0, cm_state_changes := cm_state_changes s + 1, cm_claimed := False\<rparr>
      | (False, True) \<Rightarrow> s\<lparr>cm_claim_state := 1, cm_state_changes := cm_state_changes s + 1, cm_claimed := True\<rparr>)"

text \<open>What ends the loop, after the claims observed: the signal, or the task's end with its result.\<close>

datatype run_end = Signaled | TaskClosed "string + (lease_error + unit)"

definition command_run ::
  "string \<Rightarrow> (lease_claim \<times> timestamp) list \<Rightarrow> run_end \<Rightarrow> claim_metrics \<times> (lease_error + int) option" where
  "command_run identity obs fin =
     (fold (run_observe identity) obs claim_metrics_new,
      (case fin of
         Signaled \<Rightarrow> Some (Inr 0)
       | TaskClosed (Inl panic) \<Rightarrow> None
       | TaskClosed (Inr (Inl e)) \<Rightarrow> Some (Inl e)
       | TaskClosed (Inr (Inr _)) \<Rightarrow> Some (Inr 0)))"

text \<open>\<open>run\<close>: the exit code of the process, or its error, from whichever branch ends first.\<close>

datatype select_branch = RuntimeEnded "aborted + unit" | CommandEnded "lease_error + int"

datatype process_exit = ExitCode int | ExitAborted | ExitError lease_error | ExitPanic

definition example_run :: "select_branch \<Rightarrow> process_exit" where
  "example_run b =
     (case b of
        RuntimeEnded (Inl _) \<Rightarrow> ExitAborted
      | RuntimeEnded (Inr _) \<Rightarrow> ExitCode 0
      | CommandEnded (Inl e) \<Rightarrow> ExitError e
      | CommandEnded (Inr code) \<Rightarrow> ExitCode code)"

subsection \<open>Properties\<close>

lemma run_observe_claimed: "cm_claimed (run_observe identity obs s) = is_current_for (snd obs) identity (fst obs)"
  by (cases "cm_claimed s"; cases "is_current_for (snd obs) identity (fst obs)") (simp_all add: run_observe_def)

lemma run_observe_changes:
  "cm_state_changes (run_observe identity obs s) =
     cm_state_changes s + of_bool (cm_claimed s \<noteq> is_current_for (snd obs) identity (fst obs))"
  by (cases "cm_claimed s"; cases "is_current_for (snd obs) identity (fst obs)") (simp_all add: run_observe_def)

lemma run_observe_state:
  "cm_claim_state s = of_bool (cm_claimed s) \<Longrightarrow>
   cm_claim_state (run_observe identity obs s) = of_bool (cm_claimed (run_observe identity obs s))"
  by (cases "cm_claimed s"; cases "is_current_for (snd obs) identity (fst obs)") (simp_all add: run_observe_def)

fun flips :: "bool \<Rightarrow> bool list \<Rightarrow> nat" where
  "flips b [] = 0"
| "flips b (c # cs) = of_bool (b \<noteq> c) + flips c cs"

lemma run_observes:
  assumes "cm_claim_state s = of_bool (cm_claimed s)"
  shows "let s' = fold (run_observe identity) obs s; flags = map (\<lambda>(c, t). is_current_for t identity c) obs in
    cm_claimed s' = (if obs = [] then cm_claimed s else last flags) \<and>
    cm_claim_state s' = of_bool (cm_claimed s') \<and>
    cm_state_changes s' = cm_state_changes s + word_of_nat (flips (cm_claimed s) flags)"
  using assms
proof (induction obs arbitrary: s)
  case (Cons ob obs)
  from Cons.IH[OF run_observe_state[OF Cons.prems]] show ?case
    by (cases ob) (auto simp: Let_def run_observe_claimed run_observe_changes add.assoc)
qed simp

text \<open>
  The metrics of the example's \<open>run\<close> command: the gauge is 1 exactly if the last claim observed was
  current and this process's own, and the counter holds the number of times that changed, starting from
  not claimed.
\<close>
theorem lease_run_metrics:
  "let s = fst (command_run identity obs fin); flags = map (\<lambda>(c, t). is_current_for t identity c) obs in
   cm_claim_state s = of_bool (obs \<noteq> [] \<and> last flags) \<and>
   cm_state_changes s = word_of_nat (flips False flags)"
  using run_observes[of claim_metrics_new identity obs]
  by (auto simp: command_run_def claim_metrics_new_def Let_def)

text \<open>
  The exit code of the \<open>claim\<close> command tells the truth: it is 0 exactly if the lease, as the command
  cached it, was claimed by the given identity and still current at the instant the code was computed.
\<close>
theorem claim_exit_code:
  assumes "command_claim rfc3339 oc C A field_manager identity params name w = Some (Some (Inr (out, code)), w')"
  shows "\<exists>(m :: unit lease_manager) w1 m' w2 claim t w3. lm_init C A name w = (Some (Inr m), w1) \<and>
    ensure_claimed oc C A identity params (with_field_manager field_manager m) w1 = Some (Some (Inr claim), m', w2) \<and>
    lm_claimed m' = Some claim \<and> utc_now A w3 = (t, w') \<and>
    (code = 0 \<longleftrightarrow> claim_holder claim = identity \<and> t < claim_expiry claim) \<and> (code = 0 \<or> code = 1)"
proof -
  from assms obtain m :: "unit lease_manager" and w1 m' w2 claim t1 w3 t where
    "lm_init C A name w = (Some (Inr m), w1)"
    and e: "ensure_claimed oc C A identity params (with_field_manager field_manager m) w1 = Some (Some (Inr claim), m', w2)"
    and "utc_now A w2 = (t1, w3)" "utc_now A w3 = (t, w')" "code = of_bool (\<not> is_current_for t identity claim)"
    by (auto simp: command_claim_def split: prod.splits option.splits sum.splits)
  moreover have "lm_claimed m' = Some claim" using ensure_claimed_caches[OF e] by simp
  ultimately show ?thesis by (auto simp: is_current_for_def is_current_def)
qed

theorem claim_exit_code_witness:
  "\<exists>out w'. command_claim (\<lambda>_. ''later'') True ideal_chrono (direct_api demo_server) ''kubert'' ''alice'' claim_params_default
       ''lease'' (100, (0, unheld_lease)) = Some (Some (Inr (out, 0)), w') \<and> out = [''+ Claimed by alice until later''] \<and>
     (\<exists>m w1 m' w2 claim. lm_init ideal_chrono (direct_api demo_server) ''lease'' (100, (0, unheld_lease)) = (Some (Inr m), w1) \<and>
        ensure_claimed True ideal_chrono (direct_api demo_server) ''alice'' claim_params_default
          (with_field_manager ''kubert'' (m :: unit lease_manager)) w1 = Some (Some (Inr claim), m', w2) \<and>
        claim_holder claim = ''alice'')"
proof -
  obtain w' where run: "command_claim (\<lambda>_. ''later'') True ideal_chrono (direct_api demo_server) ''kubert'' ''alice''
      claim_params_default ''lease'' (100, (0, unheld_lease)) = Some (Some (Inr ([''+ Claimed by alice until later''], 0)), w')"
    by (simp add: command_claim_def lm_init_def lm_get_def parse_lease_def unheld_lease_def with_field_manager_def
        u16_or_zero_def print_claim_def is_current_for_def is_current_def lease_run_simps)
  have holder: "((0 :: int) = 0 \<longleftrightarrow> P \<and> R) \<Longrightarrow> P" for P R by simp
  show ?thesis
    by (rule exI, rule exI, intro conjI, rule run, rule refl, insert claim_exit_code[OF run], elim exE conjE, drule holder,
        intro exI conjI, assumption+)
qed

end
