(* ===== verification/Client.thy ===== *)
theory Client
  imports Kubert_Prelude
begin

text \<open>
  \<open>kubert/src/client.rs\<close>: the Kubernetes client from command-line arguments. Reading a
  kubeconfig, the in-cluster configuration and the client's construction (\<open>kube_client\<close>) are
  parameters; of a kubeconfig the authentication entries are modelled, the rest is of type
  \<open>'x\<close>.
\<close>

record client_args =
  ca_cluster :: "string option"
  ca_context :: "string option"
  ca_user :: "string option"
  ca_kubeconfig :: "string option"
  ca_impersonate_user :: "string option"
  ca_impersonate_group :: "string option"

datatype 'e config_error = KubeconfigErr 'e | InClusterErr 'e | ClientErr 'e

record auth_info =
  ai_impersonate :: "string option"
  ai_impersonate_groups :: "string list option"

record 'x kubeconfig =
  kc_auth_infos :: "(string \<times> auth_info option) list"
  kc_rest :: "'x"

record kubeconfig_options =
  ko_context :: "string option"
  ko_cluster :: "string option"
  ko_user :: "string option"

record ('x, 'cfg, 'client, 'e) kube_config_api =
  kca_read_from :: "string \<Rightarrow> 'e + 'x kubeconfig"
  kca_read :: "'e + 'x kubeconfig"
  kca_from_custom :: "'x kubeconfig \<Rightarrow> kubeconfig_options \<Rightarrow> 'e + 'cfg"
  kca_incluster :: "'e + 'cfg"
  kca_try_into :: "'cfg \<Rightarrow> 'e + 'client"

definition client_args_default :: client_args where
  "client_args_default = \<lparr>ca_cluster = None, ca_context = None, ca_user = None, ca_kubeconfig = None,
     ca_impersonate_user = None, ca_impersonate_group = None\<rparr>"

definition is_customized :: "client_args \<Rightarrow> bool" where
  "is_customized a \<longleftrightarrow> ca_context a \<noteq> None \<or> ca_cluster a \<noteq> None \<or> ca_user a \<noteq> None \<or>
     ca_impersonate_user a \<noteq> None \<or> ca_impersonate_group a \<noteq> None \<or> ca_kubeconfig a \<noteq> None"

definition impersonate_user :: "string option \<Rightarrow> (string \<times> auth_info option) list \<Rightarrow> (string \<times> auth_info option) list" where
  "impersonate_user user auths =
     (case user of
        None \<Rightarrow> auths
      | Some u \<Rightarrow> map (\<lambda>(n, ai). (n, map_option (\<lambda>ai. ai\<lparr>ai_impersonate := Some u\<rparr>) ai)) auths)"

definition impersonate_group :: "string option \<Rightarrow> (string \<times> auth_info option) list \<Rightarrow> (string \<times> auth_info option) list" where
  "impersonate_group grp auths =
     (case grp of
        None \<Rightarrow> auths
      | Some g \<Rightarrow> map (\<lambda>(n, ai). (n, map_option (\<lambda>ai. ai\<lparr>ai_impersonate_groups := Some [g]\<rparr>) ai)) auths)"

definition load_local_config :: "('x, 'cfg, 'client, 'e) kube_config_api \<Rightarrow> client_args \<Rightarrow> 'e config_error + 'cfg" where
  "load_local_config K a =
     (let options = \<lparr>ko_context = ca_context a, ko_cluster = ca_cluster a, ko_user = ca_user a\<rparr>
      in sum_bind (map_err KubeconfigErr (case ca_kubeconfig a of Some path \<Rightarrow> kca_read_from K path | None \<Rightarrow> kca_read K)) (\<lambda>kc.
         let kc = kc\<lparr>kc_auth_infos := impersonate_user (ca_impersonate_user a) (kc_auth_infos kc)\<rparr>;
             kc = kc\<lparr>kc_auth_infos := impersonate_group (ca_impersonate_group a) (kc_auth_infos kc)\<rparr>
         in map_err KubeconfigErr (kca_from_custom K kc options)))"

definition try_client :: "('x, 'cfg, 'client, 'e) kube_config_api \<Rightarrow> client_args \<Rightarrow> 'e config_error + 'client" where
  "try_client K a =
     sum_bind (case load_local_config K a of
                 Inr config \<Rightarrow> Inr config
               | Inl e \<Rightarrow> if is_customized a then Inl e else map_err InClusterErr (kca_incluster K)) (\<lambda>config.
       map_err ClientErr (kca_try_into K config))"

subsection \<open>Properties\<close>

definition impersonated :: "client_args \<Rightarrow> auth_info \<Rightarrow> bool" where
  "impersonated a ai \<longleftrightarrow> (ca_impersonate_user a \<noteq> None \<longrightarrow> ai_impersonate ai = ca_impersonate_user a) \<and>
     (\<forall>g. ca_impersonate_group a = Some g \<longrightarrow> ai_impersonate_groups ai = Some [g])"

lemma impersonate_all:
  "(n, Some ai) \<in> set (impersonate_group (ca_impersonate_group a) (impersonate_user (ca_impersonate_user a) auths)) \<Longrightarrow>
   impersonated a ai"
  by (auto simp: impersonate_group_def impersonate_user_def impersonated_def map_option_case
      split: option.splits option.split_asm)

lemma load_local_config_incluster: "load_local_config (K\<lparr>kca_incluster := c\<rparr>) a = load_local_config K a"
  by (cases "ca_kubeconfig a") (simp_all add: load_local_config_def Let_def)

text \<open>
  Command-line options are never dropped in silence: if any is given, the in-cluster configuration
  plays no part in the result, and a client is made only from a kubeconfig in which every entry with
  credentials carries the requested user and group to impersonate.
\<close>
theorem customized_client_uses_kubeconfig:
  assumes "is_customized a"
  shows "try_client (K\<lparr>kca_incluster := c\<rparr>) a = try_client K a \<and>
    (\<forall>client. try_client K a = Inr client \<longrightarrow>
       (\<exists>kc opts cfg. kca_from_custom K kc opts = Inr cfg \<and> kca_try_into K cfg = Inr client \<and>
          (\<forall>n ai. (n, Some ai) \<in> set (kc_auth_infos kc) \<longrightarrow> impersonated a ai)))"
proof
  show "try_client (K\<lparr>kca_incluster := c\<rparr>) a = try_client K a"
    using assms by (simp add: try_client_def load_local_config_incluster split: sum.splits)
  show "\<forall>client. try_client K a = Inr client \<longrightarrow>
       (\<exists>kc opts cfg. kca_from_custom K kc opts = Inr cfg \<and> kca_try_into K cfg = Inr client \<and>
          (\<forall>n ai. (n, Some ai) \<in> set (kc_auth_infos kc) \<longrightarrow> impersonated a ai))"
  proof (intro allI impI)
    fix client
    assume "try_client K a = Inr client"
    then obtain cfg where "load_local_config K a = Inr cfg" and "kca_try_into K cfg = Inr client"
      using assms by (auto simp: try_client_def sum_bind_Inr split: sum.splits if_splits)
    then show "\<exists>kc opts cfg. kca_from_custom K kc opts = Inr cfg \<and> kca_try_into K cfg = Inr client \<and>
          (\<forall>n ai. (n, Some ai) \<in> set (kc_auth_infos kc) \<longrightarrow> impersonated a ai)"
      by (fastforce simp: load_local_config_def sum_bind_Inr Let_def dest: impersonate_all)
  qed
qed

text \<open>An API on which the kubeconfig has one user, and the in-cluster configuration always works.\<close>

definition demo_kube :: "(unit, (string \<times> auth_info option) list, (string \<times> auth_info option) list, string) kube_config_api" where
  "demo_kube = \<lparr>kca_read_from = (\<lambda>_. Inl ''no file''),
     kca_read = Inr \<lparr>kc_auth_infos = [(''me'', Some \<lparr>ai_impersonate = None, ai_impersonate_groups = None\<rparr>)], kc_rest = ()\<rparr>,
     kca_from_custom = (\<lambda>kc _. Inr (kc_auth_infos kc)), kca_incluster = Inr [], kca_try_into = Inr\<rparr>"

theorem customized_client_uses_kubeconfig_witness:
  "try_client (demo_kube\<lparr>kca_incluster := Inl ''none''\<rparr>) (client_args_default\<lparr>ca_impersonate_user := Some ''root''\<rparr>) =
     try_client demo_kube (client_args_default\<lparr>ca_impersonate_user := Some ''root''\<rparr>) \<and>
   try_client demo_kube (client_args_default\<lparr>ca_impersonate_user := Some ''root''\<rparr>) =
     Inr [(''me'', Some \<lparr>ai_impersonate = Some ''root'', ai_impersonate_groups = None\<rparr>)]"
  using customized_client_uses_kubeconfig[where a = "client_args_default\<lparr>ca_impersonate_user := Some ''root''\<rparr>"
      and K = demo_kube and c = "Inl ''none''"]
  by (simp add: is_customized_def try_client_def load_local_config_def demo_kube_def client_args_default_def
      impersonate_user_def impersonate_group_def Let_def)

end
