(* ===== verification/Log_Format.thy ===== *)
theory Log_Format
  imports Kubert_Prelude
begin

text \<open>
  \<open>kubert/src/log.rs\<close>: the log format and its installation. The filter is a parameter
  here and modelled in \<open>Log_Filter\<close>; the subscriber registry (\<open>tracing_subscriber\<close>) is a parameter.
\<close>

datatype log_format = Plain | Json

datatype invalid_log_format = InvalidLogFormat string

definition log_format_default :: log_format where
  "log_format_default = Plain"

definition log_format_from_str :: "string \<Rightarrow> invalid_log_format + log_format" where
  "log_format_from_str s =
     (if s = ''json'' then Inr Json else if s = ''plain'' then Inr Plain else Inl (InvalidLogFormat s))"

record 'f json_layer =
  jl_span_list :: bool
  jl_current_span :: bool
  jl_json_fields :: bool

text \<open>\<open>install\<close> sets the global subscriber with a filter and a layer, once.\<close>

datatype 'f fmt_layer = PlainLayer | JsonLayer "'f json_layer"

definition log_try_init :: "('f \<Rightarrow> 'f fmt_layer \<Rightarrow> 'e + unit) \<Rightarrow> log_format \<Rightarrow> 'f \<Rightarrow> 'e + unit" where
  "log_try_init install fmt filt =
     (case fmt of
        Plain \<Rightarrow> install filt PlainLayer
      | Json \<Rightarrow> install filt (JsonLayer \<lparr>jl_span_list = True, jl_current_span = False, jl_json_fields = True\<rparr>))"

record 'f log_settings =
  lg_filter :: "'f"
  lg_format :: log_format

definition log_settings_default :: "'f \<Rightarrow> 'f log_settings" where
  "log_settings_default default_env = \<lparr>lg_filter = default_env, lg_format = log_format_default\<rparr>"

definition log_settings_try_init :: "('f \<Rightarrow> 'f fmt_layer \<Rightarrow> 'e + unit) \<Rightarrow> 'f log_settings \<Rightarrow> 'e + unit" where
  "log_settings_try_init install s = log_try_init install (lg_format s) (lg_filter s)"

lemma log_format_from_str_ok:
  "log_format_from_str s = Inr fmt \<longleftrightarrow> s = (case fmt of Plain \<Rightarrow> ''plain'' | Json \<Rightarrow> ''json'')"
  by (cases fmt) (auto simp: log_format_from_str_def)

end
