(* ===== verification/Watch_Diagnostics.thy ===== *)
theory Watch_Diagnostics
  imports Lease_Types "HOL-Library.Option_ord" "HOL-Library.Multiset"
    "HOL-Library.Product_Lexorder"
begin

text \<open>
  \<open>kubert/src/admin/diagnostics/watch.rs\<close>: the state a watch reports to the admin server. The
  metadata of a resource (\<open>ObjectMeta\<close>), the text of an error, the iteration order of the hash
  map and the SHA-256 digest are parameters.
\<close>

record obj_meta =
  om_namespace :: "string option"
  om_name :: "string option"
  om_uid :: "string option"
  om_resource_version :: "string option"
  om_generation :: "int option"
  om_creation :: "timestamp option"

record obj_ref =
  or_kind :: string
  or_api_version :: string
  or_namespace :: "string option"
  or_name :: "string option"
  or_uid :: "string option"

record wd_resource =
  wr_creation :: "timestamp option"
  wr_uid :: string
  wr_name :: string
  wr_namespace :: string
  wr_generation :: "int option"
  wr_resource_version :: string

record watch_stats =
  wst_creation_timestamp :: timestamp
  wst_errors :: "64 word"
  wst_last_error :: "(string \<times> timestamp) option"
  wst_resets :: "64 word"
  wst_last_reset :: "timestamp option"
  wst_applies :: "64 word"
  wst_last_apply :: "timestamp option"
  wst_deletes :: "64 word"
  wst_last_delete :: "timestamp option"

record watch_state =
  ws_api_url :: string
  ws_label_selector :: string
  ws_stats :: watch_stats
  ws_known :: "obj_ref \<rightharpoonup> wd_resource"
  ws_resetting :: "obj_ref \<rightharpoonup> wd_resource"

record watch_summary =
  wsm_api_url :: string
  wsm_label_selector :: string
  wsm_stats :: watch_stats
  wsm_checksum :: "string option"
  wsm_resources :: "wd_resource list option"

abbreviation unwrap_or_default :: "string option \<Rightarrow> string" where
  "unwrap_or_default x \<equiv> (case x of None \<Rightarrow> [] | Some s \<Rightarrow> s)"

definition wd_new :: "timestamp \<Rightarrow> string \<Rightarrow> string option \<Rightarrow> watch_state" where
  "wd_new now api_url label_selector =
     \<lparr>ws_api_url = api_url, ws_label_selector = unwrap_or_default label_selector,
      ws_stats = \<lparr>wst_creation_timestamp = now, wst_errors = 0, wst_last_error = None,
        wst_resets = 0, wst_last_reset = None, wst_applies = 0, wst_last_apply = None,
        wst_deletes = 0, wst_last_delete = None\<rparr>,
      ws_known = Map.empty, ws_resetting = Map.empty\<rparr>"

subsection \<open>inspect\<close>

text \<open>The kind and API version of the watched type, and the metadata of a resource.\<close>

record 'r watched_type =
  wt_kind :: string
  wt_api_version :: string
  wt_meta :: "'r \<Rightarrow> obj_meta"

definition to_key :: "'r watched_type \<Rightarrow> 'r \<Rightarrow> obj_ref" where
  "to_key T r = (let meta = wt_meta T r in
     \<lparr>or_kind = wt_kind T, or_api_version = wt_api_version T, or_namespace = om_namespace meta,
      or_name = om_name meta, or_uid = om_uid meta\<rparr>)"

definition to_resource :: "'r watched_type \<Rightarrow> 'r \<Rightarrow> wd_resource" where
  "to_resource T r = (let meta = wt_meta T r in
     \<lparr>wr_creation = om_creation meta, wr_uid = unwrap_or_default (om_uid meta),
      wr_name = unwrap_or_default (om_name meta), wr_namespace = unwrap_or_default (om_namespace meta),
      wr_generation = om_generation meta,
      wr_resource_version = unwrap_or_default (om_resource_version meta)\<rparr>)"

text \<open>\<open>None\<close>: a counter overflowed in a build with overflow checks.\<close>

fun wd_inspect ::
  "bool \<Rightarrow> 'r watched_type \<Rightarrow> ('e \<Rightarrow> string) \<Rightarrow> timestamp \<Rightarrow> 'e + 'r event \<Rightarrow> watch_state \<Rightarrow> watch_state option" where
  "wd_inspect oc T msg now (Inr Init) s = Some (s\<lparr>ws_resetting := Map.empty\<rparr>)"
| "wd_inspect oc T msg now (Inr (InitApply r)) s =
     Some (s\<lparr>ws_resetting := (ws_resetting s)(to_key T r \<mapsto> to_resource T r)\<rparr>)"
| "wd_inspect oc T msg now (Inr InitDone) s =
     map_option (\<lambda>n. s\<lparr>ws_known := ws_resetting s, ws_resetting := ws_known s,
         ws_stats := (ws_stats s)\<lparr>wst_resets := n, wst_last_reset := Some now\<rparr>\<rparr>)
       (rust_add oc (wst_resets (ws_stats s)) 1)"
| "wd_inspect oc T msg now (Inr (Apply r)) s =
     map_option (\<lambda>n. s\<lparr>ws_known := (ws_known s)(to_key T r \<mapsto> to_resource T r),
         ws_stats := (ws_stats s)\<lparr>wst_applies := n, wst_last_apply := Some now\<rparr>\<rparr>)
       (rust_add oc (wst_applies (ws_stats s)) 1)"
| "wd_inspect oc T msg now (Inr (Delete r)) s =
     map_option (\<lambda>n. s\<lparr>ws_known := (ws_known s)(to_key T r := None),
         ws_stats := (ws_stats s)\<lparr>wst_deletes := n, wst_last_delete := Some now\<rparr>\<rparr>)
       (rust_add oc (wst_deletes (ws_stats s)) 1)"
| "wd_inspect oc T msg now (Inl e) s =
     map_option (\<lambda>n. s\<lparr>ws_stats := (ws_stats s)\<lparr>wst_errors := n, wst_last_error := Some (msg e, now)\<rparr>\<rparr>)
       (rust_add oc (wst_errors (ws_stats s)) 1)"

definition wd_inspects ::
  "bool \<Rightarrow> 'r watched_type \<Rightarrow> ('e \<Rightarrow> string) \<Rightarrow> (timestamp \<times> ('e + 'r event)) list \<Rightarrow> watch_state \<Rightarrow> watch_state option" where
  "wd_inspects oc T msg es s = fold_opt (\<lambda>(now, e). wd_inspect oc T msg now e) es s"

subsection \<open>summary\<close>

text \<open>The fields of a resource that its \<open>Hash\<close> feeds to the digest; the generation is not one.\<close>

definition wr_hash :: "wd_resource \<Rightarrow> timestamp option \<times> string \<times> string \<times> string \<times> string" where
  "wr_hash r = (wr_creation r, wr_name r, wr_namespace r, wr_resource_version r, wr_uid r)"

type_synonym digest = "(timestamp option \<times> string \<times> string \<times> string \<times> string) list \<Rightarrow> string"

definition checksum :: "digest \<Rightarrow> wd_resource list \<Rightarrow> string" where
  "checksum sha rs = ''sha256:'' @ sha (map wr_hash rs)"

definition wd_summary ::
  "((obj_ref \<rightharpoonup> wd_resource) \<Rightarrow> wd_resource list) \<Rightarrow> digest \<Rightarrow> bool \<Rightarrow> watch_state \<Rightarrow> watch_summary" where
  "wd_summary vals sha with_resources s =
     (let resources = sort_key wr_creation (vals (ws_known s))
      in \<lparr>wsm_api_url = ws_api_url s, wsm_label_selector = ws_label_selector s, wsm_stats = ws_stats s,
          wsm_checksum = (if resources = [] then None else Some (checksum sha resources)),
          wsm_resources = (if with_resources then Some resources else None)\<rparr>)"

text \<open>
  The contract of the iteration over a hash map: every entry once, in an order that may depend on
  the map's random seed.
\<close>

locale map_values =
  fixes vals :: "('k \<rightharpoonup> 'v) \<Rightarrow> 'v list"
  assumes vals_mset: "finite (dom m) \<Longrightarrow> mset (vals m) = image_mset (the \<circ> m) (mset_set (dom m))"
begin

lemma vals_set: "finite (dom m) \<Longrightarrow> set (vals m) = ran m"
  using arg_cong[OF vals_mset, of m set_mset] by (force simp: ran_def dom_def image_def)

end

lemma vals_agree:
  "map_values v1 \<Longrightarrow> map_values v2 \<Longrightarrow> finite (dom m) \<Longrightarrow> mset (v1 m) = mset (v2 m)"
  by (simp add: map_values.vals_mset)

text \<open>Two orders of iteration: by key, and its reverse.\<close>

definition ref_tuple :: "obj_ref \<Rightarrow> string \<times> string \<times> string option \<times> string option \<times> string option" where
  "ref_tuple r = (or_kind r, or_api_version r, or_namespace r, or_name r, or_uid r)"

definition tuple_ref :: "string \<times> string \<times> string option \<times> string option \<times> string option \<Rightarrow> obj_ref" where
  "tuple_ref t = (case t of (k, a, ns, n, u) \<Rightarrow>
     \<lparr>or_kind = k, or_api_version = a, or_namespace = ns, or_name = n, or_uid = u\<rparr>)"

lemma tuple_ref_inverse [simp]: "tuple_ref (ref_tuple r) = r"
  by (simp add: tuple_ref_def ref_tuple_def)

definition vals_by_key :: "(obj_ref \<rightharpoonup> 'v) \<Rightarrow> 'v list" where
  "vals_by_key m = map (\<lambda>k. the (m (tuple_ref k))) (sorted_list_of_set (ref_tuple ` dom m))"

definition vals_by_key_rev :: "(obj_ref \<rightharpoonup> 'v) \<Rightarrow> 'v list" where
  "vals_by_key_rev m = rev (vals_by_key m)"

interpretation by_key: map_values vals_by_key
proof
  fix m :: "obj_ref \<rightharpoonup> 'v"
  assume fin: "finite (dom m)"
  have "mset (sorted_list_of_set (ref_tuple ` dom m)) = mset_set (ref_tuple ` dom m)"
    using fin by (metis finite_imageI mset_set_set set_sorted_list_of_set sorted_list_of_set.distinct_sorted_key_list_of_set)
  also have "\<dots> = image_mset ref_tuple (mset_set (dom m))"
    by (rule image_mset_mset_set[symmetric]) (metis inj_onI tuple_ref_inverse)
  finally show "mset (vals_by_key m) = image_mset (the \<circ> m) (mset_set (dom m))"
    by (simp add: vals_by_key_def image_mset.compositionality o_def)
qed

interpretation by_key_rev: map_values vals_by_key_rev
  by unfold_locales (simp add: vals_by_key_rev_def by_key.vals_mset)

subsection \<open>What a watch knows\<close>

text \<open>The entries of a listing, and how later events change them.\<close>

fun listed :: "'r watched_type \<Rightarrow> 'e + 'r event \<Rightarrow> (obj_ref \<rightharpoonup> wd_resource) \<Rightarrow> (obj_ref \<rightharpoonup> wd_resource)" where
  "listed T (Inr (InitApply r)) m = m(to_key T r \<mapsto> to_resource T r)"
| "listed T _ m = m"

fun tracked :: "'r watched_type \<Rightarrow> 'e + 'r event \<Rightarrow> (obj_ref \<rightharpoonup> wd_resource) \<Rightarrow> (obj_ref \<rightharpoonup> wd_resource)" where
  "tracked T (Inr (Apply r)) m = m(to_key T r \<mapsto> to_resource T r)"
| "tracked T (Inr (Delete r)) m = m(to_key T r := None)"
| "tracked T _ m = m"

fun is_listing :: "'e + 'r event \<Rightarrow> bool" where
  "is_listing (Inr (InitApply r)) = True"
| "is_listing (Inl e) = True"
| "is_listing _ = False"

fun is_update :: "'e + 'r event \<Rightarrow> bool" where
  "is_update (Inr (Apply r)) = True"
| "is_update (Inr (Delete r)) = True"
| "is_update (Inl e) = True"
| "is_update _ = False"

lemma inspect_listing:
  "is_listing e \<Longrightarrow> wd_inspect oc T msg now e s = Some s' \<Longrightarrow>
   ws_resetting s' = listed T e (ws_resetting s) \<and> ws_known s' = ws_known s"
  by (induction e rule: is_listing.induct) auto

lemma inspect_update:
  "is_update e \<Longrightarrow> wd_inspect oc T msg now e s = Some s' \<Longrightarrow> ws_known s' = tracked T e (ws_known s)"
  by (induction e rule: is_update.induct) auto

lemma inspects_listing:
  "\<forall>e \<in> set es. is_listing (snd e) \<Longrightarrow> wd_inspects oc T msg es s = Some s' \<Longrightarrow>
   ws_resetting s' = fold (listed T \<circ> snd) es (ws_resetting s)"
proof (induction es arbitrary: s)
  case (Cons e es)
  then obtain s1 where "wd_inspect oc T msg (fst e) (snd e) s = Some s1" "wd_inspects oc T msg es s1 = Some s'"
    by (auto simp: wd_inspects_def split: prod.splits Option.bind_splits)
  with Cons.IH[of s1] Cons.prems inspect_listing[of "snd e"] show ?case by simp
qed (simp add: wd_inspects_def)

lemma inspects_update:
  "\<forall>e \<in> set es. is_update (snd e) \<Longrightarrow> wd_inspects oc T msg es s = Some s' \<Longrightarrow>
   ws_known s' = fold (tracked T \<circ> snd) es (ws_known s)"
proof (induction es arbitrary: s)
  case (Cons e es)
  then obtain s1 where "wd_inspect oc T msg (fst e) (snd e) s = Some s1" "wd_inspects oc T msg es s1 = Some s'"
    by (auto simp: wd_inspects_def split: prod.splits Option.bind_splits)
  with Cons.IH[of s1] Cons.prems inspect_update[of "snd e"] show ?case by simp
qed (simp add: wd_inspects_def)

lemma inspects_append:
  "wd_inspects oc T msg (es @ fs) s = Some s' \<longleftrightarrow>
   (\<exists>s1. wd_inspects oc T msg es s = Some s1 \<and> wd_inspects oc T msg fs s1 = Some s')"
  by (auto simp: wd_inspects_def fold_opt_append split: Option.bind_splits)

lemma inspects_Cons:
  "wd_inspects oc T msg (e # es) s = Some s' \<longleftrightarrow>
   (\<exists>s1. wd_inspect oc T msg (fst e) (snd e) s = Some s1 \<and> wd_inspects oc T msg es s1 = Some s')"
  by (auto simp: wd_inspects_def split: prod.splits Option.bind_splits)

subsection \<open>Properties\<close>


definition plain_meta :: "string \<Rightarrow> timestamp option \<Rightarrow> obj_meta" where
  "plain_meta name t = \<lparr>om_namespace = Some ''ns'', om_name = Some name, om_uid = None,
     om_resource_version = None, om_generation = None, om_creation = t\<rparr>"

definition pod_type :: "(string \<times> timestamp) watched_type" where
  "pod_type = \<lparr>wt_kind = ''Pod'', wt_api_version = ''v1'', wt_meta = (\<lambda>(n, t). plain_meta n (Some t))\<rparr>"


text \<open>
  C34. The summary of a watch, and so its checksum, does not depend on the order in which the hash
  map is iterated, as long as the creation timestamps of the known resources differ.
\<close>
theorem summary_order_independent:
  assumes "map_values v1" and "map_values v2" and "finite (dom (ws_known s))"
    and "inj_on wr_creation (ran (ws_known s))"
  shows "wd_summary v1 sha with_resources s = wd_summary v2 sha with_resources s"
proof -
  have "sort_key wr_creation (v1 (ws_known s)) = sort_key wr_creation (v2 (ws_known s))"
  proof (rule sort_key_inj_key_eq)
    show "mset (v1 (ws_known s)) = mset (sort_key wr_creation (v2 (ws_known s)))"
      using vals_agree[OF assms(1-3)] by simp
    show "inj_on wr_creation (set (v1 (ws_known s)))"
      using assms(4) map_values.vals_set[OF assms(1,3)] by simp
  qed simp
  then show ?thesis by (simp add: wd_summary_def)
qed

definition two_pods :: "timestamp \<Rightarrow> timestamp \<Rightarrow> watch_state" where
  "two_pods t u = (wd_new 0 ''/api/v1/pods'' None)\<lparr>ws_known :=
     [to_key pod_type (''a'', t) \<mapsto> to_resource pod_type (''a'', t),
      to_key pod_type (''b'', u) \<mapsto> to_resource pod_type (''b'', u)]\<rparr>"

lemma two_pods_by_key:
  "vals_by_key (ws_known (two_pods t u)) = [to_resource pod_type (''a'', t), to_resource pod_type (''b'', u)]"
proof -
  have "ref_tuple ` dom (ws_known (two_pods t u)) =
      {(''Pod'', ''v1'', Some ''ns'', Some ''a'', None), (''Pod'', ''v1'', Some ''ns'', Some ''b'', None)}"
    by (auto simp: two_pods_def to_key_def pod_type_def plain_meta_def ref_tuple_def)
  then show ?thesis
    by (simp add: vals_by_key_def tuple_ref_def two_pods_def to_key_def pod_type_def plain_meta_def)
qed

theorem summary_order_independent_witness:
  "wd_summary vals_by_key (\<lambda>_. ''00'') True (two_pods 1 2) = wd_summary vals_by_key_rev (\<lambda>_. ''00'') True (two_pods 1 2)"
proof (rule summary_order_independent[OF by_key.map_values_axioms by_key_rev.map_values_axioms])
  show "finite (dom (ws_known (two_pods 1 2)))" by (simp add: two_pods_def)
  have "ran (ws_known (two_pods 1 2)) = {to_resource pod_type (''a'', 1), to_resource pod_type (''b'', 2)}"
    using by_key.vals_set[of "ws_known (two_pods 1 2)"] by (simp add: two_pods_by_key) (simp add: two_pods_def)
  then show "inj_on wr_creation (ran (ws_known (two_pods 1 2)))"
    by (simp add: to_resource_def pod_type_def plain_meta_def)
qed


end
