(* ===== verification/Http.thy ===== *)
theory Http
  imports Kubert_Prelude
begin

text \<open>
  The part of HTTP requests and responses (\<open>hyper\<close>) that the admin server reads and writes.
\<close>

datatype http_method = GET | HEAD | OtherMethod string

record http_request =
  hq_method :: http_method
  hq_path :: string
  hq_query :: "string option"

record http_response =
  hs_status :: nat
  hs_headers :: "(string \<times> string) list"
  hs_body :: string

abbreviation http_ok :: nat where "http_ok \<equiv> 200"
abbreviation http_forbidden :: nat where "http_forbidden \<equiv> 403"
abbreviation http_not_found :: nat where "http_not_found \<equiv> 404"
abbreviation http_method_not_allowed :: nat where "http_method_not_allowed \<equiv> 405"
abbreviation http_internal_server_error :: nat where "http_internal_server_error \<equiv> 500"

text \<open>A response without a body.\<close>

definition empty_response :: "nat \<Rightarrow> (string \<times> string) list \<Rightarrow> http_response" where
  "empty_response status headers = \<lparr>hs_status = status, hs_headers = headers, hs_body = []\<rparr>"

end
