(* ===== verification/Diagnostics.thy ===== *)
theory Diagnostics
  imports Watch_Diagnostics Lease_Diagnostics Http
begin

text \<open>
  \<open>kubert/src/admin/diagnostics.rs\<close>: the registry of watches and leases and the handler that
  reports them. The states live in a heap and are owned by the watches and leases; the registry keeps
  weak references, which are addresses whose entry may be gone. Serialization to JSON is a parameter.
\<close>

record 'f dg_heap =
  hp_watches :: "nat \<rightharpoonup> watch_state"
  hp_leases :: "nat \<rightharpoonup> 'f lease_diag"
  hp_next :: nat

record diagnostics =
  dg_initial_time :: timestamp
  dg_watches :: "nat list"
  dg_leases :: "nat list"

record 'f dg_summary =
  ds_initial_timestamp :: timestamp
  ds_current_timestamp :: timestamp
  ds_watches :: "watch_summary list"
  ds_leases :: "'f lease_diag list"

definition dg_new :: "timestamp \<Rightarrow> diagnostics" where
  "dg_new now = \<lparr>dg_initial_time = now, dg_watches = [], dg_leases = []\<rparr>"

definition register_watch ::
  "timestamp \<Rightarrow> string \<Rightarrow> string option \<Rightarrow> diagnostics \<times> 'f dg_heap \<Rightarrow> nat \<times> diagnostics \<times> 'f dg_heap" where
  "register_watch now url selector dh =
     (case dh of (d, h) \<Rightarrow> (hp_next h,
        d\<lparr>dg_watches := dg_watches d @ [hp_next h]\<rparr>,
        h\<lparr>hp_watches := (hp_watches h)(hp_next h \<mapsto> wd_new now url selector), hp_next := Suc (hp_next h)\<rparr>))"

definition register_lease ::
  "(duration \<Rightarrow> 'f) \<Rightarrow> timestamp \<Rightarrow> lease_params \<Rightarrow> diagnostics \<times> 'f dg_heap \<Rightarrow> nat \<times> diagnostics \<times> 'f dg_heap" where
  "register_lease secs now params dh =
     (case dh of (d, h) \<Rightarrow> (hp_next h,
        d\<lparr>dg_leases := dg_leases d @ [hp_next h]\<rparr>,
        h\<lparr>hp_leases := (hp_leases h)(hp_next h \<mapsto> ld_new secs now params), hp_next := Suc (hp_next h)\<rparr>))"

text \<open>The owner of a state is dropped.\<close>

definition drop_watch :: "nat \<Rightarrow> 'f dg_heap \<Rightarrow> 'f dg_heap" where
  "drop_watch a h = h\<lparr>hp_watches := (hp_watches h)(a := None)\<rparr>"

definition drop_lease :: "nat \<Rightarrow> 'f dg_heap \<Rightarrow> 'f dg_heap" where
  "drop_lease a h = h\<lparr>hp_leases := (hp_leases h)(a := None)\<rparr>"

text \<open>\<open>refs.retain(|w| w.upgrade().is_some())\<close> and the iteration that follows it.\<close>

definition retain_live :: "(nat \<rightharpoonup> 'v) \<Rightarrow> nat list \<Rightarrow> nat list" where
  "retain_live heap refs = filter (\<lambda>a. heap a \<noteq> None) refs"

definition summarize_watches ::
  "((obj_ref \<rightharpoonup> wd_resource) \<Rightarrow> wd_resource list) \<Rightarrow> digest \<Rightarrow> bool \<Rightarrow> 'f dg_heap \<Rightarrow> diagnostics \<Rightarrow>
   watch_summary list \<times> diagnostics" where
  "summarize_watches vals sha with_resources h d =
     (let refs = retain_live (hp_watches h) (dg_watches d)
      in (map (wd_summary vals sha with_resources) (List.map_filter (hp_watches h) refs), d\<lparr>dg_watches := refs\<rparr>))"

definition summarize_leases :: "'f dg_heap \<Rightarrow> diagnostics \<Rightarrow> 'f lease_diag list \<times> diagnostics" where
  "summarize_leases h d =
     (let refs = retain_live (hp_leases h) (dg_leases d)
      in (List.map_filter (hp_leases h) refs, d\<lparr>dg_leases := refs\<rparr>))"

definition dg_handle ::
  "((obj_ref \<rightharpoonup> wd_resource) \<Rightarrow> wd_resource list) \<Rightarrow> digest \<Rightarrow> ('f dg_summary \<Rightarrow> 'e + string) \<Rightarrow> timestamp \<Rightarrow>
   ('addr \<Rightarrow> bool) \<Rightarrow> 'addr \<Rightarrow> http_request \<Rightarrow> 'f dg_heap \<Rightarrow> diagnostics \<Rightarrow> http_response \<times> diagnostics" where
  "dg_handle vals sha to_json now is_loopback client_addr req h d =
     (if hq_method req \<noteq> GET then (empty_response http_method_not_allowed [(''allow'', ''GET'')], d)
      else if \<not> is_loopback client_addr then (empty_response http_forbidden [], d)
      else
        (case summarize_watches vals sha (hq_query req = Some ''resources'') h d of (watches, d) \<Rightarrow>
        (case summarize_leases h d of (leases, d) \<Rightarrow>
        (case to_json \<lparr>ds_initial_timestamp = dg_initial_time d, ds_current_timestamp = now,
                       ds_watches = watches, ds_leases = leases\<rparr> of
           Inl e \<Rightarrow> (empty_response http_internal_server_error [], d)
         | Inr bytes \<Rightarrow>
             (\<lparr>hs_status = http_ok, hs_headers = [(''content-type'', ''application/json'')], hs_body = bytes\<rparr>, d)))))"

subsection \<open>What the registry reports\<close>

datatype 'f dg_op =
    OpWatch timestamp string "string option"
  | OpLease timestamp lease_params
  | OpDropWatch nat
  | OpDropLease nat
  | OpSetWatch nat watch_state
  | OpSetLease nat "'f lease_diag"
  | OpSummarize bool

text \<open>An update of a state happens through its owner, so only while the state is alive.\<close>

definition heap_set :: "nat \<Rightarrow> 'v \<Rightarrow> (nat \<rightharpoonup> 'v) \<Rightarrow> (nat \<rightharpoonup> 'v)" where
  "heap_set a v m = (if m a = None then m else m(a \<mapsto> v))"

fun dg_exec ::
  "((obj_ref \<rightharpoonup> wd_resource) \<Rightarrow> wd_resource list) \<Rightarrow> digest \<Rightarrow> (duration \<Rightarrow> 'f) \<Rightarrow> 'f dg_op \<Rightarrow>
   diagnostics \<times> 'f dg_heap \<Rightarrow> diagnostics \<times> 'f dg_heap" where
  "dg_exec vals sha secs (OpWatch now url sel) dh = snd (register_watch now url sel dh)"
| "dg_exec vals sha secs (OpLease now params) dh = snd (register_lease secs now params dh)"
| "dg_exec vals sha secs (OpDropWatch a) (d, h) = (d, drop_watch a h)"
| "dg_exec vals sha secs (OpDropLease a) (d, h) = (d, drop_lease a h)"
| "dg_exec vals sha secs (OpSetWatch a v) (d, h) = (d, h\<lparr>hp_watches := heap_set a v (hp_watches h)\<rparr>)"
| "dg_exec vals sha secs (OpSetLease a v) (d, h) = (d, h\<lparr>hp_leases := heap_set a v (hp_leases h)\<rparr>)"
| "dg_exec vals sha secs (OpSummarize r) (d, h) =
     (snd (summarize_leases h (snd (summarize_watches vals sha r h d))), h)"

text \<open>
  The invariant: the references are distinct and in the order of registration, below the next
  address, and every live state is registered.
\<close>

definition refs_ok :: "nat \<Rightarrow> nat list \<Rightarrow> (nat \<rightharpoonup> 'v) \<Rightarrow> bool" where
  "refs_ok next refs heap \<longleftrightarrow> sorted refs \<and> distinct refs \<and> (\<forall>a \<in> set refs. a < next) \<and> dom heap \<subseteq> set refs"

definition dg_inv :: "diagnostics \<times> 'f dg_heap \<Rightarrow> bool" where
  "dg_inv dh \<longleftrightarrow> refs_ok (hp_next (snd dh)) (dg_watches (fst dh)) (hp_watches (snd dh)) \<and>
     refs_ok (hp_next (snd dh)) (dg_leases (fst dh)) (hp_leases (snd dh))"

lemma refs_ok_push: "refs_ok n refs heap \<Longrightarrow> refs_ok (Suc n) (refs @ [n]) (heap(n \<mapsto> v))"
  by (auto simp: refs_ok_def sorted_append less_imp_le)

lemma refs_ok_Suc: "refs_ok n refs heap \<Longrightarrow> refs_ok (Suc n) refs heap"
  by (auto simp: refs_ok_def)

lemma refs_ok_drop: "refs_ok n refs heap \<Longrightarrow> refs_ok n refs (heap(a := None))"
  by (auto simp: refs_ok_def)

lemma refs_ok_set: "refs_ok n refs heap \<Longrightarrow> refs_ok n refs (heap_set a v heap)"
  by (auto simp: refs_ok_def heap_set_def)

lemma refs_ok_retain: "refs_ok n refs heap \<Longrightarrow> refs_ok n (retain_live heap refs) heap"
  by (auto simp: refs_ok_def retain_live_def sorted_wrt_filter)

lemma dg_exec_inv: "dg_inv dh \<Longrightarrow> dg_inv (dg_exec vals sha secs op dh)"
  by (cases "(vals, sha, secs, op, dh)" rule: dg_exec.cases)
    (auto simp: dg_inv_def register_watch_def register_lease_def drop_watch_def drop_lease_def
      summarize_watches_def summarize_leases_def Let_def split: prod.splits
      intro: refs_ok_push refs_ok_Suc refs_ok_drop refs_ok_set refs_ok_retain)

lemma dg_execs_inv: "dg_inv dh \<Longrightarrow> dg_inv (fold (dg_exec vals sha secs) ops dh)"
  by (rule fold_invariant[where Q = "\<lambda>_. True"]) (simp_all add: dg_exec_inv)

lemma retain_is_sorted_dom:
  assumes "refs_ok n refs heap"
  shows "retain_live heap refs = sorted_list_of_set (dom heap)"
proof (rule sorted_distinct_set_unique)
  show "set (retain_live heap refs) = set (sorted_list_of_set (dom heap))"
    using assms finite_subset[of "dom heap" "set refs"] by (auto simp: refs_ok_def retain_live_def)
qed (use assms in \<open>auto simp: refs_ok_def retain_live_def sorted_wrt_filter\<close>)

lemma filter_live: "(\<And>a. a \<in> set as \<Longrightarrow> heap a \<noteq> None) \<Longrightarrow> List.map_filter heap as = map (the \<circ> heap) as"
  by (induction as) (auto simp: List.map_filter_simps split: option.splits)

definition empty_heap :: "'f dg_heap" where
  "empty_heap = \<lparr>hp_watches = Map.empty, hp_leases = Map.empty, hp_next = 0\<rparr>"

lemma dg_inv_new: "dg_inv (dg_new now, empty_heap)"
  by (simp add: dg_inv_def refs_ok_def dg_new_def empty_heap_def)

subsection \<open>Properties\<close>

text \<open>
  C24. After any sequence of registrations, drops, updates and earlier reports, a report covers
  exactly the watches and leases that are still alive, in the order in which they were registered and
  with their current state, and the registry is left with no dead reference.
\<close>
theorem diagnostics_report_live:
  assumes "fold (dg_exec vals sha secs) ops (dg_new t0, empty_heap) = (d, h)"
  shows "fst (summarize_watches vals sha r h d) =
      map (wd_summary vals sha r \<circ> the \<circ> hp_watches h) (sorted_list_of_set (dom (hp_watches h))) \<and>
    fst (summarize_leases h d) = map (the \<circ> hp_leases h) (sorted_list_of_set (dom (hp_leases h))) \<and>
    dg_watches (snd (summarize_watches vals sha r h d)) = sorted_list_of_set (dom (hp_watches h)) \<and>
    dg_leases (snd (summarize_leases h d)) = sorted_list_of_set (dom (hp_leases h))"
proof -
  have w: "refs_ok (hp_next h) (dg_watches d) (hp_watches h)" and l: "refs_ok (hp_next h) (dg_leases d) (hp_leases h)"
    using dg_execs_inv[OF dg_inv_new[of t0], of vals sha secs ops] assms by (auto simp: dg_inv_def)
  have fin: "finite (dom (hp_watches h))" "finite (dom (hp_leases h))"
    using w l finite_subset by (auto simp: refs_ok_def)
  have "List.map_filter (hp_watches h) (sorted_list_of_set (dom (hp_watches h))) =
      map (the \<circ> hp_watches h) (sorted_list_of_set (dom (hp_watches h)))"
    "List.map_filter (hp_leases h) (sorted_list_of_set (dom (hp_leases h))) =
      map (the \<circ> hp_leases h) (sorted_list_of_set (dom (hp_leases h)))"
    using fin by (auto intro!: filter_live)
  then show ?thesis
    by (simp add: summarize_watches_def summarize_leases_def Let_def retain_is_sorted_dom[OF w]
        retain_is_sorted_dom[OF l] o_assoc)
qed

theorem diagnostics_report_live_witness:
  "let ops = [OpWatch 1 ''/pods'' None, OpWatch 2 ''/nodes'' None, OpSummarize False, OpDropWatch 0];
       (d, h) = fold (dg_exec vals_by_key (\<lambda>_. []) id) ops (dg_new 0, empty_heap)
   in map wsm_api_url (fst (summarize_watches vals_by_key (\<lambda>_. []) False h d)) = [''/nodes'']"
proof -
  let ?h = "\<lparr>hp_watches = [1 \<mapsto> wd_new 2 ''/nodes'' None], hp_leases = Map.empty, hp_next = 2\<rparr> :: nat dg_heap"
  let ?d = "\<lparr>dg_initial_time = 0, dg_watches = [0, 1], dg_leases = []\<rparr>"
  have run: "fold (dg_exec vals_by_key (\<lambda>_. []) id)
      [OpWatch 1 ''/pods'' None, OpWatch 2 ''/nodes'' None, OpSummarize False, OpDropWatch 0]
      (dg_new 0, empty_heap) = (?d, ?h)"
    by (simp add: dg_new_def empty_heap_def register_watch_def drop_watch_def summarize_watches_def
        summarize_leases_def retain_live_def Let_def fun_upd_twist)
  have "fst (summarize_watches vals_by_key (\<lambda>_. []) False ?h ?d) =
      [wd_summary vals_by_key (\<lambda>_. []) False (wd_new 2 ''/nodes'' None)]"
    using diagnostics_report_live[OF run, of False] by simp
  then show ?thesis
    unfolding Let_def run by (simp add: wd_summary_def Let_def wd_new_def[of 2])
qed

text \<open>
  The diagnostics are revealed only to loopback clients that use GET: every other request gets
  an answer without a body that is the same whatever is registered (405 with the allowed method, or
  403), and leaves the registry unchanged.
\<close>
theorem diagnostics_only_loopback:
  assumes "hq_method req \<noteq> GET \<or> \<not> is_loopback client_addr"
  shows "\<exists>resp. hs_body resp = [] \<and>
    resp = (if hq_method req \<noteq> GET then empty_response http_method_not_allowed [(''allow'', ''GET'')]
            else empty_response http_forbidden []) \<and>
    (\<forall>h d. dg_handle vals sha to_json now is_loopback client_addr req h d = (resp, d))"
  using assms by (auto simp: dg_handle_def empty_response_def)

theorem diagnostics_only_loopback_witness:
  "\<exists>resp. hs_body resp = [] \<and> hs_status resp = 403 \<and>
     (\<forall>h d. dg_handle vals_by_key (\<lambda>_. []) (\<lambda>s :: nat dg_summary. Inr ''secret'' :: unit + string) 0
        (\<lambda>a. a = ''127.0.0.1'') ''10.0.0.7''
        \<lparr>hq_method = GET, hq_path = ''/kubert.json'', hq_query = Some ''resources''\<rparr> h d = (resp, d))"
  using diagnostics_only_loopback[of "\<lparr>hq_method = GET, hq_path = ''/kubert.json'', hq_query = Some ''resources''\<rparr>"
      "\<lambda>a. a = ''127.0.0.1''" "''10.0.0.7''" vals_by_key "\<lambda>_. []"
      "\<lambda>s :: nat dg_summary. Inr ''secret'' :: unit + string" 0]
  by (auto simp: empty_response_def)

end
