(* ===== verification/Admin.thy ===== *)
theory Admin
  imports Diagnostics
begin

text \<open>
  \<open>kubert/src/admin.rs\<close> and \<open>kubert/src/admin/metrics.rs\<close>: the admin server's builder,
  its routes and its probes. The readiness flag is an atomic cell that the builder, the server and
  their clients share; it is part of the state passed along. The network and the encoding of metrics
  are parameters.
\<close>

text \<open>A handler runs in a blocking task; \<open>None\<close> is a panic of the handler.\<close>

type_synonym handler = "http_request \<Rightarrow> http_response option"

record 'addr admin_args =
  aa_admin_addr :: "'addr"

record 'addr admin_builder =
  ab_addr :: "'addr"
  ab_ready :: bool
  ab_routes :: "string \<rightharpoonup> handler"
  ab_diagnostics :: diagnostics

record ('addr, 'l) admin_bound =
  ad_addr :: "'addr"
  ad_ready :: bool
  ad_listener :: "'l"
  ad_routes :: "string \<rightharpoonup> handler"
  ad_diagnostics :: diagnostics

record 'addr admin_server =
  as_addr :: "'addr"
  as_ready :: bool

subsection \<open>The builder\<close>

text \<open>Addresses: an IPv4 address and a port.\<close>

type_synonym socket_addr = "(8 word \<times> 8 word \<times> 8 word \<times> 8 word) \<times> 16 word"

definition admin_args_default :: "socket_addr admin_args" where
  "admin_args_default = \<lparr>aa_admin_addr = ((0, 0, 0, 0), 8080)\<rparr>"

definition builder_new :: "timestamp \<Rightarrow> 'addr \<Rightarrow> 'addr admin_builder" where
  "builder_new now addr = \<lparr>ab_addr = addr, ab_ready = False, ab_routes = Map.empty, ab_diagnostics = dg_new now\<rparr>"

definition into_builder :: "timestamp \<Rightarrow> 'addr admin_args \<Rightarrow> 'addr admin_builder" where
  "into_builder now args = builder_new now (aa_admin_addr args)"

definition builder_default :: "timestamp \<Rightarrow> socket_addr admin_builder" where
  "builder_default now = into_builder now admin_args_default"

text \<open>
  \<open>Readiness\<close> is one shared boolean: \<open>get\<close> reads it, \<open>set\<close> replaces it, and every handle is a
  reference to the flag of the server.
\<close>

definition readiness_get :: "bool \<Rightarrow> bool" where
  [simp]: "readiness_get flag = flag"

definition readiness_set :: "bool \<Rightarrow> bool \<Rightarrow> bool" where
  [simp]: "readiness_set ready flag = ready"

definition builder_set_ready :: "'addr admin_builder \<Rightarrow> 'addr admin_builder" where
  "builder_set_ready b = b\<lparr>ab_ready := readiness_set True (ab_ready b)\<rparr>"

text \<open>\<open>with_handler\<close> panics (\<open>None\<close>) on the paths of the probes.\<close>

definition with_handler :: "string \<Rightarrow> handler \<Rightarrow> 'addr admin_builder \<Rightarrow> 'addr admin_builder option" where
  "with_handler path handler b =
     (if path = ''/ready'' then None
      else if path = ''/live'' then None
      else Some (b\<lparr>ab_routes := (ab_routes b)(path \<mapsto> handler)\<rparr>))"

text \<open>\<open>handle_metrics\<close> over a registry that \<open>encode\<close> renders as text.\<close>

definition handle_metrics :: "('reg \<Rightarrow> 'e + string) \<Rightarrow> 'reg \<Rightarrow> handler" where
  "handle_metrics encode registry req =
     Some (if hq_method req \<notin> {GET, HEAD} then empty_response http_method_not_allowed [(''allow'', ''GET, HEAD'')]
           else (case encode registry of
                   Inl e \<Rightarrow> empty_response http_internal_server_error []
                 | Inr body \<Rightarrow>
                     \<lparr>hs_status = http_ok,
                      hs_headers = [(''content-type'', ''application/openmetrics-text; version=1.0.0; charset=utf-8'')],
                      hs_body = body\<rparr>))"

definition with_prometheus_handler ::
  "('reg \<Rightarrow> 'e + string) \<Rightarrow> string \<Rightarrow> 'reg \<Rightarrow> 'addr admin_builder \<Rightarrow> 'addr admin_builder option" where
  "with_prometheus_handler encode path registry b = with_handler path (handle_metrics encode registry) b"

text \<open>
  \<open>with_prometheus\<close>: registers the Tokio metrics in a build with \<open>tokio_unstable\<close>, then
  the process metrics; a failure of the latter is only logged, and leaves what was registered so far.
\<close>

definition with_prometheus ::
  "('reg \<Rightarrow> 'e + string) \<Rightarrow> bool \<Rightarrow> ('reg \<Rightarrow> 'reg) \<Rightarrow> ('reg \<Rightarrow> ('e2 + unit) \<times> 'reg) \<Rightarrow> 'reg \<Rightarrow>
   'addr admin_builder \<Rightarrow> 'addr admin_builder option" where
  "with_prometheus encode tokio_unstable register_tokio register_process registry b =
     (let registry = (if tokio_unstable then register_tokio registry else registry);
          registry = snd (register_process registry)
      in with_prometheus_handler encode ''/metrics'' registry b)"

subsection \<open>Binding and serving\<close>

record ('addr, 'l, 'e) tcp_api =
  tcp_bind :: "'addr \<Rightarrow> 'e + 'l"
  tcp_set_nonblocking :: "'l \<Rightarrow> 'e + 'l"
  tcp_from_std :: "'l \<Rightarrow> 'e + 'l"
  tcp_local_addr :: "'l \<Rightarrow> 'addr"

definition admin_bind :: "('addr, 'l, 'e) tcp_api \<Rightarrow> 'addr admin_builder \<Rightarrow> 'e + ('addr, 'l) admin_bound" where
  "admin_bind T b =
     sum_bind (tcp_bind T (ab_addr b)) (\<lambda>lis.
     sum_bind (tcp_set_nonblocking T lis) (\<lambda>lis.
     sum_bind (tcp_from_std T lis) (\<lambda>listener.
       Inr \<lparr>ad_addr = ab_addr b, ad_ready = ab_ready b, ad_listener = listener, ad_routes = ab_routes b,
            ad_diagnostics = ab_diagnostics b\<rparr>)))"

definition bound_set_ready :: "('addr, 'l) admin_bound \<Rightarrow> ('addr, 'l) admin_bound" where
  "bound_set_ready b = b\<lparr>ad_ready := readiness_set True (ad_ready b)\<rparr>"

definition admin_spawn :: "('addr, 'l) admin_bound \<Rightarrow> 'addr admin_server" where
  "admin_spawn b = \<lparr>as_addr = ad_addr b, as_ready = ad_ready b\<rparr>"

definition server_local_addr :: "'addr admin_server \<Rightarrow> 'addr" where
  "server_local_addr s = as_addr s"

text \<open>The accept loop: every accepted connection is served on a task of its own, an error is skipped.\<close>

fun admin_accept :: "('e + 'conn) list \<Rightarrow> 'conn list" where
  "admin_accept [] = []"
| "admin_accept (Inl e # rest) = admin_accept rest"
| "admin_accept (Inr conn # rest) = conn # admin_accept rest"

subsection \<open>Requests\<close>

definition handle_live :: "http_request \<Rightarrow> http_response" where
  "handle_live req =
     (if hq_method req \<in> {GET, HEAD}
      then \<lparr>hs_status = http_ok, hs_headers = [(''content-type'', ''text/plain'')], hs_body = ''alive\<newline>''\<rparr>
      else empty_response http_method_not_allowed [(''allow'', ''GET, HEAD'')])"

definition handle_ready :: "bool \<Rightarrow> http_request \<Rightarrow> http_response" where
  "handle_ready ready req =
     (if hq_method req \<in> {GET, HEAD}
      then if ready
        then \<lparr>hs_status = http_ok, hs_headers = [(''content-type'', ''text/plain'')], hs_body = ''ready\<newline>''\<rparr>
        else \<lparr>hs_status = http_internal_server_error, hs_headers = [(''content-type'', ''text/plain'')],
              hs_body = ''not ready\<newline>''\<rparr>
      else empty_response http_method_not_allowed [(''allow'', ''GET, HEAD'')])"

text \<open>
  \<open>handle\<close>, with the diagnostics' handler as an argument; \<open>None\<close> stands for a build
  without diagnostics. The error is a panic of the handler's blocking task (\<open>JoinError\<close>).
\<close>

datatype join_error = JoinError

definition admin_handle ::
  "bool \<Rightarrow> (string \<rightharpoonup> handler) \<Rightarrow> (http_request \<Rightarrow> http_response) option \<Rightarrow> http_request \<Rightarrow> join_error + http_response" where
  "admin_handle ready routes diag req =
     (if hq_path req = ''/live'' then Inr (handle_live req)
      else if hq_path req = ''/ready'' then Inr (handle_ready ready req)
      else if hq_path req = ''/kubert.json'' \<and> diag \<noteq> None then Inr (the diag req)
      else (case routes (hq_path req) of
              Some handler \<Rightarrow> (case handler req of None \<Rightarrow> Inl JoinError | Some resp \<Rightarrow> Inr resp)
            | None \<Rightarrow> Inr (empty_response http_not_found [])))"

subsection \<open>Properties\<close>

abbreviation with_handlers :: "(string \<times> handler) list \<Rightarrow> 'addr admin_builder \<Rightarrow> 'addr admin_builder option" where
  "with_handlers hs \<equiv> fold_opt (\<lambda>(path, handler). with_handler path handler) hs"

definition probe_paths :: "string set" where
  "probe_paths = {''/ready'', ''/live''}"

lemma with_handlers_panic:
  "\<exists>ph \<in> set hs. fst ph \<in> probe_paths \<Longrightarrow> with_handlers hs b = None"
  by (induction hs arbitrary: b) (auto simp: with_handler_def probe_paths_def split: Option.bind_splits)

lemma with_handlers_ok:
  "\<forall>ph \<in> set hs. fst ph \<notin> probe_paths \<Longrightarrow>
   with_handlers hs b = Some (b\<lparr>ab_routes := ab_routes b ++ map_of (rev hs)\<rparr>)"
  by (induction hs arbitrary: b) (auto simp: with_handler_def probe_paths_def)


definition hello :: handler where
  "hello req = Some \<lparr>hs_status = 200, hs_headers = [], hs_body = ''hello''\<rparr>"


text \<open>
  A handler for \<open>/kubert.json\<close> is accepted by \<open>with_handler\<close> but never called in a
  build with diagnostics: every request for that path goes to the diagnostics.
\<close>
theorem kubert_json_handler_shadowed:
  "\<exists>b'. with_handler ''/kubert.json'' handler b = Some b' \<and> ab_routes b' ''/kubert.json'' = Some handler \<and>
     admin_handle ready (ab_routes b') (Some diag) \<lparr>hq_method = m, hq_path = ''/kubert.json'', hq_query = q\<rparr> =
       Inr (diag \<lparr>hq_method = m, hq_path = ''/kubert.json'', hq_query = q\<rparr>)"
  by (simp add: with_handler_def admin_handle_def)

text \<open>
  The address a running server reports is the one it was configured with, not the one it is
  bound to: with port 0 the port that the system chose is not reported.
\<close>
theorem admin_local_addr_is_configured:
  assumes "admin_bind T b = Inr bound"
  shows "server_local_addr (admin_spawn bound) = ab_addr b"
  using assms by (auto simp: admin_bind_def sum_bind_Inr server_local_addr_def admin_spawn_def split: sum.splits)

text \<open>A network whose listeners for port 0 get port 40000.\<close>

definition demo_tcp :: "(nat, nat, unit) tcp_api" where
  "demo_tcp = \<lparr>tcp_bind = (\<lambda>port. Inr (if port = 0 then 40000 else port)), tcp_set_nonblocking = Inr,
     tcp_from_std = Inr, tcp_local_addr = id\<rparr>"

theorem admin_local_addr_is_configured_witness:
  "\<exists>bound. admin_bind demo_tcp (builder_new 0 0) = Inr bound \<and> tcp_local_addr demo_tcp (ad_listener bound) = 40000 \<and>
     server_local_addr (admin_spawn bound) = 0"
proof -
  obtain bound where b: "admin_bind demo_tcp (builder_new 0 0) = Inr bound" "tcp_local_addr demo_tcp (ad_listener bound) = 40000"
    by (simp add: admin_bind_def demo_tcp_def builder_new_def)
  with admin_local_addr_is_configured[OF b(1)] show ?thesis by (simp add: builder_new_def)
qed

end
