(* ===== verification/Server.thy ===== *)
theory Server
  imports Admin Shutdown
begin

text \<open>
  \<open>kubert/src/server.rs\<close>, \<open>kubert/src/server/tls_rustls.rs\<close> and
  \<open>kubert/src/server/tls_openssl.rs\<close>: the HTTPS server. The TLS libraries, the PEM parsers, the
  file system and the network are parameters; the build features select the library.
\<close>

subsection \<open>Credentials\<close>

type_synonym path = string

record ('addr) server_args =
  sa_server_addr :: "'addr"
  sa_server_tls_key :: "path option"
  sa_server_tls_certs :: "path option"

datatype ('addr, 'e) server_error =
    NoTlsKey
  | NoTlsCerts
  | TlsCertsReadError 'e
  | TlsKeyReadError 'e
  | InvalidTlsCredentials 'e
  | BindErr 'addr 'e
  | LocalAddrErr 'e

text \<open>The two errors \<open>load_private_key\<close> makes itself, besides the ones it passes on.\<close>

datatype 'e key_error = IoError 'e | NoPrivateKey | TooManyPrivateKeys

text \<open>
  \<open>rustls\<close>: the PEM parsers yield the keys or certificates of a file one by one, or an error;
  \<open>collect\<close> stops at the first error.
\<close>

record ('key, 'cert, 'acc, 'e) rustls_api =
  rl_read :: "path \<Rightarrow> 'e + string"
  rl_pkcs8_keys :: "string \<Rightarrow> ('e + 'key) list"
  rl_rsa_keys :: "string \<Rightarrow> ('e + 'key) list"
  rl_certs :: "string \<Rightarrow> ('e + 'cert) list"
  rl_single_cert :: "'cert list \<Rightarrow> 'key \<Rightarrow> string list \<Rightarrow> 'e + 'acc"

fun collect_results :: "('e + 'a) list \<Rightarrow> 'e + 'a list" where
  "collect_results [] = Inr []"
| "collect_results (Inl e # rs) = Inl e"
| "collect_results (Inr x # rs) = (case collect_results rs of Inl e \<Rightarrow> Inl e | Inr xs \<Rightarrow> Inr (x # xs))"

definition rustls_load_private_key :: "('key, 'cert, 'acc, 'e) rustls_api \<Rightarrow> path \<Rightarrow> 'e key_error + 'key" where
  "rustls_load_private_key R kp =
     sum_bind (map_err IoError (rl_read R kp)) (\<lambda>pem.
     sum_bind (map_err IoError (collect_results (rl_pkcs8_keys R pem))) (\<lambda>keys.
     sum_bind (if keys = [] then map_err IoError (collect_results (rl_rsa_keys R pem)) else Inr keys) (\<lambda>keys.
       if keys = [] then Inl NoPrivateKey
       else if butlast keys \<noteq> [] then Inl TooManyPrivateKeys
       else Inr (last keys))))"

definition rustls_load_certs :: "('key, 'cert, 'acc, 'e) rustls_api \<Rightarrow> path \<Rightarrow> 'e + 'cert list" where
  "rustls_load_certs R cp = sum_bind (rl_read R cp) (\<lambda>pem. collect_results (rl_certs R pem))"

definition rustls_load_tls ::
  "('key, 'cert, 'acc, 'e) rustls_api \<Rightarrow> path \<Rightarrow> path \<Rightarrow> ('addr, 'e key_error) server_error + 'acc" where
  "rustls_load_tls R pk crts =
     sum_bind (map_err TlsKeyReadError (rustls_load_private_key R pk)) (\<lambda>key.
     sum_bind (map_err (TlsCertsReadError \<circ> IoError) (rustls_load_certs R crts)) (\<lambda>certs.
       map_err (InvalidTlsCredentials \<circ> IoError) (rl_single_cert R certs key [''h2'', ''http/1.1''])))"

text \<open>
  \<open>openssl\<close>: \<open>configure\<close> builds the acceptor from an initial one; indexing the
  first of no certificates panics (\<open>None\<close>).
\<close>

record ('key, 'cert, 'acc, 'e) openssl_api =
  os_read :: "path \<Rightarrow> 'e + string"
  os_private_key :: "string \<Rightarrow> 'e + 'key"
  os_stack :: "string \<Rightarrow> 'e + 'cert list"
  os_mozilla_intermediate_v5 :: "'e + 'acc"
  os_set_verify_none :: "'acc \<Rightarrow> 'acc"
  os_set_private_key :: "'key \<Rightarrow> 'acc \<Rightarrow> 'e + 'acc"
  os_set_certificate :: "'cert \<Rightarrow> 'acc \<Rightarrow> 'e + 'acc"
  os_add_extra_chain_cert :: "'cert \<Rightarrow> 'acc \<Rightarrow> 'e + 'acc"
  os_set_alpn_protos :: "8 word list \<Rightarrow> 'acc \<Rightarrow> 'e + 'acc"

text \<open>
  The wire format of the protocol list: each name with its length in one byte. \<open>None\<close> is the
  failed \<open>debug_assert!\<close> of a debug build; \<open>as u8\<close> truncates.
\<close>

fun alpn_encode :: "bool \<Rightarrow> 8 word list list \<Rightarrow> 8 word list option" where
  "alpn_encode dbg [] = Some []"
| "alpn_encode dbg (p # ps) =
     (if p = [] then alpn_encode dbg ps
      else if dbg \<and> 255 < length p then None
      else map_option (\<lambda>bytes. word_of_nat (length p) # p @ bytes) (alpn_encode dbg ps))"

definition bytes_of :: "string \<Rightarrow> 8 word list" where
  "bytes_of s = map (\<lambda>c. of_nat (of_char c)) s"

definition alpn_protocols :: "bool \<Rightarrow> 8 word list option" where
  "alpn_protocols dbg = alpn_encode dbg [bytes_of ''h2'', bytes_of ''http/1.1'']"

fun add_chain :: "('key, 'cert, 'acc, 'e) openssl_api \<Rightarrow> 'cert list \<Rightarrow> 'acc \<Rightarrow> 'e + 'acc" where
  "add_chain O1 [] acc = Inr acc"
| "add_chain O1 (c # cs) acc = sum_bind (os_add_extra_chain_cert O1 c acc) (add_chain O1 cs)"

definition openssl_configure ::
  "bool \<Rightarrow> ('key, 'cert, 'acc, 'e) openssl_api \<Rightarrow> 'key \<Rightarrow> 'cert list \<Rightarrow> ('e + 'acc) option" where
  "openssl_configure dbg O1 key certs =
     (case sum_bind (os_mozilla_intermediate_v5 O1) (\<lambda>conn. os_set_private_key O1 key (os_set_verify_none O1 conn)) of
        Inl e \<Rightarrow> Some (Inl e)
      | Inr conn \<Rightarrow>
          (case certs of
             [] \<Rightarrow> None
           | c # cs \<Rightarrow>
               (case sum_bind (os_set_certificate O1 c conn) (add_chain O1 cs) of
                  Inl e \<Rightarrow> Some (Inl e)
                | Inr conn \<Rightarrow> map_option (\<lambda>protos. os_set_alpn_protos O1 protos conn) (alpn_protocols dbg))))"

definition openssl_load_certs :: "('key, 'cert, 'acc, 'e) openssl_api \<Rightarrow> path \<Rightarrow> 'e + 'cert list" where
  "openssl_load_certs O1 cp = sum_bind (os_read O1 cp) (os_stack O1)"

definition openssl_load_private_key :: "('key, 'cert, 'acc, 'e) openssl_api \<Rightarrow> path \<Rightarrow> 'e + 'key" where
  "openssl_load_private_key O1 kp = sum_bind (os_read O1 kp) (os_private_key O1)"

definition openssl_load_tls ::
  "bool \<Rightarrow> ('key, 'cert, 'acc, 'e) openssl_api \<Rightarrow> path \<Rightarrow> path \<Rightarrow> (('addr, 'e key_error) server_error + 'acc) option" where
  "openssl_load_tls dbg O1 pk crts =
     (case sum_bind (map_err (TlsKeyReadError \<circ> IoError) (openssl_load_private_key O1 pk)) (\<lambda>key.
           map_err (TlsCertsReadError \<circ> IoError) (map_sum id (\<lambda>certs. (key, certs)) (openssl_load_certs O1 crts))) of
        Inl e \<Rightarrow> Some (Inl e)
      | Inr (key, certs) \<Rightarrow> map_option (map_err (InvalidTlsCredentials \<circ> IoError)) (openssl_configure dbg O1 key certs))"

subsection \<open>Binding\<close>

text \<open>
  The TLS library of the build: with both features, or with \<open>rustls-tls\<close> only, it is
  rustls.
\<close>

record tls_features =
  ft_rustls :: bool
  ft_openssl :: bool

definition load_tls ::
  "bool \<Rightarrow> tls_features \<Rightarrow> ('k1, 'c1, 'acc, 'e) rustls_api \<Rightarrow> ('k2, 'c2, 'acc, 'e) openssl_api \<Rightarrow> path \<Rightarrow> path \<Rightarrow>
   (('addr, 'e key_error) server_error + 'acc) option option" where
  "load_tls dbg F R O1 key certs =
     (if ft_rustls F then Some (Some (rustls_load_tls R key certs))
      else if ft_openssl F then Some (openssl_load_tls dbg O1 key certs)
      else None)"

record ('addr, 'l) server_bound =
  sb_local_addr :: "'addr"
  sb_tcp :: "'l"
  sb_key :: path
  sb_certs :: path

text \<open>The result of \<open>bind\<close>; \<open>None\<close> is a panic while loading the credentials.\<close>

definition server_bind ::
  "bool \<Rightarrow> tls_features \<Rightarrow> ('k1, 'c1, 'acc, 'e) rustls_api \<Rightarrow> ('k2, 'c2, 'acc, 'e) openssl_api \<Rightarrow>
   ('addr \<Rightarrow> 'e + 'l) \<Rightarrow> ('l \<Rightarrow> 'e + 'addr) \<Rightarrow> 'addr server_args \<Rightarrow>
   (('addr, 'e key_error) server_error + ('addr, 'l) server_bound) option" where
  "server_bind dbg F R O1 bind_tcp local_addr args =
     (case (sa_server_tls_key args, sa_server_tls_certs args) of
        (None, _) \<Rightarrow> Some (Inl NoTlsKey)
      | (Some key, None) \<Rightarrow> Some (Inl NoTlsCerts)
      | (Some key, Some certs) \<Rightarrow>
          (case load_tls dbg F R O1 key certs of
             Some None \<Rightarrow> None
           | Some (Some (Inl e)) \<Rightarrow> Some (Inl e)
           | _ \<Rightarrow>
               Some (sum_bind (map_err (BindErr (sa_server_addr args) \<circ> IoError) (bind_tcp (sa_server_addr args))) (\<lambda>tcp.
                     sum_bind (map_err (LocalAddrErr \<circ> IoError) (local_addr tcp)) (\<lambda>addr.
                       Inr \<lparr>sb_local_addr = addr, sb_tcp = tcp, sb_key = key, sb_certs = certs\<rparr>)))))"

subsection \<open>Accepting and serving connections\<close>

text \<open>
  What the accept loop's \<open>select!\<close> yields: the shutdown signal, which is looked at first, an
  error, or a socket with the outcomes of \<open>set_nodelay\<close> and \<open>peer_addr\<close>. The loop ends at
  the signal and otherwise goes on; the result is the sockets given to a \<open>serve_conn\<close> task.
\<close>

record 'sock accepted =
  ac_socket :: "'sock"
  ac_nodelay_ok :: bool
  ac_peer_ok :: bool

datatype 'sock accept_event = DrainSignaled | AcceptFailed | AcceptedConn "'sock accepted"

fun accept_loop :: "'sock accept_event list \<Rightarrow> 'sock list" where
  "accept_loop [] = []"
| "accept_loop (DrainSignaled # evs) = []"
| "accept_loop (AcceptFailed # evs) = accept_loop evs"
| "accept_loop (AcceptedConn a # evs) =
     (if \<not> ac_nodelay_ok a then accept_loop evs
      else if \<not> ac_peer_ok a then accept_loop evs
      else ac_socket a # accept_loop evs)"

text \<open>
  \<open>serve_conn\<close> up to the HTTP connection: the credentials are loaded anew and the TLS handshake
  is done with them. \<open>None\<close> is a panic; without a TLS feature every connection fails.
\<close>

datatype 'stream conn_start = ConnFailed | HandshakeFailed | Serving 'stream

definition serve_conn_start ::
  "bool \<Rightarrow> tls_features \<Rightarrow> ('k1, 'c1, 'acc, 'e) rustls_api \<Rightarrow> ('k2, 'c2, 'acc, 'e) openssl_api \<Rightarrow>
   ('acc \<Rightarrow> 'sock \<Rightarrow> 'e + 'stream) \<Rightarrow> path \<Rightarrow> path \<Rightarrow> 'sock \<Rightarrow> 'stream conn_start option" where
  "serve_conn_start dbg F R O1 accept_tls key certs socket =
     (case (load_tls dbg F R O1 key certs :: ((unit, 'e key_error) server_error + 'acc) option option) of
        None \<Rightarrow> Some ConnFailed
      | Some None \<Rightarrow> None
      | Some (Some (Inl e)) \<Rightarrow> Some ConnFailed
      | Some (Some (Inr tls)) \<Rightarrow>
          Some (case accept_tls tls socket of Inl e \<Rightarrow> HandshakeFailed | Inr stream \<Rightarrow> Serving stream))"

text \<open>
  \<open>Bound::spawn\<close> and the handle it returns. The accept task looks at the drain first and then
  polls the listener (\<open>Polled\<close>), ends when the drain is signaled, or is aborted.
\<close>

datatype accept_phase = Idle | Polled | AcceptEnded | AcceptAborted

record 'addr spawned_server =
  sps_local_addr :: "'addr"
  sps_task :: accept_phase

definition server_spawn :: "('addr, 'l) server_bound \<Rightarrow> 'addr spawned_server" where
  "server_spawn b = \<lparr>sps_local_addr = sb_local_addr b, sps_task = Idle\<rparr>"

definition spawned_abort :: "accept_phase \<Rightarrow> accept_phase" where
  "spawned_abort ph = (if ph = AcceptEnded then AcceptEnded else AcceptAborted)"

datatype join_error = Cancelled

definition spawned_join :: "accept_phase \<Rightarrow> (join_error + unit) poll" where
  "spawned_join ph = (case ph of AcceptEnded \<Rightarrow> Ready (Inr ()) | AcceptAborted \<Rightarrow> Ready (Inl Cancelled) | _ \<Rightarrow> Pending)"

text \<open>
  The tasks of a spawned server together. The accept task gives each connection to a
  \<open>serve_conn\<close> task with a drain watch of its own. That task loads the credentials and does the
  handshake, ends if this fails or panics (\<open>serve_conn_start\<close>), and otherwise lets the HTTP connection run
  on a task of its own, where it closes by itself or when it is told to shut down; then it waits for
  the signal, for the connection to end, and releases its watch. \<open>cn_served\<close> records that
  the handshake was done, \<open>ss_late\<close> counts the connections accepted after the signal: a signal may
  arrive between the two polls of the accept task.
\<close>

datatype conn_task = Handshake | AwaitDrain | AwaitClose | Released

record conn_state =
  cn_task :: conn_task
  cn_open :: bool
  cn_served :: bool

record server_state =
  ss_signaled :: bool
  ss_accept :: accept_phase
  ss_conns :: "conn_state list"
  ss_late :: nat

abbreviation set_conn :: "nat \<Rightarrow> (conn_state \<Rightarrow> conn_state) \<Rightarrow> server_state \<Rightarrow> server_state" where
  "set_conn i f s \<equiv> s\<lparr>ss_conns := (ss_conns s)[i := f (ss_conns s ! i)]\<rparr>"

inductive server_step :: "server_state \<Rightarrow> server_state \<Rightarrow> bool" where
  poll_drain: "ss_accept s = Idle \<Longrightarrow> \<not> ss_signaled s \<Longrightarrow> server_step s (s\<lparr>ss_accept := Polled\<rparr>)"
| not_accepted: "ss_accept s = Polled \<Longrightarrow> server_step s (s\<lparr>ss_accept := Idle\<rparr>)"
| accepted: "ss_accept s = Polled \<Longrightarrow>
    server_step s (s\<lparr>ss_accept := Idle, ss_conns := ss_conns s @ [\<lparr>cn_task = Handshake, cn_open = True, cn_served = False\<rparr>],
      ss_late := ss_late s + of_bool (ss_signaled s)\<rparr>)"
| drained: "ss_accept s = Idle \<Longrightarrow> ss_signaled s \<Longrightarrow> server_step s (s\<lparr>ss_accept := AcceptEnded\<rparr>)"
| abort: "server_step s (s\<lparr>ss_accept := spawned_abort (ss_accept s)\<rparr>)"
| signal: "server_step s (s\<lparr>ss_signaled := True\<rparr>)"
| refused: "i < length (ss_conns s) \<Longrightarrow> cn_task (ss_conns s ! i) = Handshake \<Longrightarrow>
    server_step s (set_conn i (\<lambda>c. c\<lparr>cn_task := Released, cn_open := False\<rparr>) s)"
| serving: "i < length (ss_conns s) \<Longrightarrow> cn_task (ss_conns s ! i) = Handshake \<Longrightarrow>
    server_step s (set_conn i (\<lambda>c. c\<lparr>cn_task := AwaitDrain, cn_served := True\<rparr>) s)"
| close: "i < length (ss_conns s) \<Longrightarrow> cn_served (ss_conns s ! i) \<Longrightarrow>
    server_step s (set_conn i (\<lambda>c. c\<lparr>cn_open := False\<rparr>) s)"
| latch: "i < length (ss_conns s) \<Longrightarrow> cn_task (ss_conns s ! i) = AwaitDrain \<Longrightarrow> ss_signaled s \<Longrightarrow>
    server_step s (set_conn i (\<lambda>c. c\<lparr>cn_task := AwaitClose\<rparr>) s)"
| release: "i < length (ss_conns s) \<Longrightarrow> cn_task (ss_conns s ! i) = AwaitClose \<Longrightarrow> \<not> cn_open (ss_conns s ! i) \<Longrightarrow>
    server_step s (set_conn i (\<lambda>c. c\<lparr>cn_task := Released\<rparr>) s)"

definition server_start :: "'addr spawned_server \<Rightarrow> server_state" where
  "server_start sp = \<lparr>ss_signaled = False, ss_accept = sps_task sp, ss_conns = [], ss_late = 0\<rparr>"

text \<open>The drain watches of the server: that of the accept task and that of every live \<open>serve_conn\<close> task.\<close>

definition server_watches :: "server_state \<Rightarrow> nat" where
  "server_watches s = of_bool (spawned_join (ss_accept s) = Pending) + length (filter (\<lambda>c. cn_task c \<noteq> Released) (ss_conns s))"

definition conn_inv :: "bool \<Rightarrow> conn_state \<Rightarrow> bool" where
  "conn_inv sig c \<longleftrightarrow> (cn_task c = Released \<longrightarrow> \<not> cn_open c) \<and> (cn_task c = Handshake \<longrightarrow> \<not> cn_served c) \<and>
     (cn_task c = AwaitDrain \<longrightarrow> cn_served c) \<and> (cn_task c = AwaitClose \<longrightarrow> sig \<and> cn_served c) \<and>
     (cn_served c \<and> \<not> sig \<longrightarrow> cn_task c = AwaitDrain)"

definition server_inv :: "server_state \<Rightarrow> bool" where
  "server_inv s \<longleftrightarrow> (\<forall>c \<in> set (ss_conns s). conn_inv (ss_signaled s) c) \<and>
     ss_late s + of_bool (ss_signaled s \<and> ss_accept s = Polled) \<le> of_bool (ss_signaled s)"

lemma conn_inv_signal: "conn_inv sig c \<Longrightarrow> conn_inv True c"
  by (cases "cn_task c") (simp_all add: conn_inv_def)

lemma conn_inv_start: "conn_inv sig \<lparr>cn_task = Handshake, cn_open = True, cn_served = False\<rparr>"
  by (simp add: conn_inv_def)

lemma conn_inv_update:
  assumes "server_inv s" and "conn_inv (ss_signaled s) (ss_conns s ! i) \<Longrightarrow> conn_inv (ss_signaled s) (f (ss_conns s ! i))"
    and "i < length (ss_conns s)"
  shows "server_inv (set_conn i f s)"
proof -
  have "conn_inv (ss_signaled s) c" if "c \<in> set ((ss_conns s)[i := f (ss_conns s ! i)])" for c
    using that assms set_update_subset_insert[of "ss_conns s" i] by (auto simp: server_inv_def)
  then show ?thesis using assms(1) by (simp add: server_inv_def)
qed

lemma server_step_inv:
  assumes "server_step s t" and "server_inv s"
  shows "server_inv t"
  using assms
proof (induction rule: server_step.induct)
  case (signal s)
  then show ?case by (auto simp: server_inv_def of_bool_def intro: conn_inv_signal split: if_splits)
next
  case (refused i s)
  then show ?case by - (rule conn_inv_update, auto simp: conn_inv_def)
next
  case (serving i s)
  then show ?case by - (rule conn_inv_update, auto simp: conn_inv_def)
next
  case (close i s)
  then show ?case by - (rule conn_inv_update, auto simp: conn_inv_def)
next
  case (latch i s)
  then show ?case by - (rule conn_inv_update, auto simp: conn_inv_def)
next
  case (release i s)
  then show ?case by - (rule conn_inv_update, auto simp: conn_inv_def)
qed (auto simp: server_inv_def conn_inv_start spawned_abort_def split: if_splits)

lemma server_reachable_inv:
  assumes "server_step\<^sup>*\<^sup>* (server_start (server_spawn b)) s"
  shows "server_inv s"
  using assms
proof (induction rule: rtranclp_induct)
  case base
  then show ?case by (simp add: server_inv_def server_start_def server_spawn_def)
qed (rule server_step_inv)

lemma server_inv_closed:
  assumes "server_inv s" and "server_watches s = 0" and "c \<in> set (ss_conns s)"
  shows "\<not> cn_open c"
proof -
  have "cn_task c = Released" using assms(2,3) by (simp add: server_watches_def filter_empty_conv)
  moreover have "conn_inv (ss_signaled s) c" using assms(1,3) by (simp add: server_inv_def)
  ultimately show ?thesis by (simp add: conn_inv_def)
qed

subsection \<open>Properties\<close>

text \<open>The inverse of the encoding: length-prefixed names.\<close>

function alpn_decode :: "8 word list \<Rightarrow> 8 word list list option" where
  "alpn_decode [] = Some []"
| "alpn_decode (n # bs) =
     (if unat n = 0 \<or> length bs < unat n then None
      else map_option ((#) (take (unat n) bs)) (alpn_decode (drop (unat n) bs)))"
  by pat_completeness auto

termination by (relation "measure length") (auto simp: less_Suc_eq_le)

text \<open>
  The ALPN list sent to OpenSSL decodes to the non-empty protocol names it was made from, as long
  as no name is longer than 255 bytes; so no name is cut, merged or reordered. For the two protocols of
  the server the encoding is the expected byte string, in debug and release builds.
\<close>
theorem alpn_roundtrip:
  assumes "\<forall>p \<in> set ps. length p \<le> 255"
  shows "Option.bind (alpn_encode dbg ps) alpn_decode = Some (filter (\<lambda>p. p \<noteq> []) ps) \<and>
    alpn_protocols dbg = Some (2 # bytes_of ''h2'' @ 8 # bytes_of ''http/1.1'')"
proof
  show "Option.bind (alpn_encode dbg ps) alpn_decode = Some (filter (\<lambda>p. p \<noteq> []) ps)"
    using assms
  proof (induction ps)
    case (Cons p ps)
    then obtain bytes where "alpn_encode dbg ps = Some bytes" "alpn_decode bytes = Some (filter (\<lambda>p. p \<noteq> []) ps)"
      by (auto simp: bind_eq_Some_conv)
    moreover have "unat (word_of_nat (length p) :: 8 word) = length p"
      using Cons.prems by (simp add: unat_of_nat take_bit_nat_eq_self)
    ultimately show ?case using Cons.prems by auto
  qed simp
  show "alpn_protocols dbg = Some (2 # bytes_of ''h2'' @ 8 # bytes_of ''http/1.1'')"
    by (simp add: alpn_protocols_def bytes_of_def)
qed

theorem alpn_roundtrip_witness:
  "Option.bind (alpn_encode True [bytes_of ''h2'', [], bytes_of ''http/1.1'']) alpn_decode =
     Some [bytes_of ''h2'', bytes_of ''http/1.1'']"
  using alpn_roundtrip[of "[bytes_of ''h2'', [], bytes_of ''http/1.1'']" True] by (simp add: bytes_of_def)

text \<open>
  C36. Connections and shutdown of the HTTPS server, over every interleaving of its tasks, of clients, of
  the signal and of a forced abort: once the server holds no drain watch, so that shutdown can
  complete, its accept task is over and every connection is closed; and at most one
  connection is accepted after the signal. Before the signal the \<open>serve_conn\<close> task of a served connection does
  not end, also not when the connection has closed long ago: one task waits, with
  its drain watch, for every connection the server has ever served.
\<close>
theorem serve_conn_tasks:
  assumes "server_step\<^sup>*\<^sup>* (server_start (server_spawn b)) s"
  shows "(server_watches s = 0 \<longrightarrow> spawned_join (ss_accept s) \<noteq> Pending \<and> (\<forall>c \<in> set (ss_conns s). \<not> cn_open c)) \<and>
    ss_late s \<le> 1 \<and>
    (\<not> ss_signaled s \<longrightarrow> (\<forall>c \<in> set (ss_conns s). cn_served c \<longrightarrow> cn_task c = AwaitDrain) \<and>
       length (filter cn_served (ss_conns s)) \<le> server_watches s)"
proof (intro conjI impI)
  note inv = server_reachable_inv[OF assms]
  show "spawned_join (ss_accept s) \<noteq> Pending" if "server_watches s = 0" using that by (auto simp: server_watches_def)
  have conn: "conn_inv (ss_signaled s) c" if "c \<in> set (ss_conns s)" for c using inv that by (simp add: server_inv_def)
  show "\<forall>c \<in> set (ss_conns s). \<not> cn_open c" if "server_watches s = 0"
    using server_inv_closed[OF inv that] by blast
  show "ss_late s \<le> 1" using inv by (simp add: server_inv_def of_bool_def split: if_splits)
  assume "\<not> ss_signaled s"
  with conn show served: "\<forall>c \<in> set (ss_conns s). cn_served c \<longrightarrow> cn_task c = AwaitDrain"
    unfolding conn_inv_def by blast
  have "length (filter cn_served cs) \<le> length (filter (\<lambda>c. cn_task c \<noteq> Released) cs)"
    if "\<forall>c \<in> set cs. cn_served c \<longrightarrow> cn_task c = AwaitDrain" for cs
    using that by (induction cs) auto
  from this[OF served] show "length (filter cn_served (ss_conns s)) \<le> server_watches s" by (simp add: server_watches_def)
qed

definition demo_bound :: "(nat, nat) server_bound" where
  "demo_bound = \<lparr>sb_local_addr = 8443, sb_tcp = 0, sb_key = ''key'', sb_certs = ''certs''\<rparr>"

lemma closed_conn_reachable:
  "server_step\<^sup>*\<^sup>* (server_start (server_spawn demo_bound))
     \<lparr>ss_signaled = False, ss_accept = Idle, ss_conns = [\<lparr>cn_task = AwaitDrain, cn_open = False, cn_served = True\<rparr>], ss_late = 0\<rparr>"
proof -
  let ?s = "\<lambda>ph cs. \<lparr>ss_signaled = False, ss_accept = ph, ss_conns = cs, ss_late = 0\<rparr>"
  let ?c = "\<lambda>t op sv. \<lparr>cn_task = t, cn_open = op, cn_served = sv\<rparr>"
  have "server_step (server_start (server_spawn demo_bound)) (?s Polled [])"
    using server_step.poll_drain[of "server_start (server_spawn demo_bound)"] by (simp add: server_start_def server_spawn_def)
  moreover have "server_step (?s Polled []) (?s Idle [?c Handshake True False])"
    using server_step.accepted[of "?s Polled []"] by simp
  moreover have "server_step (?s Idle [?c Handshake True False]) (?s Idle [?c AwaitDrain True True])"
    using server_step.serving[of 0 "?s Idle [?c Handshake True False]"] by simp
  moreover have "server_step (?s Idle [?c AwaitDrain True True]) (?s Idle [?c AwaitDrain False True])"
    using server_step.close[of 0 "?s Idle [?c AwaitDrain True True]"] by simp
  ultimately show ?thesis by (meson rtranclp.rtrancl_into_rtrancl rtranclp.rtrancl_refl)
qed

theorem serve_conn_tasks_witness:
  "let s = \<lparr>ss_signaled = False, ss_accept = Idle, ss_conns = [\<lparr>cn_task = AwaitDrain, cn_open = False, cn_served = True\<rparr>],
      ss_late = 0\<rparr>
   in server_step\<^sup>*\<^sup>* (server_start (server_spawn demo_bound)) s \<and> 1 \<le> server_watches s"
  using serve_conn_tasks[OF closed_conn_reachable] closed_conn_reachable by (simp add: Let_def)

lemma collect_results_Inr: "collect_results rs = Inr xs \<longleftrightarrow> rs = map Inr xs"
  by (induction rs arbitrary: xs rule: collect_results.induct) (auto split: sum.splits, blast)

text \<open>
  With rustls a key file is accepted exactly when it can be read, parses without an error, and
  holds exactly one PKCS#8 key, or none and exactly one RSA key.
\<close>
theorem rustls_key_is_unique:
  "rustls_load_private_key R kp = Inr key \<longleftrightarrow>
   (\<exists>pem. rl_read R kp = Inr pem \<and>
      (rl_pkcs8_keys R pem = [Inr key] \<or> rl_pkcs8_keys R pem = [] \<and> rl_rsa_keys R pem = [Inr key]))"
proof -
  have one: "(if keys = [] then Inl NoPrivateKey else if butlast keys \<noteq> [] then Inl TooManyPrivateKeys
      else Inr (last keys)) = Inr key \<longleftrightarrow> keys = [key]" for keys
    by (cases keys) auto
  show ?thesis
    by (auto simp: rustls_load_private_key_def sum_bind_Inr one collect_results_Inr split: if_splits) force
qed

text \<open>
  With OpenSSL a certificate file that holds no certificate is not reported as an error: loading the
  credentials panics, when the server is bound and again for each connection.
\<close>
theorem openssl_no_certificate_panics:
  assumes "openssl_load_private_key O1 pk = Inr key" and "openssl_load_certs O1 crts = Inr []"
    and "os_mozilla_intermediate_v5 O1 = Inr conn" and "os_set_private_key O1 key (os_set_verify_none O1 conn) = Inr conn'"
    and "\<not> ft_rustls F" and "ft_openssl F"
  shows "server_bind dbg F R O1 bind_tcp local_addr
      \<lparr>sa_server_addr = addr, sa_server_tls_key = Some pk, sa_server_tls_certs = Some crts\<rparr> = None \<and>
    serve_conn_start dbg F R O1 accept_tls pk crts socket = None"
  using assms
  by (simp add: openssl_load_tls_def openssl_configure_def server_bind_def load_tls_def serve_conn_start_def)

definition demo_rustls :: "(string, string, string, string) rustls_api" where
  "demo_rustls = \<lparr>rl_read = Inr, rl_pkcs8_keys = (\<lambda>pem. [Inr pem]), rl_rsa_keys = (\<lambda>_. []),
     rl_certs = (\<lambda>pem. [Inr pem]), rl_single_cert = (\<lambda>certs key alpn. Inr key)\<rparr>"

definition demo_openssl :: "(string, string, string, string) openssl_api" where
  "demo_openssl = \<lparr>os_read = Inr, os_private_key = Inr, os_stack = (\<lambda>pem. Inr (if pem = [] then [] else [pem])),
     os_mozilla_intermediate_v5 = Inr ''acceptor'', os_set_verify_none = id, os_set_private_key = (\<lambda>_. Inr),
     os_set_certificate = (\<lambda>_. Inr), os_add_extra_chain_cert = (\<lambda>_. Inr), os_set_alpn_protos = (\<lambda>_. Inr)\<rparr>"

theorem openssl_no_certificate_panics_witness:
  "server_bind False \<lparr>ft_rustls = False, ft_openssl = True\<rparr> demo_rustls demo_openssl (\<lambda>_. Inr ()) (\<lambda>_. Inr 8443)
     \<lparr>sa_server_addr = (443 :: nat), sa_server_tls_key = Some ''key'', sa_server_tls_certs = Some []\<rparr> = None"
  using openssl_no_certificate_panics[of demo_openssl "''key''" "''key''" "[]" "''acceptor''" "''acceptor''"
      "\<lparr>ft_rustls = False, ft_openssl = True\<rparr>" False demo_rustls "\<lambda>_. Inr ()" "\<lambda>_. Inr 8443" "443 :: nat"
      "\<lambda>_ s. Inr s :: string + unit" "()"]
  by (simp add: demo_openssl_def openssl_load_private_key_def openssl_load_certs_def)

text \<open>
  The choice of the TLS library: with both features enabled OpenSSL is never used, neither to check the
  credentials when the server is bound nor for a connection. With neither feature, binding does not check
  the credentials and does not panic, and every connection fails.
\<close>
theorem tls_library_selection:
  "(ft_rustls F \<longrightarrow>
     server_bind dbg F R O1 bind_tcp local_addr args = server_bind dbg F R O2 bind_tcp local_addr args \<and>
     serve_conn_start dbg F R O1 accept_tls key certs socket = serve_conn_start dbg F R O2 accept_tls key certs socket) \<and>
   (\<not> ft_rustls F \<and> \<not> ft_openssl F \<longrightarrow>
     server_bind dbg F R O1 bind_tcp local_addr args \<noteq> None \<and>
     serve_conn_start dbg F R O1 accept_tls key certs socket = Some ConnFailed)"
  by (auto simp: server_bind_def load_tls_def serve_conn_start_def split: option.splits)

theorem tls_library_selection_witness:
  "server_bind True \<lparr>ft_rustls = True, ft_openssl = True\<rparr> demo_rustls demo_openssl (\<lambda>_. Inr ()) (\<lambda>_. Inr 8443)
     \<lparr>sa_server_addr = (443 :: nat), sa_server_tls_key = Some ''key'', sa_server_tls_certs = Some []\<rparr> =
   server_bind True \<lparr>ft_rustls = True, ft_openssl = True\<rparr> demo_rustls (demo_openssl\<lparr>os_read := \<lambda>_. Inl ''unreadable''\<rparr>)
     (\<lambda>_. Inr ()) (\<lambda>_. Inr 8443)
     \<lparr>sa_server_addr = 443, sa_server_tls_key = Some ''key'', sa_server_tls_certs = Some []\<rparr> \<and>
   serve_conn_start True \<lparr>ft_rustls = False, ft_openssl = False\<rparr> demo_rustls demo_openssl (\<lambda>_ s. Inr s :: string + unit) ''key'' ''crt'' () =
     Some ConnFailed"
  using tls_library_selection[of "\<lparr>ft_rustls = True, ft_openssl = True\<rparr>" True demo_rustls demo_openssl
      "\<lambda>_. Inr ()" "\<lambda>_. Inr 8443" "\<lparr>sa_server_addr = (443 :: nat), sa_server_tls_key = Some ''key'', sa_server_tls_certs = Some []\<rparr>"
      "demo_openssl\<lparr>os_read := \<lambda>_. Inl ''unreadable''\<rparr>" "\<lambda>_ s. Inr s :: string + unit" "''key''" "''crt''" "()"]
    tls_library_selection[of "\<lparr>ft_rustls = False, ft_openssl = False\<rparr>" True demo_rustls demo_openssl
      "\<lambda>_. Inr ()" "\<lambda>_. Inr ()" "\<lparr>sa_server_addr = (), sa_server_tls_key = None, sa_server_tls_certs = None\<rparr>"
      demo_openssl "\<lambda>_ s. Inr s :: string + unit" "''key''" "''crt''" "()"]
  by simp

end
