(* ===== verification/Initialized.thy ===== *)
theory Initialized
  imports Kubert_Prelude
begin

text \<open>
  \<open>kubert/src/initialized.rs\<close>: the counter of components that have still to initialize.
  The semaphore (\<open>tokio::sync::Semaphore\<close>) is a parameter with the contract
  \<open>semaphore\<close>. Handles live in other tasks, so the component's behaviour is a system of
  steps over the tracker and the number of live handles.
\<close>

record 'm sem_api =
  sem_new :: "nat \<Rightarrow> 'm"
  sem_add_permits :: "nat \<Rightarrow> 'm \<Rightarrow> 'm"
  sem_try_acquire :: "'m \<Rightarrow> 'm option"
  sem_acquire_many :: "nat \<Rightarrow> 'm \<Rightarrow> 'm option"

record 'm initialized =
  ini_semaphore :: "'m"
  ini_issued :: "32 word"

definition initialized_default :: "'m sem_api \<Rightarrow> 'm initialized" where
  "initialized_default S = \<lparr>ini_semaphore = sem_new S 0, ini_issued = 0\<rparr>"

text \<open>
  \<open>add_handle\<close>: \<open>None\<close> is a panic, of the \<open>expect\<close> or of the increment
  in a build with overflow checks (\<open>oc\<close>). The handle is the permit taken from the
  semaphore; dropping it (\<open>handle_drop\<close>) gives the permit back.
\<close>

definition add_handle :: "bool \<Rightarrow> 'm sem_api \<Rightarrow> 'm initialized \<Rightarrow> 'm initialized option" where
  "add_handle oc S i =
     do { sem \<leftarrow> sem_try_acquire S (sem_add_permits S 1 (ini_semaphore i));
          n \<leftarrow> rust_add oc (ini_issued i) 1;
          Some \<lparr>ini_semaphore = sem, ini_issued = n\<rparr> }"

definition handle_drop :: "'m sem_api \<Rightarrow> 'm \<Rightarrow> 'm" where
  "handle_drop S sem = sem_add_permits S 1 sem"

text \<open>
  \<open>initialized\<close>: one poll of the future. It is ready when \<open>issued\<close> permits can be
  taken at once; the permits are released again when the future ends.
\<close>

definition initialized_poll :: "'m sem_api \<Rightarrow> 'm initialized \<Rightarrow> unit poll" where
  "initialized_poll S i =
     (case sem_acquire_many S (unat (ini_issued i)) (ini_semaphore i) of
        None \<Rightarrow> Pending | Some _ \<Rightarrow> Ready ())"

subsection \<open>ReleasesOnReady\<close>

text \<open>
  The wrapper of a future or stream that drops its handle at the first ready outcome. The
  semaphore the handle belongs to is threaded through the poll.
\<close>

record 's releases_on_ready =
  ror_inner :: "'s"
  ror_handle :: bool

definition release_on_ready :: "'s \<Rightarrow> 's releases_on_ready" where
  "release_on_ready inner = \<lparr>ror_inner = inner, ror_handle = True\<rparr>"

definition ror_poll ::
  "'m sem_api \<Rightarrow> ('s, 'b) poll_fn \<Rightarrow> instant \<Rightarrow> 's releases_on_ready \<times> 'm \<Rightarrow>
   'b poll \<times> ('s releases_on_ready \<times> 'm)" where
  "ror_poll S inner now w =
     (case inner now (ror_inner (fst w)) of
        (Pending, s) \<Rightarrow> (Pending, ((fst w)\<lparr>ror_inner := s\<rparr>, snd w))
      | (Ready out, s) \<Rightarrow>
          (Ready out, ((fst w)\<lparr>ror_inner := s, ror_handle := False\<rparr>,
                       if ror_handle (fst w) then handle_drop S (snd w) else snd w)))"

lemma ror_poll_pending:
  "inner now (ror_inner x) = (Pending, s) \<Longrightarrow>
   ror_poll S inner now (x, m) = (Pending, (x\<lparr>ror_inner := s\<rparr>, m))"
  by (simp add: ror_poll_def)

lemma ror_poll_ready:
  "inner now (ror_inner x) = (Ready out, s) \<Longrightarrow>
   ror_poll S inner now (x, m) = (Ready out, (x\<lparr>ror_inner := s, ror_handle := False\<rparr>,
     if ror_handle x then handle_drop S m else m))"
  by (simp add: ror_poll_def)

subsection \<open>The semaphore's contract\<close>

locale semaphore =
  fixes S :: "'m sem_api"
    and permits :: "'m \<Rightarrow> nat"
  assumes permits_new: "permits (sem_new S n) = n"
    and permits_add: "permits (sem_add_permits S n m) = permits m + n"
    and try_acquire_some: "0 < permits m \<Longrightarrow>
      \<exists>m'. sem_try_acquire S m = Some m' \<and> permits m' = permits m - 1"
    and acquire_many_iff: "sem_acquire_many S n m \<noteq> None \<longleftrightarrow> n \<le> permits m"

definition counting_semaphore :: "nat sem_api" where
  "counting_semaphore = \<lparr>sem_new = (\<lambda>n. n), sem_add_permits = (\<lambda>n m. m + n),
     sem_try_acquire = (\<lambda>m. if m = 0 then None else Some (m - 1)),
     sem_acquire_many = (\<lambda>n m. if n \<le> m then Some (m - n) else None)\<rparr>"

interpretation counting: semaphore counting_semaphore id
  by unfold_locales (auto simp: counting_semaphore_def)

subsection \<open>The tracker and its handles as a system\<close>

text \<open>
  A step is the issue of a handle, the drop of a live one, or a poll of a wrapper that holds one:
  the system records how many handles are alive.
\<close>

record 'm init_system =
  sys_init :: "'m initialized"
  sys_live :: nat

definition init_system :: "'m sem_api \<Rightarrow> 'm init_system" where
  "init_system S = \<lparr>sys_init = initialized_default S, sys_live = 0\<rparr>"

inductive init_step :: "bool \<Rightarrow> 'm sem_api \<Rightarrow> 'm init_system \<Rightarrow> 'm init_system \<Rightarrow> bool"
  for oc S where
  issue: "add_handle oc S (sys_init g) = Some i \<Longrightarrow>
    init_step oc S g (g\<lparr>sys_init := i, sys_live := Suc (sys_live g)\<rparr>)"
| drop: "sys_live g = Suc n \<Longrightarrow>
    init_step oc S g (g\<lparr>sys_init := (sys_init g)\<lparr>ini_semaphore := handle_drop S (ini_semaphore (sys_init g))\<rparr>,
                        sys_live := n\<rparr>)"

definition init_inv :: "('m \<Rightarrow> nat) \<Rightarrow> 'm init_system \<Rightarrow> bool" where
  "init_inv permits g \<longleftrightarrow>
     permits (ini_semaphore (sys_init g)) + sys_live g = unat (ini_issued (sys_init g))"

context semaphore
begin

lemma inv_init: "init_inv permits (init_system S)"
  by (simp add: init_inv_def init_system_def initialized_default_def permits_new)

lemma add_handle_total:
  assumes "unat (ini_issued i) < 2 ^ 32 - 1"
  shows "\<exists>i'. add_handle oc S i = Some i' \<and> permits (ini_semaphore i') = permits (ini_semaphore i) \<and>
    unat (ini_issued i') = Suc (unat (ini_issued i))"
proof -
  obtain m where m: "sem_try_acquire S (sem_add_permits S 1 (ini_semaphore i)) = Some m"
    "permits m = permits (ini_semaphore i)"
    using try_acquire_some[of "sem_add_permits S 1 (ini_semaphore i)"] by (auto simp: permits_add)
  have "rust_add oc (ini_issued i) 1 = Some (ini_issued i + 1)"
    "unat (ini_issued i + 1) = Suc (unat (ini_issued i))"
    using rust_add_exact[of "ini_issued i" 1 oc] assms by auto
  with m show ?thesis by (simp add: add_handle_def)
qed

lemma step_inv:
  assumes "init_step True S g g'" and "init_inv permits g"
  shows "init_inv permits g'"
  using assms(1)
proof cases
  case (issue i)
  then obtain m n where "sem_try_acquire S (sem_add_permits S 1 (ini_semaphore (sys_init g))) = Some m"
    "rust_add True (ini_issued (sys_init g)) 1 = Some n" "i = \<lparr>ini_semaphore = m, ini_issued = n\<rparr>"
    by (auto simp: add_handle_def panic_simps)
  moreover from this have "permits m = permits (ini_semaphore (sys_init g))"
    "unat n = Suc (unat (ini_issued (sys_init g)))"
    using try_acquire_some[of "sem_add_permits S 1 (ini_semaphore (sys_init g))"]
      rust_add_checked[of "ini_issued (sys_init g)" 1 n]
    by (auto simp: permits_add)
  ultimately show ?thesis using issue assms(2) by (simp add: init_inv_def)
next
  case (drop n)
  with assms(2) show ?thesis by (simp add: init_inv_def handle_drop_def permits_add)
qed

lemma reachable_inv: "(init_step True S)\<^sup>*\<^sup>* (init_system S) g \<Longrightarrow> init_inv permits g"
  by (induction rule: rtranclp_induct) (auto intro: inv_init step_inv)

lemma poll_ready_iff:
  "init_inv permits g \<Longrightarrow> initialized_poll S (sys_init g) = Ready () \<longleftrightarrow> sys_live g = 0"
  using acquire_many_iff[of "unat (ini_issued (sys_init g))" "ini_semaphore (sys_init g)"]
  by (auto simp: initialized_poll_def init_inv_def split: option.splits)

lemma ror_polls_spent:
  "\<not> ror_handle x \<Longrightarrow>
   fst (polls (ror_poll S inner) nows (x, m)) = fst (polls inner nows (ror_inner x)) \<and>
   snd (snd (polls (ror_poll S inner) nows (x, m))) = m"
proof (induction nows arbitrary: x)
  case (Cons now nows)
  obtain p s where ps: "inner now (ror_inner x) = (p, s)" by fastforce
  with Cons.IH[of "x\<lparr>ror_inner := s\<rparr>"] Cons.IH[of "x\<lparr>ror_inner := s, ror_handle := False\<rparr>"] Cons.prems
  show ?case by (cases p) (simp_all add: ror_poll_pending ror_poll_ready)
qed simp

lemma ror_polls:
  "ror_handle x \<Longrightarrow>
   fst (polls (ror_poll S inner) nows (x, m)) = fst (polls inner nows (ror_inner x)) \<and>
   permits (snd (snd (polls (ror_poll S inner) nows (x, m)))) =
     permits m + (if list_ex is_ready (fst (polls inner nows (ror_inner x))) then 1 else 0)"
proof (induction nows arbitrary: x)
  case (Cons now nows)
  obtain p s where ps: "inner now (ror_inner x) = (p, s)" by fastforce
  with Cons.IH[of "x\<lparr>ror_inner := s\<rparr>"] Cons.prems
    ror_polls_spent[of "x\<lparr>ror_inner := s, ror_handle := False\<rparr>" inner nows "handle_drop S m"]
  show ?case
    by (cases p) (simp_all add: ror_poll_pending ror_poll_ready handle_drop_def permits_add)
qed simp

end

subsection \<open>Properties\<close>

text \<open>
  C13. In every state reachable by issuing and dropping handles, the future \<open>initialized\<close>
  is ready exactly when no handle is alive: readiness is announced neither before the last
  component has initialized nor withheld after it.
\<close>
theorem initialized_iff_no_handle:
  assumes "semaphore S permits" and "(init_step True S)\<^sup>*\<^sup>* (init_system S) g"
  shows "initialized_poll S (sys_init g) = Ready () \<longleftrightarrow> sys_live g = 0"
  using semaphore.poll_ready_iff[OF assms(1) semaphore.reachable_inv[OF assms]] .

lemma one_handle_reachable:
  "(init_step True counting_semaphore)\<^sup>*\<^sup>* (init_system counting_semaphore)
     \<lparr>sys_init = \<lparr>ini_semaphore = 0, ini_issued = 1\<rparr>, sys_live = 1\<rparr>"
  using init_step.issue[of True counting_semaphore "init_system counting_semaphore"
      "\<lparr>ini_semaphore = 0, ini_issued = 1\<rparr>"]
  by (simp add: init_system_def initialized_default_def add_handle_def counting_semaphore_def rust_add_def
      r_into_rtranclp)

theorem initialized_iff_no_handle_witness:
  "initialized_poll counting_semaphore \<lparr>ini_semaphore = 0, ini_issued = 1\<rparr> \<noteq> Ready ()"
  using initialized_iff_no_handle[OF counting.semaphore_axioms one_handle_reachable] by simp

text \<open>
  \<open>add_handle\<close> does not panic and changes no other component's permits as long as
  fewer than \<open>2^32 - 1\<close> handles have been issued: the permit it adds is the one it takes.
\<close>
theorem add_handle_issues:
  assumes "semaphore S permits" and "unat (ini_issued i) < 2 ^ 32 - 1"
  shows "\<exists>i'. add_handle oc S i = Some i' \<and> permits (ini_semaphore i') = permits (ini_semaphore i) \<and>
    unat (ini_issued i') = Suc (unat (ini_issued i))"
  by (rule semaphore.add_handle_total[OF assms])

theorem add_handle_issues_witness:
  "\<exists>i'. add_handle True counting_semaphore (initialized_default counting_semaphore) = Some i' \<and>
     id (ini_semaphore i') = 0 \<and> unat (ini_issued i') = 1"
  using add_handle_issues[OF counting.semaphore_axioms, of "initialized_default counting_semaphore" True]
  by (simp add: initialized_default_def counting_semaphore_def)

text \<open>
  Wrapping a future or stream in \<open>ReleasesOnReady\<close> does not change what it yields, and
  over any sequence of polls the handle is given back exactly once, at the first ready outcome:
  never while the inner stream is pending, never a second time.
\<close>
theorem releases_on_ready_once:
  assumes "semaphore S permits"
  shows "fst (polls (ror_poll S inner) nows (release_on_ready s, m)) = fst (polls inner nows s) \<and>
    permits (snd (snd (polls (ror_poll S inner) nows (release_on_ready s, m)))) =
      permits m + (if list_ex is_ready (fst (polls inner nows s)) then 1 else 0)"
  using semaphore.ror_polls[OF assms, of "release_on_ready s" inner nows m]
  by (simp add: release_on_ready_def)

theorem releases_on_ready_once_witness:
  "let stream = (\<lambda>now s. if now < 5 then (Pending, s) else (Ready (Some now), s))
   in fst (polls (ror_poll counting_semaphore stream) [3, 7, 9] (release_on_ready (), 0)) =
        [Pending, Ready (Some 7), Ready (Some 9)] \<and>
      snd (snd (polls (ror_poll counting_semaphore stream) [3, 7, 9] (release_on_ready (), 0))) = 1"
  using releases_on_ready_once[OF counting.semaphore_axioms,
      of "\<lambda>now s. if now < 5 then (Pending, s) else (Ready (Some now), s)" "[3, 7, 9]" "()" 0]
  by simp

end
