(* ===== verification/Runtime_Metrics.thy ===== *)
theory Runtime_Metrics
  imports Kubert_Prelude
begin

text \<open>
  \<open>kubert/src/runtime/metrics.rs\<close>: counters of watch events and errors, by kind of resource. A
  \<open>Family\<close> of counters is a function from labels to counts, 0 for labels that were not used;
  counters are 64-bit atomics, whose increment wraps.
\<close>

datatype event_op = OpApply | OpRestart | OpDelete

datatype 'x watcher_error =
    InitialListFailed 'x
  | WatchStartFailed 'x
  | WatchError 'x
  | WatchFailed 'x
  | NoResourceVersion

record resource_type =
  rt_kind :: string
  rt_group :: string
  rt_version :: string

record event_labels =
  el_op :: event_op
  el_kind :: string
  el_group :: string
  el_version :: string

record error_labels =
  er_kind :: string
  er_group :: string
  er_version :: string
  er_error :: string

record watch_metrics =
  wm_events :: "event_labels \<Rightarrow> 64 word"
  wm_errors :: "error_labels \<Rightarrow> 64 word"

definition metrics_register :: watch_metrics where
  "metrics_register = \<lparr>wm_events = (\<lambda>_. 0), wm_errors = (\<lambda>_. 0)\<rparr>"

definition event_label :: "resource_type \<Rightarrow> event_op \<Rightarrow> event_labels" where
  "event_label T op = \<lparr>el_op = op, el_kind = rt_kind T, el_group = rt_group T, el_version = rt_version T\<rparr>"

fun error_name :: "'x watcher_error \<Rightarrow> string" where
  "error_name (InitialListFailed _) = ''InitialListFailed''"
| "error_name (WatchStartFailed _) = ''WatchStartFailed''"
| "error_name (WatchError _) = ''WatchError''"
| "error_name (WatchFailed _) = ''WatchFailed''"
| "error_name NoResourceVersion = ''NoResourceVersion''"

definition error_label :: "resource_type \<Rightarrow> 'x watcher_error \<Rightarrow> error_labels" where
  "error_label T e = \<lparr>er_kind = rt_kind T, er_group = rt_group T, er_version = rt_version T, er_error = error_name e\<rparr>"

definition inc_event :: "resource_type \<Rightarrow> event_op \<Rightarrow> watch_metrics \<Rightarrow> watch_metrics" where
  "inc_event T op m = m\<lparr>wm_events := (wm_events m)(event_label T op := wm_events m (event_label T op) + 1)\<rparr>"

definition inc_error :: "resource_type \<Rightarrow> 'x watcher_error \<Rightarrow> watch_metrics \<Rightarrow> watch_metrics" where
  "inc_error T e m = m\<lparr>wm_errors := (wm_errors m)(error_label T e := wm_errors m (error_label T e) + 1)\<rparr>"

text \<open>What the closure of \<open>instrument_watch\<close> does with an item; it passes the item on.\<close>

fun instrument_event :: "resource_type \<Rightarrow> 'x watcher_error + 'r event \<Rightarrow> watch_metrics \<Rightarrow> watch_metrics" where
  "instrument_event T (Inr Init) m = m"
| "instrument_event T (Inr (InitApply r)) m = m"
| "instrument_event T (Inr InitDone) m = inc_event T OpRestart m"
| "instrument_event T (Inr (Apply r)) m = inc_event T OpApply m"
| "instrument_event T (Inr (Delete r)) m = inc_event T OpDelete m"
| "instrument_event T (Inl e) m = inc_error T e m"

definition instrument_watch ::
  "resource_type \<Rightarrow> ('s, ('x watcher_error + 'r event) option) poll_fn \<Rightarrow>
   ('s \<times> watch_metrics option, ('x watcher_error + 'r event) option) poll_fn" where
  "instrument_watch T inner now sm =
     (case inner now (fst sm) of
        (Ready (Some item), s) \<Rightarrow> (Ready (Some item), (s, map_option (instrument_event T item) (snd sm)))
      | (p, s) \<Rightarrow> (p, (s, snd sm)))"

subsection \<open>Properties\<close>

fun event_op_of :: "'x watcher_error + 'r event \<Rightarrow> event_op option" where
  "event_op_of (Inr InitDone) = Some OpRestart"
| "event_op_of (Inr (Apply r)) = Some OpApply"
| "event_op_of (Inr (Delete r)) = Some OpDelete"
| "event_op_of _ = None"

lemma event_label_inj [simp]: "event_label T op = event_label T op' \<longleftrightarrow> op = op'"
  by (simp add: event_label_def)

lemma error_label_eq [simp]: "error_label T e = error_label T e' \<longleftrightarrow> error_name e = error_name e'"
  by (simp add: error_label_def)

lemma instrument_event_events:
  "wm_events (instrument_event T item m) (event_label T op) =
     wm_events m (event_label T op) + (if event_op_of item = Some op then 1 else 0)"
  by (cases "(T, item, m)" rule: instrument_event.cases; cases op) (simp_all add: inc_event_def inc_error_def)

lemma instrument_event_errors:
  "wm_errors (instrument_event T item m) (error_label T e) =
     wm_errors m (error_label T e) + (if \<exists>e'. item = Inl e' \<and> error_name e' = error_name e then 1 else 0)"
  by (cases "(T, item, m)" rule: instrument_event.cases) (simp_all add: inc_event_def inc_error_def error_label_def eq_commute)

text \<open>
  The metrics count what the watch yields: after any sequence of items, the counter of an
  operation has grown by the number of its events (a restart per completed listing, nothing for the
  events within one), and the counter of a kind of error by the number of such errors, modulo
  \<open>2^64\<close>.
\<close>
theorem watch_metrics_count:
  "wm_events (fold (instrument_event T) es m) (event_label T op) =
     wm_events m (event_label T op) + of_nat (length (filter (\<lambda>i. event_op_of i = Some op) es)) \<and>
   wm_errors (fold (instrument_event T) es m) (error_label T e) =
     wm_errors m (error_label T e) +
       of_nat (length (filter (\<lambda>i. \<exists>e'. i = Inl e' \<and> error_name e' = error_name e) es))"
proof (induction es arbitrary: m)
  case (Cons i es)
  then show ?case by (simp add: instrument_event_events instrument_event_errors)
qed simp

end
