(* ===== verification/Runtime_Build.thy ===== *)
theory Runtime_Build
  imports Client Log_Format Admin Server Shutdown Initialized Runtime_Metrics
begin

text \<open>
  \<open>kubert/src/runtime.rs\<close>: the builder of the runtime and what it builds. The build composes
  logging, the Kubernetes client, the signal handlers, the admin server and the HTTPS server; the
  outside world of each (the subscriber registry, the Kubernetes libraries, the registration of
  signals, the network) is a field of \<open>build_env\<close>. The type \<open>'srv\<close> is the runtime's
  parameter \<open>S\<close>: no server, the server's arguments (possibly none), or a bound server.
\<close>

record ('addr, 'f, 'srv) runtime_builder =
  rb_admin :: "'addr admin_builder"
  rb_client :: "client_args option"
  rb_error_delay :: "duration option"
  rb_log :: "'f log_settings option"
  rb_server :: "'srv"
  rb_metrics :: "watch_metrics option"

record ('addr, 'l, 'client, 'm, 'rx, 'd, 'srv) runtime =
  ru_admin :: "('addr, 'l) admin_bound"
  ru_client :: "'client"
  ru_error_delay :: duration
  ru_initialized :: "'m initialized"
  ru_shutdown_rx :: "'rx"
  ru_shutdown :: "'d shutdown"
  ru_server :: "'srv"
  ru_metrics :: "watch_metrics option"

datatype ('addr, 'e) build_error =
    LogInit 'e
  | AdminError 'e
  | ClientError "'e config_error"
  | ServerError "('addr, 'e key_error) server_error"
  | SignalError 'e

definition no_server :: unit where
  "no_server = ()"

text \<open>\<open>Runtime::builder\<close>, which is \<open>Builder::default\<close>.\<close>

definition runtime_builder_default :: "timestamp \<Rightarrow> (socket_addr, 'f, unit) runtime_builder" where
  "runtime_builder_default now = \<lparr>rb_admin = builder_default now, rb_client = None, rb_error_delay = None,
     rb_log = None, rb_server = no_server, rb_metrics = None\<rparr>"

definition default_error_delay :: duration where
  "default_error_delay = 5 * 1000000000"

definition with_admin :: "'addr admin_builder \<Rightarrow> ('addr, 'f, 'srv) runtime_builder \<Rightarrow> ('addr, 'f, 'srv) runtime_builder" where
  "with_admin admin b = b\<lparr>rb_admin := admin\<rparr>"

definition with_client :: "client_args \<Rightarrow> ('addr, 'f, 'srv) runtime_builder \<Rightarrow> ('addr, 'f, 'srv) runtime_builder" where
  "with_client client b = b\<lparr>rb_client := Some client\<rparr>"

definition with_log :: "'f \<Rightarrow> log_format \<Rightarrow> ('addr, 'f, 'srv) runtime_builder \<Rightarrow> ('addr, 'f, 'srv) runtime_builder" where
  "with_log filt fmt b = b\<lparr>rb_log := Some \<lparr>lg_filter = filt, lg_format = fmt\<rparr>\<rparr>"

definition with_fixed_delay_on_error :: "duration \<Rightarrow> ('addr, 'f, 'srv) runtime_builder \<Rightarrow> ('addr, 'f, 'srv) runtime_builder" where
  "with_fixed_delay_on_error delay b = b\<lparr>rb_error_delay := Some delay\<rparr>"

definition with_metrics :: "watch_metrics \<Rightarrow> ('addr, 'f, 'srv) runtime_builder \<Rightarrow> ('addr, 'f, 'srv) runtime_builder" where
  "with_metrics metrics b = b\<lparr>rb_metrics := Some metrics\<rparr>"

text \<open>\<open>with_server\<close> and \<open>with_optional_server\<close> change the builder's type parameter.\<close>

definition set_server :: "'t \<Rightarrow> ('addr, 'f, 'srv) runtime_builder \<Rightarrow> ('addr, 'f, 't) runtime_builder" where
  "set_server server b = \<lparr>rb_admin = rb_admin b, rb_client = rb_client b, rb_error_delay = rb_error_delay b,
     rb_log = rb_log b, rb_server = server, rb_metrics = rb_metrics b\<rparr>"

definition with_server :: "'addr server_args \<Rightarrow> ('addr, 'f, unit) runtime_builder \<Rightarrow> ('addr, 'f, 'addr server_args) runtime_builder" where
  "with_server server b = set_server server b"

definition with_optional_server ::
  "'addr server_args option \<Rightarrow> ('addr, 'f, unit) runtime_builder \<Rightarrow> ('addr, 'f, 'addr server_args option) runtime_builder" where
  "with_optional_server server b = set_server server b"

subsection \<open>build\<close>

text \<open>
  The environment of a build: the default log filter and the installation of the subscriber, the
  Kubernetes client's libraries, the signals, a new drain channel, the network of the admin server,
  the semaphore, and the binding of an HTTPS server (\<open>server_bind\<close> with its TLS libraries).
\<close>

record ('addr, 'l, 'l2, 'f, 'x, 'cfg, 'client, 'm, 'rx, 'd, 'e) build_env =
  be_default_env :: "'f"
  be_install :: "'f \<Rightarrow> 'f fmt_layer \<Rightarrow> 'e + unit"
  be_kube :: "('x, 'cfg, 'client, 'e) kube_config_api"
  be_register :: "signal_kind \<Rightarrow> 'e + unit"
  be_channel :: "'d \<times> 'rx"
  be_tcp :: "('addr, 'l, 'e) tcp_api"
  be_semaphore :: "'m sem_api"
  be_server_bind :: "'addr server_args \<Rightarrow> (('addr, 'e key_error) server_error + ('addr, 'l2) server_bound) option"

definition build_inner ::
  "('addr, 'l, 'l2, 'f, 'x, 'cfg, 'client, 'm, 'rx, 'd, 'e) build_env \<Rightarrow>
   (client_args \<Rightarrow> 'e config_error + 'client) \<Rightarrow> ('addr, 'f, 'srv) runtime_builder \<Rightarrow>
   ('addr, 'e) build_error + ('addr, 'l, 'client, 'm, 'rx, 'd, 'srv) runtime" where
  "build_inner E mk_client b =
     sum_bind (map_err LogInit (log_settings_try_init (be_install E)
       (case rb_log b of Some lg \<Rightarrow> lg | None \<Rightarrow> log_settings_default (be_default_env E)))) (\<lambda>_.
     sum_bind (map_err ClientError (mk_client (case rb_client b of Some c \<Rightarrow> c | None \<Rightarrow> client_args_default))) (\<lambda>client.
     sum_bind (map_err SignalError (sigint_or_sigterm (be_register E) (fst (be_channel E)))) (\<lambda>shutdown.
     sum_bind (map_err AdminError (admin_bind (be_tcp E) (rb_admin b))) (\<lambda>admin.
       Inr \<lparr>ru_admin = admin, ru_client = client,
            ru_error_delay = (case rb_error_delay b of Some d \<Rightarrow> d | None \<Rightarrow> default_error_delay),
            ru_initialized = initialized_default (be_semaphore E), ru_shutdown_rx = snd (be_channel E),
            ru_shutdown = shutdown, ru_server = rb_server b, ru_metrics = rb_metrics b\<rparr>))))"

definition runtime_set_server ::
  "'t \<Rightarrow> ('addr, 'l, 'client, 'm, 'rx, 'd, 'srv) runtime \<Rightarrow> ('addr, 'l, 'client, 'm, 'rx, 'd, 't) runtime" where
  "runtime_set_server server r = \<lparr>ru_admin = ru_admin r, ru_client = ru_client r, ru_error_delay = ru_error_delay r,
     ru_initialized = ru_initialized r, ru_shutdown_rx = ru_shutdown_rx r, ru_shutdown = ru_shutdown r,
     ru_server = server, ru_metrics = ru_metrics r\<rparr>"

text \<open>\<open>None\<close> is a panic of the TLS library's configuration.\<close>

definition bind_server ::
  "('srv \<Rightarrow> (('addr, 'e) build_error + 't) option) \<Rightarrow> ('addr, 'l, 'client, 'm, 'rx, 'd, 'srv) runtime \<Rightarrow>
   (('addr, 'e) build_error + ('addr, 'l, 'client, 'm, 'rx, 'd, 't) runtime) option" where
  "bind_server mk r =
     map_option (\<lambda>res. sum_bind res (\<lambda>server. Inr (runtime_set_server server r))) (mk (ru_server r))"

definition build_no_server ::
  "('addr, 'l, 'l2, 'f, 'x, 'cfg, 'client, 'm, 'rx, 'd, 'e) build_env \<Rightarrow> ('addr, 'f, unit) runtime_builder \<Rightarrow>
   ('addr, 'e) build_error + ('addr, 'l, 'client, 'm, 'rx, 'd, unit) runtime" where
  "build_no_server E b = build_inner E (try_client (be_kube E)) b"

definition build_server ::
  "('addr, 'l, 'l2, 'f, 'x, 'cfg, 'client, 'm, 'rx, 'd, 'e) build_env \<Rightarrow> ('addr, 'f, 'addr server_args) runtime_builder \<Rightarrow>
   (('addr, 'e) build_error + ('addr, 'l, 'client, 'm, 'rx, 'd, ('addr, 'l2) server_bound) runtime) option" where
  "build_server E b =
     (case build_inner E (try_client (be_kube E)) b of
        Inl e \<Rightarrow> Some (Inl e)
      | Inr r \<Rightarrow> bind_server (\<lambda>args. map_option (map_err ServerError) (be_server_bind E args)) r)"

definition build_optional_server ::
  "('addr, 'l, 'l2, 'f, 'x, 'cfg, 'client, 'm, 'rx, 'd, 'e) build_env \<Rightarrow> ('addr, 'f, 'addr server_args option) runtime_builder \<Rightarrow>
   (('addr, 'e) build_error + ('addr, 'l, 'client, 'm, 'rx, 'd, ('addr, 'l2) server_bound option) runtime) option" where
  "build_optional_server E b =
     (case build_inner E (try_client (be_kube E)) b of
        Inl e \<Rightarrow> Some (Inl e)
      | Inr r \<Rightarrow> bind_server (\<lambda>args.
          (case args of
             Some args \<Rightarrow> map_option (\<lambda>res. map_sum id Some (map_err ServerError res)) (be_server_bind E args)
           | None \<Rightarrow> Some (Inr None))) r)"

subsection \<open>The accessors and the HTTPS server\<close>

definition server_addr :: "('addr, 'l, 'client, 'm, 'rx, 'd, ('addr, 'l2) server_bound) runtime \<Rightarrow> 'addr" where
  "server_addr r = sb_local_addr (ru_server r)"

definition optional_server_addr :: "('addr, 'l, 'client, 'm, 'rx, 'd, ('addr, 'l2) server_bound option) runtime \<Rightarrow> 'addr option" where
  "optional_server_addr r = map_option sb_local_addr (ru_server r)"

definition runtime_client :: "('addr, 'l, 'client, 'm, 'rx, 'd, 'srv) runtime \<Rightarrow> 'client" where
  "runtime_client r = ru_client r"

definition runtime_readiness :: "('addr, 'l, 'client, 'm, 'rx, 'd, 'srv) runtime \<Rightarrow> bool" where
  "runtime_readiness r = readiness_get (ad_ready (ru_admin r))"

definition shutdown_handle :: "('addr, 'l, 'client, 'm, 'rx, 'd, 'srv) runtime \<Rightarrow> 'rx" where
  "shutdown_handle r = ru_shutdown_rx r"

definition runtime_metrics_register :: watch_metrics where
  "runtime_metrics_register = metrics_register"

definition initialized_handle ::
  "bool \<Rightarrow> 'm sem_api \<Rightarrow> ('addr, 'l, 'client, 'm, 'rx, 'd, 'srv) runtime \<Rightarrow>
   ('addr, 'l, 'client, 'm, 'rx, 'd, 'srv) runtime option" where
  "initialized_handle oc S r = map_option (\<lambda>i. r\<lparr>ru_initialized := i\<rparr>) (add_handle oc S (ru_initialized r))"

definition runtime_cancel_on_shutdown ::
  "('addr, 'l, 'client, 'm, 'rx, 'd, 'srv) runtime \<Rightarrow> 's \<Rightarrow> ('s, 'rx) cancel_on_shutdown" where
  "runtime_cancel_on_shutdown r inner = cos_new (ru_shutdown_rx r) inner"

text \<open>
  \<open>spawn_server\<close>: the runtime without the server, and what is spawned (the bound server with the
  service and a clone of the shutdown watch). The optional variant makes the service only if there
  is a server.
\<close>

definition spawn_server_inner ::
  "('srv \<Rightarrow> 'sp) \<Rightarrow> ('addr, 'l, 'client, 'm, 'rx, 'd, 'srv) runtime \<Rightarrow>
   'sp \<times> ('addr, 'l, 'client, 'm, 'rx, 'd, unit) runtime" where
  "spawn_server_inner spawn r = (spawn (ru_server r), runtime_set_server no_server r)"

definition spawn_server ::
  "('addr, 'l, 'client, 'm, 'rx, 'd, ('addr, 'l2) server_bound) runtime \<Rightarrow> 'svc \<Rightarrow>
   (('addr, 'l2) server_bound \<times> 'svc \<times> 'rx) \<times> ('addr, 'l, 'client, 'm, 'rx, 'd, unit) runtime" where
  "spawn_server r service = spawn_server_inner (\<lambda>s. (s, service, ru_shutdown_rx r)) r"

definition spawn_optional_server ::
  "('addr, 'l, 'client, 'm, 'rx, 'd, ('addr, 'l2) server_bound option) runtime \<Rightarrow> (unit \<Rightarrow> 'svc) \<Rightarrow>
   (('addr, 'l2) server_bound \<times> 'svc \<times> 'rx) option \<times> ('addr, 'l, 'client, 'm, 'rx, 'd, unit) runtime" where
  "spawn_optional_server r mk =
     spawn_server_inner (\<lambda>srv. case srv of Some s \<Rightarrow> Some (s, mk (), ru_shutdown_rx r) | None \<Rightarrow> None) r"

subsection \<open>Properties\<close>

lemma build_inner_Inr:
  "build_inner E mk_client b = Inr r \<Longrightarrow>
   \<exists>client admin.
     log_settings_try_init (be_install E)
       (case rb_log b of Some lg \<Rightarrow> lg | None \<Rightarrow> log_settings_default (be_default_env E)) = Inr () \<and>
     mk_client (case rb_client b of Some c \<Rightarrow> c | None \<Rightarrow> client_args_default) = Inr client \<and>
     be_register E SigInt = Inr () \<and> be_register E SigTerm = Inr () \<and>
     admin_bind (be_tcp E) (rb_admin b) = Inr admin \<and>
     r = \<lparr>ru_admin = admin, ru_client = client,
          ru_error_delay = (case rb_error_delay b of Some d \<Rightarrow> d | None \<Rightarrow> default_error_delay),
          ru_initialized = initialized_default (be_semaphore E), ru_shutdown_rx = snd (be_channel E),
          ru_shutdown = shutdown_new (fst (be_channel E)), ru_server = rb_server b, ru_metrics = rb_metrics b\<rparr>"
  by (auto simp: build_inner_def sum_bind_Inr sigint_or_sigterm_def split: sum.splits)

text \<open>
  Building with a server that may be absent: without server arguments it succeeds exactly when the
  build without a server does, with the same runtime; with arguments it succeeds exactly when the build
  that requires the server does. Nothing of the server is touched unless everything before it succeeded.
\<close>
theorem optional_server_build:
  "build_optional_server E (with_optional_server None b) =
     Some (map_sum id (runtime_set_server None) (build_no_server E b)) \<and>
   build_optional_server E (with_optional_server (Some args) b) =
     map_option (map_sum id (\<lambda>r. runtime_set_server (Some (ru_server r)) r)) (build_server E (with_server args b)) \<and>
   (\<forall>e. build_no_server E b = Inl e \<longrightarrow> build_server E (with_server args b) = Some (Inl e))"
proof -
  have inner: "build_inner E mk (set_server s b) = map_sum id (runtime_set_server s) (build_inner E mk b)" for mk and s :: 's
    by (auto simp: build_inner_def set_server_def runtime_set_server_def sum_bind_def map_err_def split: sum.splits)
  show ?thesis
    by (cases "build_inner E (try_client (be_kube E)) b")
      (auto simp: build_optional_server_def build_server_def build_no_server_def with_optional_server_def
        with_server_def inner bind_server_def runtime_set_server_def option.map_comp comp_def sum_bind_def map_err_def
        split: sum.splits intro!: option.map_cong0)
qed

definition demo_env :: "(nat, nat, nat, string, unit, (string \<times> auth_info option) list, (string \<times> auth_info option) list,
    nat, unit, nat \<times> bool, string) build_env" where
  "demo_env = \<lparr>be_default_env = ''info'', be_install = (\<lambda>_ _. Inl ''installed before''), be_kube = demo_kube,
     be_register = (\<lambda>_. Inr ()), be_channel = ((1, False), ()),
     be_tcp = \<lparr>tcp_bind = Inr, tcp_set_nonblocking = Inr, tcp_from_std = Inr, tcp_local_addr = id\<rparr>,
     be_semaphore = counting_semaphore,
     be_server_bind = (\<lambda>_. None)\<rparr>"

definition demo_builder :: "(nat, string, unit) runtime_builder" where
  "demo_builder = \<lparr>rb_admin = builder_new 0 8080, rb_client = None, rb_error_delay = None, rb_log = None,
     rb_server = no_server, rb_metrics = None\<rparr>"

theorem optional_server_build_witness:
  "build_server demo_env (with_server \<lparr>sa_server_addr = 443, sa_server_tls_key = None, sa_server_tls_certs = None\<rparr> demo_builder) =
     Some (Inl (LogInit ''installed before''))"
  using optional_server_build[of demo_env demo_builder
      "\<lparr>sa_server_addr = 443, sa_server_tls_key = None, sa_server_tls_certs = None\<rparr>"]
  by (simp add: build_no_server_def build_inner_def demo_env_def demo_builder_def log_settings_try_init_def
      log_settings_default_def log_try_init_def log_format_default_def)

text \<open>A runtime with a counting semaphore and no handle issued.\<close>

definition demo_runtime :: "(nat, nat, unit, nat, unit, nat \<times> bool, unit) runtime" where
  "demo_runtime = \<lparr>ru_admin = \<lparr>ad_addr = 8080, ad_ready = False, ad_listener = 0, ad_routes = Map.empty, ad_diagnostics = dg_new 0\<rparr>,
     ru_client = (), ru_error_delay = default_error_delay, ru_initialized = initialized_default counting_semaphore,
     ru_shutdown_rx = (), ru_shutdown = shutdown_new (1, False), ru_server = no_server, ru_metrics = Some metrics_register\<rparr>"

end
