(* ===== verification/Runtime_Run.thy ===== *)
theory Runtime_Run
  imports Runtime_Build
begin

text \<open>
  \<open>kubert/src/runtime.rs\<close>, \<open>Runtime::run\<close>: the tasks of a running runtime. The task that
  maintains readiness, the main task that awaits shutdown (\<open>Shutdown::signaled\<close>), and the
  environment (signals, other owners of handles and of shutdown watches) take their steps in any order.
\<close>

text \<open>
  The readiness task is waiting for initialization, waiting for the shutdown signal, about to clear
  the readiness flag after having given up its watch, or done.
\<close>

datatype ready_phase = AwaitInit | AwaitSignal | SignalSeen | ReadyDone

record ('m, 'd) run_state =
  rn_init :: "'m init_system"
  rn_ready :: bool
  rn_task :: ready_phase
  rn_shutdown :: "'d shutdown"

definition run_start ::
  "('addr, 'l, 'client, 'm, 'rx, 'd, unit) runtime \<Rightarrow> nat \<Rightarrow> ('m, 'd) run_state" where
  "run_start r live =
     (let admin = admin_spawn (ru_admin r)
      in \<lparr>rn_init = \<lparr>sys_init = ru_initialized r, sys_live = live\<rparr>, rn_ready = as_ready admin,
          rn_task = AwaitInit, rn_shutdown = ru_shutdown r\<rparr>)"

text \<open>
  The steps of the readiness task. \<open>drop(shutdown_rx.signaled().await)\<close> gives up the task's
  watch (\<open>release\<close>) before the flag is cleared.
\<close>

inductive ready_task :: "'m sem_api \<Rightarrow> 'd drain_api \<Rightarrow> ('d \<Rightarrow> 'd) \<Rightarrow> ('m, 'd) run_state \<Rightarrow> ('m, 'd) run_state \<Rightarrow> bool"
  for S D release where
  initialized: "rn_task g = AwaitInit \<Longrightarrow> initialized_poll S (sys_init (rn_init g)) = Ready () \<Longrightarrow>
    ready_task S D release g (g\<lparr>rn_ready := readiness_set True (rn_ready g), rn_task := AwaitSignal\<rparr>)"
| signal_seen: "rn_task g = AwaitSignal \<Longrightarrow> dr_signaled D (sh_tx (rn_shutdown g)) \<Longrightarrow>
    ready_task S D release g
      (g\<lparr>rn_task := SignalSeen, rn_shutdown := (rn_shutdown g)\<lparr>sh_tx := release (sh_tx (rn_shutdown g))\<rparr>\<rparr>)"
| not_ready: "rn_task g = SignalSeen \<Longrightarrow>
    ready_task S D release g (g\<lparr>rn_ready := readiness_set False (rn_ready g), rn_task := ReadyDone\<rparr>)"

text \<open>A step of the program itself: of the readiness task or of the main task.\<close>

inductive run_task :: "'m sem_api \<Rightarrow> 'd drain_api \<Rightarrow> ('d \<Rightarrow> 'd) \<Rightarrow> ('m, 'd) run_state \<Rightarrow> ('m, 'd) run_state \<Rightarrow> bool"
  for S D release where
  readiness: "ready_task S D release g g' \<Longrightarrow> run_task S D release g g'"
| main: "signaled D (rn_shutdown g) s \<Longrightarrow> run_task S D release g (g\<lparr>rn_shutdown := s\<rparr>)"

text \<open>
  The environment: signals arrive; a component drops its handle (no handle can be issued any more,
  since \<open>run\<close> owns the runtime); the program does not set readiness through a handle of its own; other watches are cloned from live ones and dropped, but the one
  of the readiness task is its own.
\<close>

definition holds_watch :: "ready_phase \<Rightarrow> bool" where
  "holds_watch p \<longleftrightarrow> p = AwaitInit \<or> p = AwaitSignal"

inductive run_env :: "'m sem_api \<Rightarrow> 'd drain_api \<Rightarrow> ('d \<Rightarrow> nat) \<Rightarrow> ('m, 'd) run_state \<Rightarrow> ('m, 'd) run_state \<Rightarrow> bool"
  for S D alive where
  sigint: "run_env S D alive g (g\<lparr>rn_shutdown := (rn_shutdown g)\<lparr>sh_interrupt := True,
    sh_delivered := Suc (sh_delivered (rn_shutdown g))\<rparr>\<rparr>)"
| sigterm: "run_env S D alive g (g\<lparr>rn_shutdown := (rn_shutdown g)\<lparr>sh_terminate := True,
    sh_delivered := Suc (sh_delivered (rn_shutdown g))\<rparr>\<rparr>)"
| handle_dropped: "sys_live (rn_init g) = Suc n \<Longrightarrow>
    run_env S D alive g (g\<lparr>rn_init :=
      \<lparr>sys_init = (sys_init (rn_init g))\<lparr>ini_semaphore := handle_drop S (ini_semaphore (sys_init (rn_init g)))\<rparr>,
       sys_live = n\<rparr>\<rparr>)"
| watches: "dr_signaled D tx = dr_signaled D (sh_tx (rn_shutdown g)) \<Longrightarrow>
    (alive (sh_tx (rn_shutdown g)) = 0 \<longrightarrow> alive tx = 0) \<Longrightarrow> (holds_watch (rn_task g) \<longrightarrow> 0 < alive tx) \<Longrightarrow>
    run_env S D alive g (g\<lparr>rn_shutdown := (rn_shutdown g)\<lparr>sh_tx := tx\<rparr>\<rparr>)"

definition run_step ::
  "'m sem_api \<Rightarrow> 'd drain_api \<Rightarrow> ('d \<Rightarrow> 'd) \<Rightarrow> ('d \<Rightarrow> nat) \<Rightarrow> ('m, 'd) run_state \<Rightarrow> ('m, 'd) run_state \<Rightarrow> bool" where
  "run_step S D release alive g g' \<longleftrightarrow> run_task S D release g g' \<or> run_env S D alive g g'"

inductive_cases signaledE: "signaled D s t"

subsection \<open>The contract of a watch that is given up\<close>

locale drain_release = drain_channel D alive
  for D :: "'d drain_api" and alive :: "'d \<Rightarrow> nat" +
  fixes release :: "'d \<Rightarrow> 'd"
  assumes alive_release: "alive (release d) = alive d - 1"
    and signaled_release: "dr_signaled D (release d) = dr_signaled D d"

definition counting_release :: "nat \<times> bool \<Rightarrow> nat \<times> bool" where
  "counting_release d = (fst d - 1, snd d)"

interpretation counting_release: drain_release counting_drain fst counting_release
  by unfold_locales (auto simp: counting_release_def counting_drain_def)

locale running = semaphore S permits + drain_release D alive release
  for S :: "'m sem_api" and permits :: "'m \<Rightarrow> nat" and D :: "'d drain_api" and alive :: "'d \<Rightarrow> nat" and release :: "'d \<Rightarrow> 'd"

interpretation counting_running: running counting_semaphore id counting_drain fst counting_release
  by unfold_locales

definition run_inv :: "('m \<Rightarrow> nat) \<Rightarrow> 'd drain_api \<Rightarrow> ('d \<Rightarrow> nat) \<Rightarrow> ('m, 'd) run_state \<Rightarrow> bool" where
  "run_inv permits D alive g \<longleftrightarrow>
     init_inv permits (rn_init g) \<and> shutdown_inv D (rn_shutdown g) \<and>
     (rn_ready g \<longrightarrow> rn_task g = AwaitSignal \<or> rn_task g = SignalSeen) \<and>
     (rn_task g \<noteq> AwaitInit \<longrightarrow> sys_live (rn_init g) = 0) \<and>
     (holds_watch (rn_task g) \<longrightarrow> 0 < alive (sh_tx (rn_shutdown g))) \<and>
     (\<not> holds_watch (rn_task g) \<longrightarrow> dr_signaled D (sh_tx (rn_shutdown g))) \<and>
     (sh_phase (rn_shutdown g) = Completed (Inr ()) \<longrightarrow> alive (sh_tx (rn_shutdown g)) = 0)"

context running
begin

lemma signaled_alive: "signaled D s t \<Longrightarrow> alive (sh_tx t) = alive (sh_tx s)"
  by (induction rule: signaled.induct) (simp_all add: alive_signal)

lemma signaled_keeps: "signaled D s t \<Longrightarrow> dr_signaled D (sh_tx s) \<Longrightarrow> dr_signaled D (sh_tx t)"
  by (induction rule: signaled.induct) (simp_all add: signaled_signal)

lemma ready_task_inv: "ready_task S D release g g' \<Longrightarrow> run_inv permits D alive g \<Longrightarrow> run_inv permits D alive g'"
proof (induction rule: ready_task.induct)
  case (initialized g)
  then show ?case using poll_ready_iff[of "rn_init g"] by (auto simp: run_inv_def holds_watch_def)
next
  case (signal_seen g)
  then show ?case
    by (auto simp: run_inv_def holds_watch_def shutdown_inv_def alive_release signaled_release)
next
  case (not_ready g)
  then show ?case by (auto simp: run_inv_def holds_watch_def)
qed

lemma main_inv:
  assumes "signaled D (rn_shutdown g) s" and "run_inv permits D alive g"
  shows "run_inv permits D alive (g\<lparr>rn_shutdown := s\<rparr>)"
  using assms(2) signaled_inv[OF assms(1)] signaled_alive[OF assms(1)] signaled_keeps[OF assms(1)] completes_ok[OF assms(1)]
  by (auto simp: run_inv_def)

lemma env_step_inv: "run_env S D alive g g' \<Longrightarrow> run_inv permits D alive g \<Longrightarrow> run_inv permits D alive g'"
proof (induction rule: run_env.induct)
  case (handle_dropped g n)
  then show ?case by (auto simp: run_inv_def init_inv_def handle_drop_def permits_add)
qed (auto simp: run_inv_def shutdown_inv_def)

lemma run_step_inv: "run_step S D release alive g g' \<Longrightarrow> run_inv permits D alive g \<Longrightarrow> run_inv permits D alive g'"
  unfolding run_step_def by (auto elim!: run_task.cases intro: ready_task_inv main_inv env_step_inv)

lemma run_reachable_inv:
  assumes "(run_step S D release alive)\<^sup>*\<^sup>* g0 g" and "run_inv permits D alive g0"
  shows "run_inv permits D alive g"
  using assms by (induction rule: rtranclp_induct) (auto intro: run_step_inv)

lemma run_inv_start:
  assumes "init_inv permits \<lparr>sys_init = ru_initialized r, sys_live = live\<rparr>" and "ru_shutdown r = shutdown_new tx"
    and "\<not> dr_signaled D tx" and "0 < alive tx" and "\<not> ad_ready (ru_admin r)"
  shows "run_inv permits D alive (run_start r live)"
  using assms by (simp add: run_inv_def run_start_def admin_spawn_def holds_watch_def shutdown_inv_def shutdown_new_def)

end

context running
begin

lemma task_drained:
  assumes "run_inv permits D alive g" and "sh_phase (rn_shutdown g) = Draining" and "alive (sh_tx (rn_shutdown g)) = 0"
  shows "\<exists>g'. run_task S D release g g' \<and> sh_phase (rn_shutdown g') = Completed (Inr ())"
  using signaled.drained[of "rn_shutdown g" D] assms(2,3) drained_iff
  by (intro exI[of _ "g\<lparr>rn_shutdown := (rn_shutdown g)\<lparr>sh_phase := Completed (Inr ())\<rparr>\<rparr>"]) (auto intro: run_task.main)

lemma task_signal_seen:
  assumes "run_inv permits D alive g" and "sh_phase (rn_shutdown g) = Draining" and "rn_task g = AwaitSignal"
    and "alive (sh_tx (rn_shutdown g)) = 1"
  shows "\<exists>g'. (run_task S D release)\<^sup>*\<^sup>* g g' \<and> sh_phase (rn_shutdown g') = Completed (Inr ())"
proof -
  let ?g = "g\<lparr>rn_task := SignalSeen, rn_shutdown := (rn_shutdown g)\<lparr>sh_tx := release (sh_tx (rn_shutdown g))\<rparr>\<rparr>"
  have "dr_signaled D (sh_tx (rn_shutdown g))" using assms(1,2) by (simp add: run_inv_def shutdown_inv_def)
  then have step: "ready_task S D release g ?g" using assms(3) by (rule ready_task.signal_seen[rotated])
  then obtain g' where "run_task S D release ?g g'" "sh_phase (rn_shutdown g') = Completed (Inr ())"
    using task_drained[OF ready_task_inv[OF step assms(1)]] assms(2,4) by (auto simp: alive_release)
  with run_task.readiness[OF step] show ?thesis
    by (meson converse_rtranclp_into_rtranclp rtranclp.rtrancl_refl)
qed

lemma task_draining:
  assumes "run_inv permits D alive g" and "sh_phase (rn_shutdown g) = Draining" and "sys_live (rn_init g) = 0"
    and "alive (sh_tx (rn_shutdown g)) = of_bool (holds_watch (rn_task g))"
  shows "\<exists>g'. (run_task S D release)\<^sup>*\<^sup>* g g' \<and> sh_phase (rn_shutdown g') = Completed (Inr ())"
proof (cases "rn_task g")
  case AwaitInit
  let ?g = "g\<lparr>rn_ready := True, rn_task := AwaitSignal\<rparr>"
  have "initialized_poll S (sys_init (rn_init g)) = Ready ()"
    using assms(1,3) poll_ready_iff[of "rn_init g"] by (simp add: run_inv_def)
  then have step: "ready_task S D release g ?g" using AwaitInit by (rule ready_task.initialized[rotated, unfolded readiness_set_def])
  from task_signal_seen[OF ready_task_inv[OF step assms(1)]] AwaitInit assms(2,4)
  obtain g' where "(run_task S D release)\<^sup>*\<^sup>* ?g g'" "sh_phase (rn_shutdown g') = Completed (Inr ())"
    by (auto simp: holds_watch_def)
  with run_task.readiness[OF step] show ?thesis by (meson converse_rtranclp_into_rtranclp)
next
  case AwaitSignal
  then show ?thesis using task_signal_seen assms by (simp add: holds_watch_def)
qed (use task_drained[OF assms(1,2)] assms(4) in \<open>auto simp: holds_watch_def\<close>)

lemma task_completes:
  assumes "run_inv permits D alive g" and "\<And>r. sh_phase (rn_shutdown g) \<noteq> Completed r"
    and "sh_interrupt (rn_shutdown g) \<or> sh_terminate (rn_shutdown g) \<or> sh_phase (rn_shutdown g) = Draining"
    and "sys_live (rn_init g) = 0" and "alive (sh_tx (rn_shutdown g)) = of_bool (holds_watch (rn_task g))"
  shows "\<exists>g'. (run_task S D release)\<^sup>*\<^sup>* g g' \<and> sh_phase (rn_shutdown g') = Completed (Inr ())"
proof (cases "sh_phase (rn_shutdown g)")
  case Watching
  with assms(3) obtain s where s: "signaled D (rn_shutdown g) s" "sh_phase s = Draining"
    by (auto dest: signaled.interrupt[of "rn_shutdown g" D] signaled.terminate[of "rn_shutdown g" D])
  from task_draining[OF main_inv[OF s(1) assms(1)]] s assms(4,5) signaled_alive[OF s(1)]
  obtain g' where "(run_task S D release)\<^sup>*\<^sup>* (g\<lparr>rn_shutdown := s\<rparr>) g'" "sh_phase (rn_shutdown g') = Completed (Inr ())"
    by auto
  with run_task.main[OF s(1)] show ?thesis by (meson converse_rtranclp_into_rtranclp)
qed (use task_draining assms in auto)

end

subsection \<open>Properties\<close>

text \<open>
  C5. A running runtime, over every interleaving of its tasks with arriving signals and with handles and
  watches being dropped elsewhere, when nothing else sets the readiness flag: the readiness probe
  succeeds only while no component is still initializing; once the readiness task is done the probe
  fails; and \<open>run\<close> returns successfully only after a signal, when every component has initialized and
  no watch is alive.
\<close>
theorem run_readiness:
  assumes "running S permits D alive release"
    and "(init_step True S)\<^sup>*\<^sup>* (init_system S) \<lparr>sys_init = ru_initialized r, sys_live = live\<rparr>"
    and "ru_shutdown r = shutdown_new tx" and "\<not> dr_signaled D tx" and "0 < alive tx" and "\<not> ad_ready (ru_admin r)"
    and "(run_step S D release alive)\<^sup>*\<^sup>* (run_start r live) g"
  shows "(hs_status (handle_ready (rn_ready g) req) = 200 \<longrightarrow> sys_live (rn_init g) = 0) \<and>
    (rn_task g = ReadyDone \<longrightarrow> \<not> rn_ready g) \<and>
    (sh_phase (rn_shutdown g) = Completed (Inr ()) \<longrightarrow>
       sys_live (rn_init g) = 0 \<and> alive (sh_tx (rn_shutdown g)) = 0 \<and> 1 \<le> sh_delivered (rn_shutdown g) \<and>
       (rn_task g = SignalSeen \<or> rn_task g = ReadyDone))"
proof -
  have "semaphore S permits" using assms(1) by (rule running.axioms(1))
  note inv = semaphore.reachable_inv[OF this assms(2)]
  have "run_inv permits D alive g"
    using running.run_reachable_inv[OF assms(1,7) running.run_inv_start[OF assms(1) inv assms(3-6)]] .
  then show ?thesis
    by (cases "rn_task g") (auto simp: run_inv_def holds_watch_def shutdown_inv_def handle_ready_def empty_response_def
        split: if_splits)
qed

lemma demo_runtime_init:
  "(init_step True counting_semaphore)\<^sup>*\<^sup>* (init_system counting_semaphore)
     \<lparr>sys_init = ru_initialized demo_runtime, sys_live = 0\<rparr>"
  by (simp add: demo_runtime_def init_system_def)

text \<open>A run: ready, then SIGTERM, and the main task returns before the flag is cleared.\<close>

definition returned_ready :: "(nat, nat \<times> bool) run_state" where
  "returned_ready = \<lparr>rn_init = \<lparr>sys_init = initialized_default counting_semaphore, sys_live = 0\<rparr>, rn_ready = True,
     rn_task = SignalSeen, rn_shutdown = \<lparr>sh_phase = Completed (Inr ()), sh_interrupt = False, sh_terminate = False,
       sh_tx = (0, True), sh_delivered = 1\<rparr>\<rparr>"

lemma returned_ready_reachable:
  "(run_step counting_semaphore counting_drain counting_release fst)\<^sup>*\<^sup>* (run_start demo_runtime 0) returned_ready"
proof -
  let ?step = "run_step counting_semaphore counting_drain counting_release fst"
  let ?g = "\<lambda>ready task phase term tx n. \<lparr>rn_init = \<lparr>sys_init = initialized_default counting_semaphore, sys_live = 0\<rparr>,
     rn_ready = ready, rn_task = task, rn_shutdown = \<lparr>sh_phase = phase, sh_interrupt = False, sh_terminate = term,
       sh_tx = tx, sh_delivered = n\<rparr>\<rparr>"
  have s0: "run_start demo_runtime 0 = ?g False AwaitInit Watching False (1, False) 0"
    by (simp add: run_start_def demo_runtime_def admin_spawn_def shutdown_new_def)
  have s1: "?step (?g False AwaitInit Watching False (1, False) 0) (?g True AwaitSignal Watching False (1, False) 0)"
    using ready_task.initialized[of "?g False AwaitInit Watching False (1, False) 0", where S = counting_semaphore
        and D = counting_drain and release = counting_release]
    by (simp add: run_step_def run_task.readiness initialized_poll_def initialized_default_def counting_semaphore_def)
  have s2: "?step (?g True AwaitSignal Watching False (1, False) 0) (?g True AwaitSignal Watching True (1, False) 1)"
    using run_env.sigterm[of counting_semaphore counting_drain fst "?g True AwaitSignal Watching False (1, False) 0"]
    by (simp add: run_step_def)
  have s3: "?step (?g True AwaitSignal Watching True (1, False) 1) (?g True AwaitSignal Draining False (1, True) 1)"
    using run_task.main[OF signaled.terminate, of "?g True AwaitSignal Watching True (1, False) 1", where D = counting_drain
        and S = counting_semaphore and release = counting_release]
    by (simp add: run_step_def counting_drain_def)
  have s4: "?step (?g True AwaitSignal Draining False (1, True) 1) (?g True SignalSeen Draining False (0, True) 1)"
    using ready_task.signal_seen[of "?g True AwaitSignal Draining False (1, True) 1" counting_drain, where S = counting_semaphore
        and release = counting_release]
    by (simp add: run_step_def run_task.readiness counting_drain_def counting_release_def)
  have s5: "?step (?g True SignalSeen Draining False (0, True) 1) returned_ready"
    using run_task.main[OF signaled.drained, of "?g True SignalSeen Draining False (0, True) 1", where D = counting_drain
        and S = counting_semaphore and release = counting_release]
    by (simp add: run_step_def counting_drain_def returned_ready_def)
  note more = converse_rtranclp_into_rtranclp[of ?step]
  show ?thesis unfolding s0
    by (rule more[OF s1 more[OF s2 more[OF s3 more[OF s4 r_into_rtranclp[of ?step, OF s5]]]]])
qed

theorem run_readiness_witness:
  "sh_phase (rn_shutdown returned_ready) = Completed (Inr ()) \<and> sys_live (rn_init returned_ready) = 0 \<and>
   fst (sh_tx (rn_shutdown returned_ready)) = 0 \<and> 1 \<le> sh_delivered (rn_shutdown returned_ready)"
  using run_readiness[OF counting_running.running_axioms demo_runtime_init _ _ _ _ returned_ready_reachable, where tx = "(1, False)"]
  by (simp add: demo_runtime_def counting_drain_def) (simp add: returned_ready_def)

text \<open>
  C31. \<open>run\<close> can return successfully while the readiness probe still succeeds: the readiness task gives
  up its watch, which lets the main task finish, before it clears the flag.
\<close>
theorem run_returns_while_ready:
  "\<exists>g. (run_step counting_semaphore counting_drain counting_release fst)\<^sup>*\<^sup>* (run_start demo_runtime 0) g \<and>
     sh_phase (rn_shutdown g) = Completed (Inr ()) \<and>
     hs_status (handle_ready (rn_ready g) \<lparr>hq_method = GET, hq_path = ''/ready'', hq_query = None\<rparr>) = 200"
  using returned_ready_reachable
  by (intro exI[of _ returned_ready]) (simp add: returned_ready_def handle_ready_def)

text \<open>
  Shutdown completes: in every reachable state in which a signal has been received or is waiting, no
  component is still initializing and no watch is alive but that of the readiness task, the tasks of the
  runtime can by themselves reach the successful return of \<open>run\<close>.
\<close>
theorem run_completes:
  assumes "running S permits D alive release"
    and "(init_step True S)\<^sup>*\<^sup>* (init_system S) \<lparr>sys_init = ru_initialized r, sys_live = live\<rparr>"
    and "ru_shutdown r = shutdown_new tx" and "\<not> dr_signaled D tx" and "0 < alive tx" and "\<not> ad_ready (ru_admin r)"
    and "(run_step S D release alive)\<^sup>*\<^sup>* (run_start r live) g"
    and "\<And>r. sh_phase (rn_shutdown g) \<noteq> Completed r"
    and "sh_interrupt (rn_shutdown g) \<or> sh_terminate (rn_shutdown g) \<or> sh_phase (rn_shutdown g) = Draining"
    and "sys_live (rn_init g) = 0" and "alive (sh_tx (rn_shutdown g)) = of_bool (holds_watch (rn_task g))"
  shows "\<exists>g'. (run_task S D release)\<^sup>*\<^sup>* g g' \<and> sh_phase (rn_shutdown g') = Completed (Inr ())"
proof -
  have "semaphore S permits" using assms(1) by (rule running.axioms(1))
  note inv = semaphore.reachable_inv[OF this assms(2)]
  show ?thesis
    using running.task_completes[OF assms(1) running.run_reachable_inv[OF assms(1,7)
          running.run_inv_start[OF assms(1) inv assms(3-6)]] assms(8-11)] .
qed

definition signaled_start :: "(nat, nat \<times> bool) run_state" where
  "signaled_start = (run_start demo_runtime 0)\<lparr>rn_shutdown :=
     (ru_shutdown demo_runtime)\<lparr>sh_terminate := True, sh_delivered := 1\<rparr>\<rparr>"

lemma signaled_start_reachable:
  "(run_step counting_semaphore counting_drain counting_release fst)\<^sup>*\<^sup>* (run_start demo_runtime 0) signaled_start"
  using run_env.sigterm[of counting_semaphore counting_drain fst "run_start demo_runtime 0"]
  by (intro r_into_rtranclp) (simp add: run_step_def signaled_start_def run_start_def demo_runtime_def shutdown_new_def Let_def)

theorem run_completes_witness:
  "\<exists>g'. (run_task counting_semaphore counting_drain counting_release)\<^sup>*\<^sup>* signaled_start g' \<and>
     sh_phase (rn_shutdown g') = Completed (Inr ())"
  by (rule run_completes[OF counting_running.running_axioms demo_runtime_init _ _ _ _ signaled_start_reachable, where tx = "(1, False)"])
    (simp_all add: demo_runtime_def counting_drain_def signaled_start_def run_start_def
      shutdown_new_def holds_watch_def Let_def)

end
