(* ===== verification/Runtime_System.thy ===== *)
theory Runtime_System
  imports Runtime_Run
begin

text \<open>
  A running program with an HTTPS server: \<open>Runtime::spawn_server\<close> followed by
  \<open>Runtime::run\<close> (\<open>kubert/src/runtime.rs\<close>), the tasks of the server
  (\<open>kubert/src/server.rs\<close>), and the other holders of a drain watch, such as the streams of watches and
  caches. The components are those of \<open>Runtime_Run\<close> and \<open>Server\<close>; here they share one drain
  channel, so that every task that holds a watch keeps the process from completing its shutdown.
\<close>

subsection \<open>The composed system\<close>

text \<open>
  \<open>sy_others\<close> counts the watches that neither the readiness task nor the server holds. A watch
  is cloned for every new task of the server and given up when the task ends.
\<close>

record ('m, 'd) system_state =
  sy_run :: "('m, 'd) run_state"
  sy_http :: server_state
  sy_others :: nat

abbreviation sy_tx :: "('m, 'd) system_state \<Rightarrow> 'd" where
  "sy_tx y \<equiv> sh_tx (rn_shutdown (sy_run y))"

abbreviation sy_phase :: "('m, 'd) system_state \<Rightarrow> shutdown_phase" where
  "sy_phase y \<equiv> sh_phase (rn_shutdown (sy_run y))"

definition set_tx :: "'d \<Rightarrow> ('m, 'd) run_state \<Rightarrow> ('m, 'd) run_state" where
  "set_tx tx g = g\<lparr>rn_shutdown := (rn_shutdown g)\<lparr>sh_tx := tx\<rparr>\<rparr>"

definition move_watches :: "('d \<Rightarrow> 'd) \<Rightarrow> ('d \<Rightarrow> 'd) \<Rightarrow> nat \<Rightarrow> nat \<Rightarrow> 'd \<Rightarrow> 'd" where
  "move_watches clone release before after tx =
     (if before < after then clone tx else if after < before then release tx else tx)"

inductive system_step ::
  "'m sem_api \<Rightarrow> 'd drain_api \<Rightarrow> ('d \<Rightarrow> 'd) \<Rightarrow> ('d \<Rightarrow> 'd) \<Rightarrow> ('d \<Rightarrow> nat) \<Rightarrow>
   ('m, 'd) system_state \<Rightarrow> ('m, 'd) system_state \<Rightarrow> bool"
  for S D clone release alive where
  runtime: "run_task S D release (sy_run y) g \<Longrightarrow>
    system_step S D clone release alive y
      (y\<lparr>sy_run := g, sy_http := (sy_http y)\<lparr>ss_signaled := dr_signaled D (sh_tx (rn_shutdown g))\<rparr>\<rparr>)"
| outside: "run_env S D alive (sy_run y) g \<Longrightarrow> sh_tx (rn_shutdown g) = sy_tx y \<Longrightarrow>
    system_step S D clone release alive y (y\<lparr>sy_run := g\<rparr>)"
| http: "server_step (sy_http y) h \<Longrightarrow> ss_signaled h = ss_signaled (sy_http y) \<Longrightarrow>
    system_step S D clone release alive y
      (y\<lparr>sy_http := h,
         sy_run := set_tx (move_watches clone release (server_watches (sy_http y)) (server_watches h) (sy_tx y)) (sy_run y)\<rparr>)"
| watch_cloned: "0 < sy_others y \<Longrightarrow>
    system_step S D clone release alive y
      (y\<lparr>sy_others := Suc (sy_others y), sy_run := set_tx (clone (sy_tx y)) (sy_run y)\<rparr>)"
| watch_dropped: "sy_others y = Suc n \<Longrightarrow>
    system_step S D clone release alive y (y\<lparr>sy_others := n, sy_run := set_tx (release (sy_tx y)) (sy_run y)\<rparr>)"

text \<open>
  \<open>spawn_server\<close> gives the server a clone of the runtime's watch; \<open>run\<close> keeps the watch itself
  for the readiness task.
\<close>

definition system_start ::
  "('addr, 'l, 'client, 'm, 'rx, 'd, ('addr, 'l2) server_bound) runtime \<Rightarrow> 'svc \<Rightarrow> nat \<Rightarrow> nat \<Rightarrow> ('m, 'd) system_state" where
  "system_start r service live others =
     (case spawn_server r service of ((bound, _, _), r) \<Rightarrow>
        \<lparr>sy_run = run_start r live, sy_http = server_start (server_spawn bound), sy_others = others\<rparr>)"

subsection \<open>The contract of cloned watches\<close>

locale shared_drain = running S permits D alive release
  for S :: "'m sem_api" and permits :: "'m \<Rightarrow> nat" and D :: "'d drain_api" and alive :: "'d \<Rightarrow> nat" and release :: "'d \<Rightarrow> 'd" +
  fixes clone :: "'d \<Rightarrow> 'd"
  assumes alive_clone: "alive (clone d) = Suc (alive d)"
    and signaled_clone: "dr_signaled D (clone d) = dr_signaled D d"

definition counting_clone :: "nat \<times> bool \<Rightarrow> nat \<times> bool" where
  "counting_clone d = (Suc (fst d), snd d)"

interpretation counting_shared: shared_drain counting_semaphore id counting_drain fst counting_release counting_clone
  by unfold_locales (auto simp: counting_clone_def counting_drain_def)

subsection \<open>What the watches add up to\<close>

definition system_inv :: "('m \<Rightarrow> nat) \<Rightarrow> 'd drain_api \<Rightarrow> ('d \<Rightarrow> nat) \<Rightarrow> ('m, 'd) system_state \<Rightarrow> bool" where
  "system_inv permits D alive y \<longleftrightarrow>
     run_inv permits D alive (sy_run y) \<and> server_inv (sy_http y) \<and>
     ss_signaled (sy_http y) = dr_signaled D (sy_tx y) \<and>
     alive (sy_tx y) = of_bool (holds_watch (rn_task (sy_run y))) + server_watches (sy_http y) + sy_others y"

lemma set_conn_watches:
  assumes "i < length (ss_conns s)"
  shows "server_watches (set_conn i f s) + of_bool (cn_task (ss_conns s ! i) \<noteq> Released) =
    server_watches s + of_bool (cn_task (f (ss_conns s ! i)) \<noteq> Released)"
proof -
  let ?P = "\<lambda>c. cn_task c \<noteq> Released"
  have "length (filter ?P ((ss_conns s)[i := c])) = length (filter ?P (take i (ss_conns s))) + of_bool (?P c) +
      length (filter ?P (drop (Suc i) (ss_conns s)))" for c
    using assms by (simp add: upd_conv_take_nth_drop)
  from this[of "ss_conns s ! i"] this[of "f (ss_conns s ! i)"] show ?thesis by (simp add: server_watches_def)
qed

text \<open>A step of the server takes or gives up at most one watch, and takes one only while it holds one.\<close>

lemma server_step_watches:
  assumes "server_step s t"
  shows "server_watches t = server_watches s \<or>
    Suc (server_watches t) = server_watches s \<or>
    server_watches t = Suc (server_watches s) \<and> 0 < server_watches s"
  using assms
proof (induction rule: server_step.induct)
  case (refused i s)
  then show ?case using set_conn_watches[OF refused(1), of "\<lambda>c. c\<lparr>cn_task := Released, cn_open := False\<rparr>"] by simp
next
  case (serving i s)
  then show ?case using set_conn_watches[OF serving(1), of "\<lambda>c. c\<lparr>cn_task := AwaitDrain, cn_served := True\<rparr>"] by simp
next
  case (close i s)
  then show ?case using set_conn_watches[OF close(1), of "\<lambda>c. c\<lparr>cn_open := False\<rparr>"] by simp
next
  case (latch i s)
  then show ?case using set_conn_watches[OF latch(1), of "\<lambda>c. c\<lparr>cn_task := AwaitClose\<rparr>"] by simp
next
  case (release i s)
  then show ?case using set_conn_watches[OF release(1), of "\<lambda>c. c\<lparr>cn_task := Released\<rparr>"] by simp
qed (auto simp: server_watches_def spawned_join_def spawned_abort_def split: accept_phase.splits)

lemma server_signal_steps:
  assumes "ss_signaled h \<Longrightarrow> b"
  shows "server_step\<^sup>*\<^sup>* h (h\<lparr>ss_signaled := b\<rparr>)"
proof (cases "b = ss_signaled h")
  case True
  then have "h\<lparr>ss_signaled := b\<rparr> = h" by (cases h) simp
  then show ?thesis by simp
next
  case False
  with assms show ?thesis using server_step.signal[of h] by auto
qed

lemma server_steps_inv: "server_step\<^sup>*\<^sup>* h h' \<Longrightarrow> server_inv h \<Longrightarrow> server_inv h'"
  by (induction rule: rtranclp_induct) (auto intro: server_step_inv)

lemma server_watches_signal [simp]: "server_watches (h\<lparr>ss_signaled := b\<rparr>) = server_watches h"
  by (simp add: server_watches_def)

context shared_drain
begin

lemma move_watches_alive:
  assumes "b = a \<or> Suc a = b \<or> a = Suc b" and "b \<le> alive tx"
  shows "alive (move_watches clone release b a tx) + b = alive tx + a"
    and "dr_signaled D (move_watches clone release b a tx) = dr_signaled D tx"
  using assms by (auto simp: move_watches_def alive_clone alive_release signaled_clone signaled_release)

text \<open>The runtime sees a change of the watches of others as a step of its environment.\<close>

lemma set_tx_env:
  assumes "dr_signaled D tx = dr_signaled D (sh_tx (rn_shutdown g))" and "alive (sh_tx (rn_shutdown g)) = 0 \<Longrightarrow> alive tx = 0"
    and "holds_watch (rn_task g) \<Longrightarrow> 0 < alive tx"
  shows "run_step S D release alive g (set_tx tx g)"
  using run_env.watches[of D tx g alive S] assms by (simp add: run_step_def set_tx_def)

lemma run_task_watches:
  assumes "run_task S D release g g'" and "holds_watch (rn_task g) \<Longrightarrow> 0 < alive (sh_tx (rn_shutdown g))"
  shows "alive (sh_tx (rn_shutdown g')) + of_bool (holds_watch (rn_task g)) =
    alive (sh_tx (rn_shutdown g)) + of_bool (holds_watch (rn_task g'))"
    and "dr_signaled D (sh_tx (rn_shutdown g)) \<Longrightarrow> dr_signaled D (sh_tx (rn_shutdown g'))"
  using assms
  by (auto elim!: run_task.cases ready_task.cases simp: holds_watch_def alive_release signaled_release signaled_alive
      dest: signaled_keeps)

lemma system_step_inv:
  assumes "system_step S D clone release alive y y'" and "system_inv permits D alive y"
  shows "system_inv permits D alive y' \<and> (run_step S D release alive)\<^sup>*\<^sup>* (sy_run y) (sy_run y') \<and>
    server_step\<^sup>*\<^sup>* (sy_http y) (sy_http y')"
  using assms
proof (induction rule: system_step.induct)
  case (runtime y g)
  have step: "run_step S D release alive (sy_run y) g" using runtime(1) by (simp add: run_step_def)
  have inv: "run_inv permits D alive g" using run_step_inv[OF step] runtime(2) by (simp add: system_inv_def)
  have watch: "holds_watch (rn_task (sy_run y)) \<Longrightarrow> 0 < alive (sy_tx y)" using runtime(2) by (simp add: system_inv_def)
  have "server_step\<^sup>*\<^sup>* (sy_http y) ((sy_http y)\<lparr>ss_signaled := dr_signaled D (sh_tx (rn_shutdown g))\<rparr>)"
    using run_task_watches(2)[OF runtime(1) watch] runtime(2) by (intro server_signal_steps) (simp add: system_inv_def)
  with inv step run_task_watches(1)[OF runtime(1) watch] runtime(2) server_steps_inv show ?case
    by (auto simp: system_inv_def)
next
  case (outside y g)
  have step: "run_step S D release alive (sy_run y) g" using outside(1) by (simp add: run_step_def)
  have "holds_watch (rn_task g) = holds_watch (rn_task (sy_run y))" using outside(1) by (auto elim: run_env.cases)
  with step run_step_inv[OF step] outside(2,3) show ?case by (auto simp: system_inv_def)
next
  case (http y h)
  let ?tx = "move_watches clone release (server_watches (sy_http y)) (server_watches h) (sy_tx y)"
  have "server_watches (sy_http y) \<le> alive (sy_tx y)" using http(3) by (simp add: system_inv_def)
  with move_watches_alive[of "server_watches (sy_http y)" "server_watches h" "sy_tx y"] server_step_watches[OF http(1)]
  have tx: "alive ?tx + server_watches (sy_http y) = alive (sy_tx y) + server_watches h" "dr_signaled D ?tx = dr_signaled D (sy_tx y)"
    by auto
  have step: "run_step S D release alive (sy_run y) (set_tx ?tx (sy_run y))"
    by (rule set_tx_env) (use tx server_step_watches[OF http(1)] http(3) in \<open>auto simp: system_inv_def\<close>)
  from run_step_inv[OF step] step tx http server_step_inv[OF http(1)] show ?case
    by (auto simp: system_inv_def set_tx_def)
next
  case (watch_cloned y)
  have step: "run_step S D release alive (sy_run y) (set_tx (clone (sy_tx y)) (sy_run y))"
    by (rule set_tx_env) (use watch_cloned in \<open>auto simp: system_inv_def alive_clone signaled_clone\<close>)
  from run_step_inv[OF step] step watch_cloned show ?case
    by (auto simp: system_inv_def set_tx_def alive_clone signaled_clone)
next
  case (watch_dropped y n)
  have step: "run_step S D release alive (sy_run y) (set_tx (release (sy_tx y)) (sy_run y))"
    by (rule set_tx_env) (use watch_dropped in \<open>auto simp: system_inv_def alive_release signaled_release\<close>)
  from run_step_inv[OF step] step watch_dropped show ?case
    by (auto simp: system_inv_def set_tx_def alive_release signaled_release)
qed

end

subsection \<open>Every run is a run of the runtime and of the server\<close>

context shared_drain
begin

lemma system_reachable:
  assumes "(system_step S D clone release alive)\<^sup>*\<^sup>* y0 y" and "system_inv permits D alive y0"
  shows "system_inv permits D alive y \<and> (run_step S D release alive)\<^sup>*\<^sup>* (sy_run y0) (sy_run y) \<and>
    server_step\<^sup>*\<^sup>* (sy_http y0) (sy_http y)"
  using assms
proof (induction rule: rtranclp_induct)
  case (step y y')
  then show ?case using system_step_inv[OF step(2)] by (meson rtranclp_trans)
qed simp

lemma system_inv_start:
  assumes "init_inv permits \<lparr>sys_init = ru_initialized r, sys_live = live\<rparr>" and "ru_shutdown r = shutdown_new tx"
    and "\<not> dr_signaled D tx" and "alive tx = 2 + others" and "\<not> ad_ready (ru_admin r)"
  shows "system_inv permits D alive (system_start r service live others)"
proof -
  let ?r = "runtime_set_server no_server r"
  have "run_inv permits D alive (run_start ?r live)"
    using run_inv_start[of ?r live tx] assms by (simp add: runtime_set_server_def)
  moreover have "server_inv (server_start (server_spawn (ru_server r)))"
    using server_reachable_inv by blast
  ultimately show ?thesis
    using assms by (simp add: system_inv_def system_start_def spawn_server_def spawn_server_inner_def server_start_def
        server_spawn_def server_watches_def spawned_join_def run_start_def runtime_set_server_def shutdown_new_def
        holds_watch_def Let_def)
qed

end

subsection \<open>Shutdown can always complete\<close>

text \<open>After the signal every task of the server has a step that brings it closer to its end.\<close>

definition conn_rank :: "conn_state \<Rightarrow> nat" where
  "conn_rank c = (case cn_task c of Handshake \<Rightarrow> 1 | AwaitDrain \<Rightarrow> 2 | AwaitClose \<Rightarrow> 1 | Released \<Rightarrow> 0) + of_bool (cn_open c)"

definition server_rank :: "server_state \<Rightarrow> nat" where
  "server_rank h = (case ss_accept h of Idle \<Rightarrow> 1 | Polled \<Rightarrow> 2 | _ \<Rightarrow> 0) + sum_list (map conn_rank (ss_conns h))"

lemma set_conn_rank:
  assumes "i < length (ss_conns h)" and "conn_rank (f (ss_conns h ! i)) < conn_rank (ss_conns h ! i)"
  shows "server_rank (set_conn i f h) < server_rank h"
proof -
  have "conn_rank (ss_conns h ! i) \<le> sum_list (map conn_rank (ss_conns h))"
    using assms(1) by (intro member_le_sum_list) auto
  then show ?thesis using assms by (simp add: server_rank_def map_update sum_list_update)
qed

lemma conn_progress:
  assumes "server_inv h" and "ss_signaled h" and "i < length (ss_conns h)" and "cn_task (ss_conns h ! i) \<noteq> Released"
  shows "\<exists>h'. server_step h h' \<and> ss_signaled h' \<and> server_rank h' < server_rank h"
proof -
  let ?c = "ss_conns h ! i"
  have inv: "conn_inv True ?c" using assms(1-3) by (auto simp: server_inv_def)
  have closer: ?thesis if "server_step h (h\<lparr>ss_conns := (ss_conns h)[i := c]\<rparr>)" "conn_rank c < conn_rank ?c" for c
    using that set_conn_rank[OF assms(3), of "\<lambda>_. c"] assms(2) by auto
  show ?thesis
  proof (cases "cn_task ?c")
    case Handshake
    then show ?thesis by (intro closer[OF server_step.refused[OF assms(3)]]) (simp_all add: conn_rank_def)
  next
    case AwaitDrain
    then show ?thesis using assms(2) by (intro closer[OF server_step.latch[OF assms(3)]]) (simp_all add: conn_rank_def)
  next
    case AwaitClose
    with inv have "cn_served ?c" by (simp add: conn_inv_def)
    with AwaitClose show ?thesis
      using closer[OF server_step.close[OF assms(3)]] closer[OF server_step.release[OF assms(3)]]
      by (cases "cn_open ?c") (simp_all add: conn_rank_def)
  qed (use assms(4) in simp)
qed

lemma accept_progress:
  assumes "ss_signaled h" and "spawned_join (ss_accept h) = Pending"
  shows "\<exists>h'. server_step h h' \<and> ss_signaled h' \<and> server_rank h' < server_rank h"
proof (cases "ss_accept h")
  case Idle
  with assms server_step.drained[of h] show ?thesis by (fastforce simp: server_rank_def)
next
  case Polled
  with assms server_step.not_accepted[of h] show ?thesis by (fastforce simp: server_rank_def)
qed (use assms in \<open>simp_all add: spawned_join_def\<close>)

lemma server_progress:
  assumes "server_inv h" and "ss_signaled h" and "server_watches h \<noteq> 0"
  shows "\<exists>h'. server_step h h' \<and> ss_signaled h' \<and> server_rank h' < server_rank h"
proof (cases "spawned_join (ss_accept h) = Pending")
  case False
  with assms(3) obtain c where "c \<in> set (ss_conns h)" "cn_task c \<noteq> Released"
    by (auto simp: server_watches_def filter_empty_conv)
  then show ?thesis using conn_progress[OF assms(1,2)] by (auto simp: in_set_conv_nth)
qed (rule accept_progress[OF assms(2)])

context shared_drain
begin

lemma set_tx_simps [simp]:
  "sh_tx (rn_shutdown (set_tx tx g)) = tx" "set_tx tx (set_tx tx' g) = set_tx tx g" "set_tx (sh_tx (rn_shutdown g)) g = g"
  "sh_phase (rn_shutdown (set_tx tx g)) = sh_phase (rn_shutdown g)" "rn_init (set_tx tx g) = rn_init g" "rn_task (set_tx tx g) = rn_task g"
  by (simp_all add: set_tx_def)

text \<open>Once the drain is signaled the server can give up all its watches, and so can the others.\<close>

lemma http_drains:
  assumes "system_inv permits D alive y" and "dr_signaled D (sy_tx y)"
  shows "\<exists>y' tx. (system_step S D clone release alive)\<^sup>*\<^sup>* y y' \<and> server_watches (sy_http y') = 0 \<and>
    sy_others y' = sy_others y \<and> sy_run y' = set_tx tx (sy_run y) \<and> dr_signaled D tx"
  using assms
proof (induction "server_rank (sy_http y)" arbitrary: y rule: less_induct)
  case less
  show ?case
  proof (cases "server_watches (sy_http y) = 0")
    case True
    then show ?thesis using less.prems by (intro exI[of _ y] exI[of _ "sy_tx y"]) simp
  next
    case False
    with less.prems obtain h where h: "server_step (sy_http y) h" "ss_signaled h" "server_rank h < server_rank (sy_http y)"
      using server_progress[of "sy_http y"] by (auto simp: system_inv_def)
    let ?tx = "move_watches clone release (server_watches (sy_http y)) (server_watches h) (sy_tx y)"
    let ?y = "y\<lparr>sy_http := h, sy_run := set_tx ?tx (sy_run y)\<rparr>"
    have step: "system_step S D clone release alive y ?y"
      using system_step.http[OF h(1)] h(2) less.prems by (simp add: system_inv_def)
    from system_step_inv[OF step less.prems(1)] h(2) have "system_inv permits D alive ?y" "dr_signaled D (sy_tx ?y)"
      by (auto simp: system_inv_def)
    from less.hyps[OF _ this] h(3) obtain y' tx where
      "(system_step S D clone release alive)\<^sup>*\<^sup>* ?y y'" "server_watches (sy_http y') = 0"
      "sy_others y' = sy_others y" "sy_run y' = set_tx tx (sy_run y)" "dr_signaled D tx" by auto
    then show ?thesis using converse_rtranclp_into_rtranclp[of "system_step S D clone release alive", OF step] by blast
  qed
qed

lemma others_drop:
  "\<exists>y' tx. (system_step S D clone release alive)\<^sup>*\<^sup>* y y' \<and> sy_others y' = 0 \<and> sy_http y' = sy_http y \<and>
    sy_run y' = set_tx tx (sy_run y)"
proof (induction "sy_others y" arbitrary: y)
  case 0
  then show ?case by (intro exI[of _ y] exI[of _ "sy_tx y"]) simp
next
  case (Suc n)
  let ?y = "y\<lparr>sy_others := n, sy_run := set_tx (release (sy_tx y)) (sy_run y)\<rparr>"
  have step: "system_step S D clone release alive y ?y" using Suc.hyps(2) by (intro system_step.watch_dropped) simp
  from Suc.hyps(1)[of ?y] obtain y' tx where "(system_step S D clone release alive)\<^sup>*\<^sup>* ?y y'" "sy_others y' = 0"
    "sy_http y' = sy_http y" "sy_run y' = set_tx tx (sy_run y)" by auto
  then show ?case using converse_rtranclp_into_rtranclp[of "system_step S D clone release alive", OF step] by blast
qed

lemma run_tasks_lift:
  assumes "(run_task S D release)\<^sup>*\<^sup>* (sy_run y) g"
  shows "\<exists>y'. (system_step S D clone release alive)\<^sup>*\<^sup>* y y' \<and> sy_run y' = g"
  using assms
proof (induction rule: rtranclp_induct)
  case (step g g')
  then obtain y' where y': "(system_step S D clone release alive)\<^sup>*\<^sup>* y y'" "sy_run y' = g" by blast
  with step(2) have "run_task S D release (sy_run y') g'" by simp
  from rtranclp.rtrancl_into_rtrancl[OF y'(1) system_step.runtime[OF this]] show ?case by (intro exI conjI, assumption) simp
qed auto

lemma handles_drop:
  "\<exists>y'. (system_step S D clone release alive)\<^sup>*\<^sup>* y y' \<and> sys_live (rn_init (sy_run y')) = 0 \<and>
    rn_shutdown (sy_run y') = rn_shutdown (sy_run y)"
proof (induction "sys_live (rn_init (sy_run y))" arbitrary: y)
  case 0
  then show ?case by (intro exI[of _ y]) simp
next
  case (Suc n)
  let ?i = "sys_init (rn_init (sy_run y))"
  let ?g = "(sy_run y)\<lparr>rn_init := \<lparr>sys_init = ?i\<lparr>ini_semaphore := handle_drop S (ini_semaphore ?i)\<rparr>, sys_live = n\<rparr>\<rparr>"
  have "run_env S D alive (sy_run y) ?g" using Suc.hyps(2) by (intro run_env.handle_dropped) simp
  from system_step.outside[OF this, where clone = clone and release = release]
  have step: "system_step S D clone release alive y (y\<lparr>sy_run := ?g\<rparr>)" by simp
  from Suc.hyps(1)[of "y\<lparr>sy_run := ?g\<rparr>"] obtain y' where
    "(system_step S D clone release alive)\<^sup>*\<^sup>* (y\<lparr>sy_run := ?g\<rparr>) y'" "sys_live (rn_init (sy_run y')) = 0"
    "rn_shutdown (sy_run y') = rn_shutdown (sy_run y)" by auto
  then show ?case using converse_rtranclp_into_rtranclp[of "system_step S D clone release alive", OF step] by blast
qed

lemma draining_completes:
  assumes "system_inv permits D alive y" and "sy_phase y = Draining"
  shows "\<exists>y'. (system_step S D clone release alive)\<^sup>*\<^sup>* y y' \<and> sy_phase y' = Completed (Inr ())"
proof -
  let ?steps = "(system_step S D clone release alive)\<^sup>*\<^sup>*"
  obtain y1 where y1: "?steps y y1" "sys_live (rn_init (sy_run y1)) = 0" "rn_shutdown (sy_run y1) = rn_shutdown (sy_run y)"
    using handles_drop by blast
  have inv1: "system_inv permits D alive y1" using system_reachable[OF y1(1) assms(1)] by simp
  then have "dr_signaled D (sy_tx y1)" using y1(3) assms(2) by (simp add: system_inv_def run_inv_def shutdown_inv_def)
  from http_drains[OF inv1 this] obtain y2 tx2 where y2: "?steps y1 y2" "server_watches (sy_http y2) = 0"
    "sy_run y2 = set_tx tx2 (sy_run y1)" by blast
  obtain y3 tx3 where y3: "?steps y2 y3" "sy_others y3 = 0" "sy_http y3 = sy_http y2" "sy_run y3 = set_tx tx3 (sy_run y2)"
    using others_drop by blast
  have "?steps y y3" using y1(1) y2(1) y3(1) by auto
  note inv3 = conjunct1[OF system_reachable[OF this assms(1)]]
  have "\<exists>g'. (run_task S D release)\<^sup>*\<^sup>* (sy_run y3) g' \<and> sh_phase (rn_shutdown g') = Completed (Inr ())"
    using inv3 y1 y2 y3 assms(2) by (intro task_draining) (simp_all add: system_inv_def)
  then obtain y4 where "?steps y3 y4" "sy_phase y4 = Completed (Inr ())" using run_tasks_lift by blast
  with \<open>?steps y y3\<close> show ?thesis by (meson rtranclp_trans)
qed

lemma signaled_completes:
  assumes "system_inv permits D alive y" and "\<And>r. sy_phase y \<noteq> Completed r"
    and "sh_interrupt (rn_shutdown (sy_run y)) \<or> sh_terminate (rn_shutdown (sy_run y)) \<or> sy_phase y = Draining"
  shows "\<exists>y'. (system_step S D clone release alive)\<^sup>*\<^sup>* y y' \<and> sy_phase y' = Completed (Inr ())"
proof (cases "sy_phase y")
  case Watching
  with assms(3) obtain s where s: "signaled D (rn_shutdown (sy_run y)) s" "sh_phase s = Draining"
    by (auto dest: signaled.interrupt[of "rn_shutdown (sy_run y)" D] signaled.terminate[of "rn_shutdown (sy_run y)" D])
  have step: "system_step S D clone release alive y
      (y\<lparr>sy_run := (sy_run y)\<lparr>rn_shutdown := s\<rparr>, sy_http := (sy_http y)\<lparr>ss_signaled := dr_signaled D (sh_tx s)\<rparr>\<rparr>)"
    using system_step.runtime[OF run_task.main[OF s(1)]] by simp
  from draining_completes[OF conjunct1[OF system_step_inv[OF step assms(1)]]] s(2) obtain y' where
    "(system_step S D clone release alive)\<^sup>*\<^sup>* (y\<lparr>sy_run := (sy_run y)\<lparr>rn_shutdown := s\<rparr>,
       sy_http := (sy_http y)\<lparr>ss_signaled := dr_signaled D (sh_tx s)\<rparr>\<rparr>) y'" "sy_phase y' = Completed (Inr ())" by auto
  then show ?thesis using converse_rtranclp_into_rtranclp[of "system_step S D clone release alive", OF step] by blast
qed (use draining_completes assms in auto)

end

subsection \<open>Properties\<close>

text \<open>
  C3. A program with an HTTPS server shuts down gracefully, over every interleaving of the runtime's tasks, the
  server's tasks, clients, signals, and the other holders of watches: what the runtime and the server
  do together is a run of each alone; and when \<open>run\<close> returns successfully, at least one signal was
  delivered, the accept task is over, every connection is closed, and no other watch is alive.
\<close>
theorem system_shutdown_graceful:
  assumes "shared_drain S permits D alive release clone"
    and "(init_step True S)\<^sup>*\<^sup>* (init_system S) \<lparr>sys_init = ru_initialized r, sys_live = live\<rparr>"
    and "ru_shutdown r = shutdown_new tx" and "\<not> dr_signaled D tx" and "alive tx = 2 + others" and "\<not> ad_ready (ru_admin r)"
    and "(system_step S D clone release alive)\<^sup>*\<^sup>* (system_start r service live others) y"
  shows "(run_step S D release alive)\<^sup>*\<^sup>* (run_start (snd (spawn_server r service)) live) (sy_run y) \<and>
    server_step\<^sup>*\<^sup>* (server_start (server_spawn (ru_server r))) (sy_http y) \<and>
    (sy_phase y = Completed (Inr ()) \<longrightarrow>
       1 \<le> sh_delivered (rn_shutdown (sy_run y)) \<and> spawned_join (ss_accept (sy_http y)) \<noteq> Pending \<and>
       (\<forall>c \<in> set (ss_conns (sy_http y)). \<not> cn_open c) \<and> sy_others y = 0)"
proof -
  have sem: "semaphore S permits" using assms(1) by (simp add: shared_drain_def running_def)
  note start = shared_drain.system_inv_start[OF assms(1) semaphore.reachable_inv[OF sem assms(2)] assms(3-6), of service]
  note reach = shared_drain.system_reachable[OF assms(1,7) start]
  have "sy_run (system_start r service live others) = run_start (snd (spawn_server r service)) live"
    "sy_http (system_start r service live others) = server_start (server_spawn (ru_server r))"
    by (simp_all add: system_start_def spawn_server_def spawn_server_inner_def)
  moreover have "1 \<le> sh_delivered (rn_shutdown (sy_run y)) \<and> server_watches (sy_http y) = 0 \<and> sy_others y = 0"
    if "sy_phase y = Completed (Inr ())"
    using that reach by (auto simp: system_inv_def run_inv_def shutdown_inv_def)
  moreover have "\<forall>c \<in> set (ss_conns (sy_http y)). \<not> cn_open c" if "server_watches (sy_http y) = 0"
    using reach that server_inv_closed by (auto simp: system_inv_def)
  ultimately show ?thesis using reach by (auto simp: server_watches_def)
qed


subsection \<open>A server with an open connection when SIGTERM arrives\<close>

definition https_runtime :: "(nat, nat, unit, nat, unit, nat \<times> bool, (nat, nat) server_bound) runtime" where
  "https_runtime = (runtime_set_server demo_bound demo_runtime)\<lparr>ru_shutdown := shutdown_new (2, False)\<rparr>"

definition serving_terminated :: "(nat, nat \<times> bool) system_state" where
  "serving_terminated =
     \<lparr>sy_run = \<lparr>rn_init = \<lparr>sys_init = initialized_default counting_semaphore, sys_live = 0\<rparr>, rn_ready = False, rn_task = AwaitInit,
        rn_shutdown = \<lparr>sh_phase = Watching, sh_interrupt = False, sh_terminate = True, sh_tx = (3, False), sh_delivered = 1\<rparr>\<rparr>,
      sy_http = \<lparr>ss_signaled = False, ss_accept = Idle,
        ss_conns = [\<lparr>cn_task = AwaitDrain, cn_open = True, cn_served = True\<rparr>], ss_late = 0\<rparr>,
      sy_others = 0\<rparr>"

lemma serving_terminated_reachable:
  "(system_step counting_semaphore counting_drain counting_clone counting_release fst)\<^sup>*\<^sup>*
     (system_start https_runtime () 0 0) serving_terminated"
proof -
  let ?step = "system_step counting_semaphore counting_drain counting_clone counting_release fst"
  let ?y = "\<lambda>term tx n ph cs. \<lparr>sy_run = \<lparr>rn_init = \<lparr>sys_init = initialized_default counting_semaphore, sys_live = 0\<rparr>,
      rn_ready = False, rn_task = AwaitInit, rn_shutdown = \<lparr>sh_phase = Watching, sh_interrupt = False, sh_terminate = term,
        sh_tx = (tx, False), sh_delivered = n\<rparr>\<rparr>,
      sy_http = \<lparr>ss_signaled = False, ss_accept = ph, ss_conns = cs, ss_late = 0\<rparr>, sy_others = 0\<rparr>"
  let ?new = "\<lparr>cn_task = Handshake, cn_open = True, cn_served = False\<rparr>"
  let ?served = "\<lparr>cn_task = AwaitDrain, cn_open = True, cn_served = True\<rparr>"
  note defs = set_tx_def move_watches_def server_watches_def spawned_join_def counting_clone_def
  have s0: "system_start https_runtime () 0 0 = ?y False 2 0 Idle []"
    by (simp add: system_start_def spawn_server_def spawn_server_inner_def https_runtime_def demo_bound_def demo_runtime_def
        run_start_def runtime_set_server_def admin_spawn_def shutdown_new_def server_start_def server_spawn_def)
  have s1: "?step (?y False 2 0 Idle []) (?y False 2 0 Polled [])"
    using system_step.http[OF server_step.poll_drain, of "?y False 2 0 Idle []"] by (simp add: defs)
  have s2: "?step (?y False 2 0 Polled []) (?y False 3 0 Idle [?new])"
    using system_step.http[OF server_step.accepted, of "?y False 2 0 Polled []", where clone = counting_clone] by (simp add: defs)
  have s3: "?step (?y False 3 0 Idle [?new]) (?y False 3 0 Idle [?served])"
    using system_step.http[OF server_step.serving[of 0], of "?y False 3 0 Idle [?new]"] by (simp add: defs)
  have s4: "?step (?y False 3 0 Idle [?served]) serving_terminated"
    using system_step.outside[OF run_env.sigterm, of "?y False 3 0 Idle [?served]"] by (simp add: serving_terminated_def)
  note more = converse_rtranclp_into_rtranclp[of ?step]
  show ?thesis unfolding s0
    by (rule more[OF s1 more[OF s2 more[OF s3 r_into_rtranclp[of ?step, OF s4]]]])
qed


lemma https_runtime_init:
  "(init_step True counting_semaphore)\<^sup>*\<^sup>* (init_system counting_semaphore)
     \<lparr>sys_init = ru_initialized https_runtime, sys_live = 0\<rparr>"
  using demo_runtime_init by (simp add: https_runtime_def runtime_set_server_def)

lemma https_runtime_simps:
  "ru_shutdown https_runtime = shutdown_new (2, False)" "\<not> dr_signaled counting_drain (2, False)" "fst (2 :: nat, False) = 2 + 0"
  "\<not> ad_ready (ru_admin https_runtime)"
  by (simp_all add: https_runtime_def runtime_set_server_def demo_runtime_def counting_drain_def)

lemmas https_start = counting_shared.shared_drain_axioms https_runtime_init https_runtime_simps


theorem system_shutdown_graceful_witness:
  "\<exists>y. (system_step counting_semaphore counting_drain counting_clone counting_release fst)\<^sup>*\<^sup>* serving_terminated y \<and>
     sy_phase y = Completed (Inr ()) \<and> filter cn_open (ss_conns (sy_http y)) = [] \<and> 1 \<le> sh_delivered (rn_shutdown (sy_run y))"
proof -
  let ?step = "system_step counting_semaphore counting_drain counting_clone counting_release fst"
  have "system_inv id counting_drain fst serving_terminated"
    using counting_shared.system_reachable[OF serving_terminated_reachable
        counting_shared.system_inv_start[OF counting.reachable_inv[OF https_runtime_init] https_runtime_simps]] by blast
  then obtain y where y: "?step\<^sup>*\<^sup>* serving_terminated y" "sy_phase y = Completed (Inr ())"
    using counting_shared.signaled_completes[of serving_terminated] by (auto simp: serving_terminated_def)
  from rtranclp_trans[OF serving_terminated_reachable y(1)] have "?step\<^sup>*\<^sup>* (system_start https_runtime () 0 0) y" .
  from system_shutdown_graceful[OF https_start this] y show ?thesis by (auto simp: filter_empty_conv)
qed

end
