(* ===== verification/Log_And_Sleep.thy ===== *)
theory Log_And_Sleep
  imports Kubert_Prelude
begin

text \<open>
  \<open>kubert/src/errors.rs\<close>: \<open>LogAndSleep\<close> turns a stream of results into a stream
  of items, logging errors and delaying the poll that follows a second consecutive one. The inner
  stream and the timer (\<open>tokio::time::Sleep\<close>) are parameters; the locale
  \<open>sleep_timer\<close> is what the timer promises.
\<close>

record 's log_and_sleep =
  las_delay :: nat
  las_failed :: bool
  las_sleep :: instant
  las_sleeping :: bool
  las_stream :: "'s"

definition las_fixed_delay :: "instant \<Rightarrow> nat \<Rightarrow> 's \<Rightarrow> 's log_and_sleep" where
  "las_fixed_delay now delay s =
     \<lparr>las_delay = delay, las_failed = False, las_sleep = now, las_sleeping = False, las_stream = s\<rparr>"

text \<open>
  \<open>ready now deadline\<close> is the outcome of polling the timer. The result is \<open>None\<close>
  when the loop does not end.
\<close>

partial_function (option) las_poll_next ::
  "(instant \<Rightarrow> instant \<Rightarrow> bool) \<Rightarrow> ('s, ('e + 'a) option) poll_fn \<Rightarrow> instant \<Rightarrow> 's log_and_sleep \<Rightarrow>
   ('a option poll \<times> 's log_and_sleep) option" where
  "las_poll_next ready inner now st =
     (if las_sleeping st \<and> \<not> ready now (las_sleep st) then Some (Pending, st)
      else
        (case inner now (las_stream st) of (p, s) \<Rightarrow>
           (case p of
              Pending \<Rightarrow> Some (Pending, st\<lparr>las_sleeping := False, las_stream := s\<rparr>)
            | Ready r \<Rightarrow>
                (case r of
                   None \<Rightarrow> Some (Ready None, st\<lparr>las_sleeping := False, las_failed := False, las_stream := s\<rparr>)
                 | Some res \<Rightarrow>
                     (case res of
                        Inr item \<Rightarrow>
                          Some (Ready (Some item),
                                st\<lparr>las_sleeping := False, las_failed := False, las_stream := s\<rparr>)
                      | Inl error \<Rightarrow>
                          las_poll_next ready inner now
                            (if las_failed st
                             then st\<lparr>las_sleeping := True, las_sleep := now + las_delay st,
                                     las_failed := True, las_stream := s\<rparr>
                             else st\<lparr>las_sleeping := False, las_failed := True, las_stream := s\<rparr>))))))"

subsection \<open>The items among what the inner stream yields\<close>

fun oks :: "('e + 'a) option poll list \<Rightarrow> 'a list" where
  "oks [] = []"
| "oks (Ready (Some (Inr a)) # ps) = a # oks ps"
| "oks (_ # ps) = oks ps"

lemma oks_append [simp]: "oks (ps @ qs) = oks ps @ oks qs"
  by (induction ps rule: oks.induct) auto

text \<open>The adapter polled at a sequence of instants.\<close>

fun las_polls ::
  "(instant \<Rightarrow> instant \<Rightarrow> bool) \<Rightarrow> ('s, ('e + 'a) option) poll_fn \<Rightarrow> instant list \<Rightarrow> 's log_and_sleep \<Rightarrow>
   ('a option poll list \<times> 's log_and_sleep) option" where
  "las_polls ready inner [] st = Some ([], st)"
| "las_polls ready inner (now # nows) st =
     do { (out, st) \<leftarrow> las_poll_next ready inner now st;
          (outs, st) \<leftarrow> las_polls ready inner nows st;
          Some (out # outs, st) }"

subsection \<open>The timer's contract and what follows from it\<close>

text \<open>A timer does not complete before its deadline; it may complete later.\<close>

locale sleep_timer =
  fixes ready :: "instant \<Rightarrow> instant \<Rightarrow> bool"
  assumes not_early: "ready now deadline \<Longrightarrow> deadline \<le> now"
begin

lemma poll_asleep:
  "las_sleeping st \<Longrightarrow> now < las_sleep st \<Longrightarrow> las_poll_next ready inner now st = Some (Pending, st)"
  using not_early by (subst las_poll_next.simps) force

lemma poll_awake:
  assumes "las_sleeping st \<longrightarrow> ready now (las_sleep st)"
  shows "las_poll_next ready inner now st = (case inner now (las_stream st) of
      (Pending, s) \<Rightarrow> Some (Pending, st\<lparr>las_sleeping := False, las_stream := s\<rparr>)
    | (Ready None, s) \<Rightarrow> Some (Ready None, st\<lparr>las_sleeping := False, las_failed := False, las_stream := s\<rparr>)
    | (Ready (Some (Inr item)), s) \<Rightarrow>
        Some (Ready (Some item), st\<lparr>las_sleeping := False, las_failed := False, las_stream := s\<rparr>)
    | (Ready (Some (Inl e)), s) \<Rightarrow>
        las_poll_next ready inner now
          (if las_failed st
           then st\<lparr>las_sleeping := True, las_sleep := now + las_delay st, las_failed := True, las_stream := s\<rparr>
           else st\<lparr>las_sleeping := False, las_failed := True, las_stream := s\<rparr>))"
  using assms
  by (subst las_poll_next.simps) (auto split: prod.splits poll.splits option.splits sum.splits)

lemma poll_second_error:
  assumes "las_sleeping st \<longrightarrow> ready now (las_sleep st)" and "las_failed st" and "0 < las_delay st"
    and "inner now (las_stream st) = (Ready (Some (Inl e)), s)"
  shows "las_poll_next ready inner now st =
    Some (Pending, st\<lparr>las_sleeping := True, las_sleep := now + las_delay st, las_stream := s\<rparr>)"
  using assms by (subst poll_awake) (simp_all add: poll_asleep)

end

interpretation exact_timer: sleep_timer "\<lambda>now deadline. deadline \<le> now"
  by unfold_locales

definition stream_ended :: "'b option poll list \<Rightarrow> bool" where
  "stream_ended ps \<longleftrightarrow> ps \<noteq> [] \<and> last ps = Ready None"

lemma stream_ended_simps [simp]:
  "\<not> stream_ended []" "stream_ended (ps @ qs) \<longleftrightarrow> (if qs = [] then stream_ended ps else stream_ended qs)"
  "stream_ended (p # ps) \<longleftrightarrow> (if ps = [] then p = Ready None else stream_ended ps)"
  by (auto simp: stream_ended_def)

text \<open>
  The outcome of one poll, in terms of what the inner stream yielded during it (\<open>new\<close>):
  at most two answers, of which only the last can be an item, the end or \<open>Pending\<close>.
\<close>

definition las_outcome :: "('e + 'a) option poll list \<Rightarrow> 'a option poll \<Rightarrow> bool" where
  "las_outcome new out \<longleftrightarrow> length new \<le> 2 \<and>
     (out = Pending \<and> oks new = [] \<and> \<not> stream_ended new \<or>
      (\<exists>a. out = Ready (Some a) \<and> new \<noteq> [] \<and> last new = Ready (Some (Inr a)) \<and> oks new = [a]) \<or>
      out = Ready None \<and> stream_ended new \<and> oks new = [])"

context sleep_timer
begin

lemma poll_failed_outcome:
  assumes "traced L f" and "las_failed st" and "0 < las_delay st"
  shows "\<exists>out st' new. las_poll_next ready f now st = Some (out, st') \<and>
    L (las_stream st') = L (las_stream st) @ new \<and> las_delay st' = las_delay st \<and>
    length new \<le> 1 \<and> las_outcome new out"
proof (cases "las_sleeping st \<and> \<not> ready now (las_sleep st)")
  case True
  then show ?thesis
    by (subst las_poll_next.simps) (auto simp: las_outcome_def)
next
  case awake: False
  obtain p s where l: "f now (las_stream st) = (p, s)" by fastforce
  note tr = tracedD[OF assms(1) l]
  show ?thesis
  proof (cases "\<exists>e. p = Ready (Some (Inl e))")
    case True
    with awake assms l tr show ?thesis
      by (auto simp: poll_second_error las_outcome_def)
  next
    case False
    with awake l tr show ?thesis
      by (subst poll_awake) (auto simp: las_outcome_def split: poll.splits option.splits sum.splits)
  qed
qed

lemma poll_outcome:
  assumes "traced L f" and "0 < las_delay st"
  shows "\<exists>out st' new. las_poll_next ready f now st = Some (out, st') \<and>
    L (las_stream st') = L (las_stream st) @ new \<and> las_delay st' = las_delay st \<and>
    las_outcome new out"
proof (cases "las_failed st \<or> las_sleeping st \<and> \<not> ready now (las_sleep st)")
  case True
  then show ?thesis
    using poll_failed_outcome[OF assms(1) _ assms(2), of now]
    by (auto simp: las_poll_next.simps[of ready f now st] las_outcome_def)
next
  case awake: False
  obtain p s where l: "f now (las_stream st) = (p, s)" by fastforce
  note tr = tracedD[OF assms(1) l]
  show ?thesis
  proof (cases "\<exists>e. p = Ready (Some (Inl e))")
    case True
    then obtain e where e: "p = Ready (Some (Inl e))" by blast
    let ?st = "st\<lparr>las_sleeping := False, las_failed := True, las_stream := s\<rparr>"
    have "las_poll_next ready f now st = las_poll_next ready f now ?st"
      using awake l e by (subst poll_awake) auto
    moreover obtain out st' new where "las_poll_next ready f now ?st = Some (out, st')"
      "L (las_stream st') = L (las_stream st) @ p # new" "las_delay st' = las_delay st"
      "length new \<le> 1" "las_outcome new out"
      using poll_failed_outcome[OF assms(1), of ?st now] assms(2) tr by auto
    ultimately show ?thesis using e
      by (intro exI[of _ out] exI[of _ st'] exI[of _ "p # new"]) (auto simp: las_outcome_def)
  next
    case False
    with awake l tr show ?thesis
      by (subst poll_awake) (auto simp: las_outcome_def split: poll.splits option.splits sum.splits)
  qed
qed

lemma polls_items:
  assumes "traced L f" and "0 < las_delay st"
  shows "\<exists>outs st' new. las_polls ready f nows st = Some (outs, st') \<and>
    L (las_stream st') = L (las_stream st) @ new \<and> items outs = oks new \<and>
    length new \<le> 2 * length nows"
  using assms(2)
proof (induction nows arbitrary: st)
  case (Cons now nows)
  obtain out st1 new1 where 1: "las_poll_next ready f now st = Some (out, st1)"
    "L (las_stream st1) = L (las_stream st) @ new1" "las_delay st1 = las_delay st" "las_outcome new1 out"
    using poll_outcome[OF assms(1) Cons.prems, of now] by blast
  with Cons obtain outs st2 new2 where 2: "las_polls ready f nows st1 = Some (outs, st2)"
    "L (las_stream st2) = L (las_stream st1) @ new2" "items outs = oks new2" "length new2 \<le> 2 * length nows"
    by metis
  have "items (out # outs) = oks (new1 @ new2)" "length new1 \<le> 2"
    using 1(4) 2(3) by (auto simp: las_outcome_def)
  with 1 2 show ?case
    by (intro exI[of _ "out # outs"] exI[of _ st2] exI[of _ "new1 @ new2"]) simp
qed simp

end

text \<open>What every poll of the inner stream keeps, a poll of the adapter keeps.\<close>

lemma las_poll_next_invariant:
  assumes "las_poll_next ready inner now st = Some y"
    and "\<And>s. I s \<Longrightarrow> I (snd (inner now s))" and "I (las_stream st)"
  shows "I (las_stream (snd y))"
proof -
  let ?P = "\<lambda>ready inner now st y. (\<forall>s. I s \<longrightarrow> I (snd (inner now s))) \<longrightarrow> I (las_stream st) \<longrightarrow> I (las_stream (snd y))"
  have "?P ready inner now st y"
  proof (rule las_poll_next.raw_induct[where P = ?P, OF _ assms(1)], intro impI, goal_cases)
    case (1 rec ready inner now st y)
    obtain p s where ps: "inner now (las_stream st) = (p, s)" by fastforce
    with 1(3,4) have s: "I s" by (metis snd_conv)
    show ?case
    proof (cases "\<exists>e. p = Ready (Some (Inl e))")
      case True
      with 1(2,4) ps have "las_sleeping st \<and> \<not> ready now (las_sleep st) \<and> I (las_stream (snd y)) \<or>
        (\<exists>st'. rec ready inner now st' = Some y \<and> las_stream st' = s)"
        by (auto split: if_splits)
      then show ?thesis using 1(1)[of ready inner now] 1(3,4) s by blast
    next
      case False
      with 1(2,4) ps s show ?thesis by (auto split: if_splits poll.splits option.splits sum.splits)
    qed
  qed
  with assms(2,3) show ?thesis by simp
qed

subsection \<open>Properties\<close>

text \<open>A stream given by the list of what it yields.\<close>

definition list_stream :: "('b list, 'b option) poll_fn" where
  "list_stream now xs = (case xs of [] \<Rightarrow> (Ready None, []) | x # xs \<Rightarrow> (Ready (Some x), xs))"

text \<open>
  C15. With a delay above zero every poll of the adapter returns, whatever the inner stream does;
  over any sequence of polls the adapter yields exactly the items the inner stream yielded, in
  order (no item is lost, repeated or delayed behind an error of its own), and it polls the inner
  stream at most twice per poll.
\<close>
theorem las_yields_inner_items:
  assumes "sleep_timer ready" and "0 < delay"
  shows "\<exists>outs st' log. las_polls ready (logged inner) nows (las_fixed_delay t0 delay ([], s)) = Some (outs, st') \<and>
    fst (las_stream st') = log \<and> items outs = oks log \<and> length log \<le> 2 * length nows"
  using sleep_timer.polls_items[OF assms(1) logged_traced, of "las_fixed_delay t0 delay ([], s)" inner nows] assms(2)
  by (simp add: las_fixed_delay_def)

theorem las_yields_inner_items_witness:
  "\<exists>outs st' log. las_polls (\<lambda>now deadline. deadline \<le> now) (logged list_stream) [0, 1, 9, 10]
     (las_fixed_delay 0 3 ([], [Inl ''first'', Inl ''second'', Inr ''third''])) = Some (outs, st') \<and>
     fst (las_stream st') = log \<and> items outs = oks log \<and> length log \<le> 2 * length [0, 1, 9, 10 :: nat]"
  using las_yields_inner_items[OF exact_timer.sleep_timer_axioms, of 3 list_stream "[0, 1, 9, 10]" 0
      "[Inl ''first'', Inl ''second'', Inr ''third'']"] by simp

text \<open>
  A second consecutive error suspends the adapter: the poll that meets it returns
  \<open>Pending\<close>, and until the delay has passed every poll returns \<open>Pending\<close> without
  touching the inner stream. A first error is not delayed: the inner stream is polled again at once.
\<close>
theorem las_backs_off:
  assumes "sleep_timer ready" and "0 < las_delay st" and "\<not> las_sleeping st"
    and "inner now (las_stream st) = (Ready (Some (Inl e)), s)"
  shows "if las_failed st
    then \<exists>st'. las_poll_next ready inner now st = Some (Pending, st') \<and> las_stream st' = s \<and>
           (\<forall>now'. now' < now + las_delay st \<longrightarrow> las_poll_next ready inner now' st' = Some (Pending, st'))
    else las_poll_next ready inner now st =
         las_poll_next ready inner now (st\<lparr>las_failed := True, las_stream := s\<rparr>)"
proof (cases "las_failed st")
  case True
  let ?st = "st\<lparr>las_sleeping := True, las_sleep := now + las_delay st, las_stream := s\<rparr>"
  from True assms have "las_poll_next ready inner now st = Some (Pending, ?st)"
    by (auto intro: sleep_timer.poll_second_error)
  moreover have "las_poll_next ready inner now' ?st = Some (Pending, ?st)"
    if "now' < now + las_delay st" for now'
    using that by (auto intro: sleep_timer.poll_asleep[OF assms(1)])
  ultimately show ?thesis using True by auto
next
  case False
  have awake: "st\<lparr>las_sleeping := False, las_failed := True, las_stream := s\<rparr> =
      st\<lparr>las_failed := True, las_stream := s\<rparr>"
    using assms(3) by simp
  have "las_poll_next ready inner now st =
      las_poll_next ready inner now (st\<lparr>las_sleeping := False, las_failed := True, las_stream := s\<rparr>)"
    using False assms(3,4) sleep_timer.poll_awake[OF assms(1), of st now inner] by simp
  then show ?thesis unfolding awake using False by simp
qed

theorem las_backs_off_witness:
  "\<exists>st'. las_poll_next (\<lambda>now deadline. deadline \<le> now) list_stream 5
       \<lparr>las_delay = 3, las_failed = True, las_sleep = 0, las_sleeping = False,
        las_stream = [Inl ''again'', Inr ''item'']\<rparr> = Some (Pending, st') \<and>
     las_stream st' = [Inr ''item''] \<and>
     (\<forall>now'. now' < 8 \<longrightarrow>
       las_poll_next (\<lambda>now deadline. deadline \<le> now) list_stream now' st' = Some (Pending, st'))"
  using las_backs_off[OF exact_timer.sleep_timer_axioms,
      of "\<lparr>las_delay = 3, las_failed = True, las_sleep = 0, las_sleeping = False,
           las_stream = [Inl ''again'', Inr ''item'']\<rparr>" list_stream 5 "''again''" "[Inr ''item'']"]
  by (simp add: list_stream_def)

end
