(* ===== verification/Requeue.thy ===== *)
theory Requeue
  imports Kubert_Prelude
begin

text \<open>
  \<open>kubert/src/requeue.rs\<close>: the delayed queue of work items. The channel
  (\<open>tokio::sync::mpsc\<close>) and the delay queue (\<open>tokio_util::time::DelayQueue\<close>)
  are parameters, records of the operations the file calls; their documented behaviour is the
  locales \<open>mpsc_channel\<close> and \<open>delay_queue_spec\<close>. The receiver's map
  \<open>pending\<close> and the delay queue hold the same items, and the receiver refines a map from
  items to deadlines.
\<close>

subsection \<open>The libraries the queue is built on\<close>

record ('c, 'op) mpsc_rx =
  rx_poll_recv :: "'c \<Rightarrow> 'op option poll \<times> 'c"

record ('c, 'op) mpsc_tx =
  tx_send :: "'op \<Rightarrow> 'c \<Rightarrow> ('op + unit) \<times> 'c"

record ('d, 'k, 'a) delay_queue =
  dq_new :: "'d"
  dq_insert_at :: "'a \<Rightarrow> instant \<Rightarrow> 'd \<Rightarrow> 'k \<times> 'd"
  dq_reset_at :: "'k \<Rightarrow> instant \<Rightarrow> 'd \<Rightarrow> 'd option"
  dq_remove :: "'k \<Rightarrow> 'd \<Rightarrow> 'd option"
  dq_clear :: "'d \<Rightarrow> 'd"
  dq_poll_expired :: "instant \<Rightarrow> 'd \<Rightarrow> ('k \<times> 'a) option poll \<times> 'd"

subsection \<open>The receiver\<close>

datatype 'a rq_op = Requeue 'a instant | Cancel 'a | Clear

record ('c, 'd, 'k, 'a) rq_receiver =
  rq_rx :: "'c"
  rq_rx_closed :: bool
  rq_q :: "'d"
  rq_pending :: "'a \<rightharpoonup> 'k"

definition rq_channel :: "('d, 'k, 'a) delay_queue \<Rightarrow> 'c \<Rightarrow> ('c, 'd, 'k, 'a) rq_receiver" where
  "rq_channel Q c = \<lparr>rq_rx = c, rq_rx_closed = False, rq_q = dq_new Q, rq_pending = Map.empty\<rparr>"

text \<open>
  One message of the channel. \<open>None\<close> is a panic: \<open>DelayQueue::reset_at\<close> and
  \<open>DelayQueue::remove\<close> panic when the key is not in the queue.
\<close>

fun rq_handle ::
  "('d, 'k, 'a) delay_queue \<Rightarrow> 'a rq_op \<Rightarrow> ('c, 'd, 'k, 'a) rq_receiver \<Rightarrow>
   ('c, 'd, 'k, 'a) rq_receiver option" where
  "rq_handle Q Clear r = Some (r\<lparr>rq_pending := Map.empty, rq_q := dq_clear Q (rq_q r)\<rparr>)"
| "rq_handle Q (Cancel obj) r =
     (case rq_pending r obj of
        None \<Rightarrow> Some r
      | Some k \<Rightarrow> do { q \<leftarrow> dq_remove Q k (rq_q r);
                      Some (r\<lparr>rq_pending := (rq_pending r)(obj := None), rq_q := q\<rparr>) })"
| "rq_handle Q (Requeue obj at) r =
     (case rq_pending r obj of
        Some k \<Rightarrow> do { q \<leftarrow> dq_reset_at Q k at (rq_q r); Some (r\<lparr>rq_q := q\<rparr>) }
      | None \<Rightarrow> (case dq_insert_at Q obj at (rq_q r) of
                   (k, q) \<Rightarrow> Some (r\<lparr>rq_q := q, rq_pending := (rq_pending r)(obj \<mapsto> k)\<rparr>)))"

text \<open>
  The loop that drains the channel. The outer option is \<open>None\<close> when the loop does not end,
  the inner one when it panics.
\<close>

partial_function (option) rq_recv_loop ::
  "('c, 'a rq_op) mpsc_rx \<Rightarrow> ('d, 'k, 'a) delay_queue \<Rightarrow> ('c, 'd, 'k, 'a) rq_receiver \<Rightarrow>
   ('c, 'd, 'k, 'a) rq_receiver option option" where
  "rq_recv_loop C Q r =
     (case rx_poll_recv C (rq_rx r) of (p, c) \<Rightarrow>
        (case p of
           Pending \<Rightarrow> Some (Some (r\<lparr>rq_rx := c\<rparr>))
         | Ready m \<Rightarrow>
             (case m of
                None \<Rightarrow> Some (Some (r\<lparr>rq_rx := c, rq_rx_closed := True\<rparr>))
              | Some op \<Rightarrow>
                  (case rq_handle Q op (r\<lparr>rq_rx := c\<rparr>) of
                     None \<Rightarrow> Some None
                   | Some r' \<Rightarrow> rq_recv_loop C Q r'))))"

definition rq_finish ::
  "('c, 'd, 'k, 'a) rq_receiver \<Rightarrow> 'a option poll \<times> ('c, 'd, 'k, 'a) rq_receiver" where
  "rq_finish r = (if rq_rx_closed r \<and> rq_pending r = Map.empty then Ready None else Pending, r)"

definition rq_dequeue ::
  "('d, 'k, 'a) delay_queue \<Rightarrow> instant \<Rightarrow> ('c, 'd, 'k, 'a) rq_receiver \<Rightarrow>
   'a option poll \<times> ('c, 'd, 'k, 'a) rq_receiver" where
  "rq_dequeue Q now r =
     (if rq_pending r \<noteq> Map.empty
      then (case dq_poll_expired Q now (rq_q r) of
              (Ready (Some (k, obj)), q) \<Rightarrow>
                (Ready (Some obj), r\<lparr>rq_q := q, rq_pending := (rq_pending r)(obj := None)\<rparr>)
            | (_, q) \<Rightarrow> rq_finish (r\<lparr>rq_q := q\<rparr>))
      else rq_finish r)"

definition poll_requeued ::
  "('c, 'a rq_op) mpsc_rx \<Rightarrow> ('d, 'k, 'a) delay_queue \<Rightarrow> instant \<Rightarrow> ('c, 'd, 'k, 'a) rq_receiver \<Rightarrow>
   ('a option poll \<times> ('c, 'd, 'k, 'a) rq_receiver) option option" where
  "poll_requeued C Q now r =
     map_option (map_option (rq_dequeue Q now))
       (if rq_rx_closed r then Some (Some r) else rq_recv_loop C Q r)"

subsection \<open>The sender\<close>

text \<open>
  The error of a send returns the operation that was not sent; the sender takes the item out of
  it and reaches \<open>unreachable!()\<close> (\<open>None\<close>) on any other operation.
\<close>

definition rq_clear :: "('c, 'a rq_op) mpsc_tx \<Rightarrow> 'c \<Rightarrow> (unit + unit) \<times> 'c" where
  "rq_clear S c = (case tx_send S Clear c of
     (Inl _, c) \<Rightarrow> (Inl (), c) | (Inr u, c) \<Rightarrow> (Inr u, c))"

definition rq_requeue_at ::
  "('c, 'a rq_op) mpsc_tx \<Rightarrow> 'a \<Rightarrow> instant \<Rightarrow> 'c \<Rightarrow> (('a + unit) \<times> 'c) option" where
  "rq_requeue_at S obj time c = (case tx_send S (Requeue obj time) c of
     (Inr u, c) \<Rightarrow> Some (Inr u, c)
   | (Inl op, c) \<Rightarrow> (case op of Requeue obj _ \<Rightarrow> Some (Inl obj, c) | _ \<Rightarrow> None))"

definition rq_requeue ::
  "('c, 'a rq_op) mpsc_tx \<Rightarrow> instant \<Rightarrow> 'a \<Rightarrow> nat \<Rightarrow> 'c \<Rightarrow> (('a + unit) \<times> 'c) option" where
  "rq_requeue S now obj defer c = rq_requeue_at S obj (now + defer) c"

definition rq_cancel ::
  "('c, 'a rq_op) mpsc_tx \<Rightarrow> 'a \<Rightarrow> 'c \<Rightarrow> (('a + unit) \<times> 'c) option" where
  "rq_cancel S obj c = (case tx_send S (Cancel obj) c of
     (Inr u, c) \<Rightarrow> Some (Inr u, c)
   | (Inl op, c) \<Rightarrow> (case op of Cancel obj \<Rightarrow> Some (Inl obj, c) | _ \<Rightarrow> None))"

subsection \<open>The specification: a map from items to deadlines\<close>

fun rq_spec :: "'a rq_op \<Rightarrow> ('a \<rightharpoonup> instant) \<Rightarrow> ('a \<rightharpoonup> instant)" where
  "rq_spec (Requeue obj at) m = m(obj \<mapsto> at)"
| "rq_spec (Cancel obj) m = m(obj := None)"
| "rq_spec Clear m = Map.empty"

text \<open>
  The pending map \<open>P\<close> and the entries \<open>E\<close> of the delay queue hold the same
  items; together they give each item its deadline.
\<close>

definition rq_linked :: "('a \<rightharpoonup> 'k) \<Rightarrow> ('k \<rightharpoonup> 'a \<times> instant) \<Rightarrow> bool" where
  "rq_linked P E \<longleftrightarrow> (\<forall>obj k. P obj = Some k \<longleftrightarrow> (\<exists>t. E k = Some (obj, t)))"

definition rq_when :: "('a \<rightharpoonup> 'k) \<Rightarrow> ('k \<rightharpoonup> 'a \<times> instant) \<Rightarrow> ('a \<rightharpoonup> instant)" where
  "rq_when P E = (\<lambda>obj. case P obj of None \<Rightarrow> None | Some k \<Rightarrow> map_option snd (E k))"

abbreviation rq_inv :: "('d \<Rightarrow> ('k \<rightharpoonup> 'a \<times> instant)) \<Rightarrow> ('c, 'd, 'k, 'a) rq_receiver \<Rightarrow> bool" where
  "rq_inv entries r \<equiv> rq_linked (rq_pending r) (entries (rq_q r))"

abbreviation rq_deadlines ::
  "('d \<Rightarrow> ('k \<rightharpoonup> 'a \<times> instant)) \<Rightarrow> ('c, 'd, 'k, 'a) rq_receiver \<Rightarrow> ('a \<rightharpoonup> instant)" where
  "rq_deadlines entries r \<equiv> rq_when (rq_pending r) (entries (rq_q r))"

lemma rq_linked_empty [simp]: "rq_linked Map.empty Map.empty"
  by (simp add: rq_linked_def)

lemma rq_when_empty [simp]: "rq_when Map.empty E = Map.empty"
  by (simp add: rq_when_def)

lemma rq_linkedD: "rq_linked P E \<Longrightarrow> P obj = Some k \<Longrightarrow> \<exists>t. E k = Some (obj, t)"
  by (simp add: rq_linked_def)

lemma rq_linkedI: "rq_linked P E \<Longrightarrow> E k = Some (obj, t) \<Longrightarrow> P obj = Some k"
  by (auto simp: rq_linked_def)

lemma rq_link_put:
  assumes "rq_linked P E" and "P obj = Some k \<or> P obj = None \<and> E k = None"
  shows "rq_linked (P(obj \<mapsto> k)) (E(k \<mapsto> (obj, t)))"
    and "rq_when (P(obj \<mapsto> k)) (E(k \<mapsto> (obj, t))) = (rq_when P E)(obj \<mapsto> t)"
proof -
  have other: "P obj' \<noteq> Some k" if "obj' \<noteq> obj" for obj'
    using assms that by (auto simp: rq_linked_def)
  have mine: "E k' \<noteq> Some (obj, t')" if "k' \<noteq> k" for k' t'
    using assms(2) that rq_linkedI[OF assms(1), of k' obj t'] by auto
  show "rq_linked (P(obj \<mapsto> k)) (E(k \<mapsto> (obj, t)))"
    using assms(1) other mine by (auto simp: rq_linked_def)
  show "rq_when (P(obj \<mapsto> k)) (E(k \<mapsto> (obj, t))) = (rq_when P E)(obj \<mapsto> t)"
    using other by (auto simp: rq_when_def fun_eq_iff split: option.splits)
qed

lemma rq_link_drop:
  assumes "rq_linked P E" and "P obj = Some k"
  shows "rq_linked (P(obj := None)) (E(k := None))"
    and "rq_when (P(obj := None)) (E(k := None)) = (rq_when P E)(obj := None)"
proof -
  have other: "P obj' \<noteq> Some k" if "obj' \<noteq> obj" for obj'
    using assms that by (auto simp: rq_linked_def)
  have mine: "E k' \<noteq> Some (obj, t')" if "k' \<noteq> k" for k' t'
    using assms(2) that rq_linkedI[OF assms(1), of k' obj t'] by auto
  show "rq_linked (P(obj := None)) (E(k := None))"
    using assms(1) other mine by (auto simp: rq_linked_def)
  show "rq_when (P(obj := None)) (E(k := None)) = (rq_when P E)(obj := None)"
    using other by (auto simp: rq_when_def fun_eq_iff split: option.splits)
qed

lemma rq_when_dom: "rq_linked P E \<Longrightarrow> P obj = None \<longleftrightarrow> rq_when P E obj = None"
  by (auto simp: rq_when_def dest: rq_linkedD split: option.splits)

lemma rq_when_empty_iff: "rq_linked P E \<Longrightarrow> rq_when P E = Map.empty \<longleftrightarrow> P = Map.empty"
  by (metis rq_when_dom ext)

subsection \<open>The contracts of the libraries\<close>

text \<open>
  A message is received in the order it was sent; \<open>Ready None\<close> is returned only for a
  closed and empty channel; a poll may be pending although a message is there (the runtime's
  cooperative budget). An error of a send returns the message.
\<close>

locale mpsc_channel =
  fixes C :: "('c, 'op) mpsc_rx"
    and S :: "('c, 'op) mpsc_tx"
    and msgs :: "'c \<Rightarrow> 'op list"
    and closed :: "'c \<Rightarrow> bool"
  assumes recv_some: "rx_poll_recv C c = (Ready (Some op), c') \<Longrightarrow> msgs c = op # msgs c'"
    and recv_none: "rx_poll_recv C c = (Ready None, c') \<Longrightarrow> msgs c = [] \<and> msgs c' = [] \<and> closed c"
    and recv_pending: "rx_poll_recv C c = (Pending, c') \<Longrightarrow> msgs c' = msgs c"
    and send_ok: "tx_send S op c = (Inr u, c') \<Longrightarrow> msgs c' = msgs c @ [op]"
    and send_err: "tx_send S op c = (Inl op', c') \<Longrightarrow> op' = op \<and> msgs c' = msgs c"

text \<open>
  A delay queue maps fresh keys to values and deadlines. \<open>reset_at\<close> and
  \<open>remove\<close> succeed on a key of the queue; an expired entry is one whose deadline has
  passed.
\<close>

locale delay_queue_spec =
  fixes Q :: "('d, 'k, 'a) delay_queue"
    and entries :: "'d \<Rightarrow> ('k \<rightharpoonup> 'a \<times> instant)"
  assumes dq_new: "entries (dq_new Q) = Map.empty"
    and dq_insert: "dq_insert_at Q a t d = (k, d') \<Longrightarrow>
      entries d k = None \<and> entries d' = (entries d)(k \<mapsto> (a, t))"
    and dq_reset: "entries d k = Some (a, t) \<Longrightarrow>
      \<exists>d'. dq_reset_at Q k t' d = Some d' \<and> entries d' = (entries d)(k \<mapsto> (a, t'))"
    and dq_remove: "entries d k = Some v \<Longrightarrow>
      \<exists>d'. dq_remove Q k d = Some d' \<and> entries d' = (entries d)(k := None)"
    and dq_clear: "entries (dq_clear Q d) = Map.empty"
    and dq_expired: "dq_poll_expired Q now d = (Ready (Some (k, a)), d') \<Longrightarrow>
      \<exists>t \<le> now. entries d k = Some (a, t) \<and> entries d' = (entries d)(k := None)"
    and dq_none: "dq_poll_expired Q now d = (Ready None, d') \<Longrightarrow> entries d' = entries d"
    and dq_pending: "dq_poll_expired Q now d = (Pending, d') \<Longrightarrow> entries d' = entries d"
begin

lemma inv_channel: "rq_inv entries (rq_channel Q c)"
  by (simp add: rq_channel_def dq_new)

lemma handle_refines:
  assumes inv: "rq_inv entries r"
  shows "\<exists>r'. rq_handle Q op r = Some r' \<and> rq_inv entries r' \<and>
    rq_deadlines entries r' = rq_spec op (rq_deadlines entries r) \<and>
    rq_rx r' = rq_rx r \<and> rq_rx_closed r' = rq_rx_closed r"
proof (cases op)
  case Clear
  then show ?thesis by (simp add: dq_clear)
next
  case (Cancel obj)
  show ?thesis
  proof (cases "rq_pending r obj")
    case None
    with rq_when_dom[OF inv, of obj] have "rq_deadlines entries r obj = None" by simp
    with Cancel None inv show ?thesis by (simp add: fun_upd_idem)
  next
    case (Some k)
    with rq_linkedD[OF inv] obtain t where "entries (rq_q r) k = Some (obj, t)" by blast
    from dq_remove[OF this] rq_link_drop[OF inv Some] Cancel Some show ?thesis by auto
  qed
next
  case (Requeue obj at)
  show ?thesis
  proof (cases "rq_pending r obj")
    case None
    obtain k q where kq: "dq_insert_at Q obj at (rq_q r) = (k, q)" by fastforce
    from rq_link_put[OF inv, of obj k at] dq_insert[OF kq] Requeue None kq show ?thesis by auto
  next
    case (Some k)
    then have triv: "(rq_pending r)(obj \<mapsto> k) = rq_pending r" by auto
    from rq_linkedD[OF inv Some] obtain t where "entries (rq_q r) k = Some (obj, t)" by blast
    from dq_reset[OF this, of at] rq_link_put[OF inv, of obj k at] Requeue Some triv show ?thesis
      by auto
  qed
qed

lemma dequeue_refines:
  assumes inv: "rq_inv entries r" and "rq_dequeue Q now r = (out, r')"
  shows "rq_inv entries r' \<and> rq_rx r' = rq_rx r \<and> rq_rx_closed r' = rq_rx_closed r \<and>
    (case out of
       Ready (Some obj) \<Rightarrow> (\<exists>t \<le> now. rq_deadlines entries r obj = Some t) \<and>
         rq_deadlines entries r' = (rq_deadlines entries r)(obj := None)
     | Ready None \<Rightarrow> rq_rx_closed r \<and> rq_deadlines entries r = Map.empty \<and>
         rq_deadlines entries r' = Map.empty
     | Pending \<Rightarrow> rq_deadlines entries r' = rq_deadlines entries r \<and>
         (rq_rx_closed r \<longrightarrow> rq_deadlines entries r \<noteq> Map.empty))"
proof (cases "rq_pending r = Map.empty")
  case True
  with assms show ?thesis
    by (auto simp: rq_dequeue_def rq_finish_def split: if_splits)
next
  case False
  then have ne: "rq_deadlines entries r \<noteq> Map.empty" using rq_when_empty_iff[OF inv] by simp
  obtain p q where pq: "dq_poll_expired Q now (rq_q r) = (p, q)" by fastforce
  show ?thesis
  proof (cases "p = Pending \<or> p = Ready None")
    case True
    then have "entries q = entries (rq_q r)" using pq dq_none dq_pending by blast
    with True False pq assms ne show ?thesis
      by (auto simp: rq_dequeue_def rq_finish_def)
  next
    case waiting: False
    then obtain k obj where p: "p = Ready (Some (k, obj))"
      by (cases p) auto
    with pq dq_expired obtain t where t: "t \<le> now" "entries (rq_q r) k = Some (obj, t)"
      "entries q = (entries (rq_q r))(k := None)" by blast
    from rq_linkedI[OF inv t(2)] have P: "rq_pending r obj = Some k" .
    with t have "rq_deadlines entries r obj = Some t" by (simp add: rq_when_def)
    with rq_link_drop[OF inv P] False pq p t assms(2) show ?thesis
      by (auto simp: rq_dequeue_def)
  qed
qed

end

locale requeue_libs = mpsc_channel C S msgs closed + delay_queue_spec Q entries
  for C :: "('c, 'a rq_op) mpsc_rx" and S :: "('c, 'a rq_op) mpsc_tx" and msgs closed
    and Q :: "('d, 'k, 'a) delay_queue" and entries
begin

lemma recv_loop_refines:
  assumes "rq_inv entries r"
  shows "\<exists>r' handled. rq_recv_loop C Q r = Some (Some r') \<and> rq_inv entries r' \<and>
    msgs (rq_rx r) = handled @ msgs (rq_rx r') \<and>
    rq_deadlines entries r' = fold rq_spec handled (rq_deadlines entries r) \<and>
    (rq_rx_closed r' \<longrightarrow> rq_rx_closed r \<or> msgs (rq_rx r') = [])"
  using assms
proof (induction "msgs (rq_rx r)" arbitrary: r rule: length_induct)
  case 1
  obtain p c where pc: "rx_poll_recv C (rq_rx r) = (p, c)" by fastforce
  consider (pending) "p = Pending" | (none) "p = Ready None" | (some) op where "p = Ready (Some op)"
    by (metis option.exhaust poll.exhaust)
  then show ?case
  proof cases
    case pending
    with pc recv_pending 1 show ?thesis
      by (subst rq_recv_loop.simps) (auto intro!: exI[of _ "[]"])
  next
    case none
    with pc recv_none 1 show ?thesis
      by (subst rq_recv_loop.simps) (auto intro!: exI[of _ "[]"])
  next
    case (some op)
    with pc recv_some have m: "msgs (rq_rx r) = op # msgs c" by blast
    obtain r1 where r1: "rq_handle Q op (r\<lparr>rq_rx := c\<rparr>) = Some r1" "rq_inv entries r1"
      "rq_deadlines entries r1 = rq_spec op (rq_deadlines entries r)" "rq_rx r1 = c"
      "rq_rx_closed r1 = rq_rx_closed r"
      using handle_refines[of "r\<lparr>rq_rx := c\<rparr>" op] 1 by auto
    have "length (msgs (rq_rx r1)) < length (msgs (rq_rx r))" by (simp add: m r1)
    then obtain r2 handled where r2: "rq_recv_loop C Q r1 = Some (Some r2)" "rq_inv entries r2"
      "msgs c = handled @ msgs (rq_rx r2)"
      "rq_deadlines entries r2 = fold rq_spec handled (rq_deadlines entries r1)"
      "rq_rx_closed r2 \<longrightarrow> rq_rx_closed r \<or> msgs (rq_rx r2) = []"
      using "1.hyps" r1 by metis
    with m r1 some pc show ?thesis
      by (subst rq_recv_loop.simps) (auto intro!: exI[of _ "op # handled"])
  qed
qed

lemma poll_refines:
  assumes "rq_inv entries r"
  shows "\<exists>out r' handled. poll_requeued C Q now r = Some (Some (out, r')) \<and> rq_inv entries r' \<and>
    msgs (rq_rx r) = handled @ msgs (rq_rx r') \<and>
    (case out of
       Ready (Some obj) \<Rightarrow>
         (\<exists>t \<le> now. fold rq_spec handled (rq_deadlines entries r) obj = Some t) \<and>
         rq_deadlines entries r' = (fold rq_spec handled (rq_deadlines entries r))(obj := None)
     | Ready None \<Rightarrow> rq_rx_closed r' \<and> fold rq_spec handled (rq_deadlines entries r) = Map.empty \<and>
         rq_deadlines entries r' = Map.empty
     | Pending \<Rightarrow> rq_deadlines entries r' = fold rq_spec handled (rq_deadlines entries r) \<and>
         (rq_rx_closed r' \<longrightarrow> rq_deadlines entries r' \<noteq> Map.empty))"
proof -
  obtain r1 handled where r1: "(if rq_rx_closed r then Some (Some r) else rq_recv_loop C Q r) = Some (Some r1)"
    "rq_inv entries r1" "msgs (rq_rx r) = handled @ msgs (rq_rx r1)"
    "rq_deadlines entries r1 = fold rq_spec handled (rq_deadlines entries r)"
    using recv_loop_refines[OF assms] assms by (cases "rq_rx_closed r") fastforce+
  obtain out r' where deq: "rq_dequeue Q now r1 = (out, r')" by fastforce
  show ?thesis
    using dequeue_refines[OF r1(2) deq] r1 deq
    by (intro exI[of _ out] exI[of _ r'] exI[of _ handled])
      (auto simp: poll_requeued_def split: poll.splits option.splits)
qed

end

subsection \<open>Repeated polls\<close>

text \<open>The stream polled at a sequence of instants; \<open>None\<close> is a panic or a poll that does not return.\<close>

fun rq_polls ::
  "('c, 'a rq_op) mpsc_rx \<Rightarrow> ('d, 'k, 'a) delay_queue \<Rightarrow> instant list \<Rightarrow> ('c, 'd, 'k, 'a) rq_receiver \<Rightarrow>
   ('a option poll list \<times> ('c, 'd, 'k, 'a) rq_receiver) option" where
  "rq_polls C Q [] r = Some ([], r)"
| "rq_polls C Q (now # nows) r =
     (case poll_requeued C Q now r of
        Some (Some (out, r')) \<Rightarrow> map_option (apfst ((#) out)) (rq_polls C Q nows r')
      | _ \<Rightarrow> None)"

definition requeues :: "'a \<Rightarrow> 'a rq_op list \<Rightarrow> nat" where
  "requeues a ops = length (filter (\<lambda>op. \<exists>t. op = Requeue a t) ops)"

definition scheduled :: "'a \<Rightarrow> ('a \<rightharpoonup> instant) \<Rightarrow> nat" where
  "scheduled a m = (if m a = None then 0 else 1)"

lemma requeues_simps [simp]:
  "requeues a [] = 0" "requeues a (xs @ ys) = requeues a xs + requeues a ys"
  by (simp_all add: requeues_def)

lemma scheduled_step: "scheduled a (rq_spec op m) \<le> scheduled a m + requeues a [op]"
  by (cases op) (auto simp: scheduled_def requeues_def)

lemma scheduled_fold: "scheduled a (fold rq_spec ops m) \<le> scheduled a m + requeues a ops"
proof (induction ops arbitrary: m)
  case (Cons op ops)
  from Cons[of "rq_spec op m"] scheduled_step[of a op m] requeues_simps(2)[of a "[op]" ops]
  show ?case by simp
qed simp

context requeue_libs
begin

lemma polls_at_most_once:
  assumes "rq_inv entries r"
  shows "\<exists>outs r' handled. rq_polls C Q nows r = Some (outs, r') \<and> rq_inv entries r' \<and>
    msgs (rq_rx r) = handled @ msgs (rq_rx r') \<and>
    count_list outs (Ready (Some a)) + scheduled a (rq_deadlines entries r') \<le>
      requeues a handled + scheduled a (rq_deadlines entries r)"
  using assms
proof (induction nows arbitrary: r)
  case Nil
  then show ?case by (auto intro: exI[of _ "[]"])
next
  case (Cons now nows)
  obtain out r1 h1 where p: "poll_requeued C Q now r = Some (Some (out, r1))" "rq_inv entries r1"
    "msgs (rq_rx r) = h1 @ msgs (rq_rx r1)"
    and step: "count_list [out] (Ready (Some a)) + scheduled a (rq_deadlines entries r1) \<le>
      scheduled a (fold rq_spec h1 (rq_deadlines entries r))"
    using poll_refines[OF Cons.prems, of now]
    by (fastforce simp: scheduled_def split: poll.splits option.splits if_splits)
  obtain outs r2 h2 where q: "rq_polls C Q nows r1 = Some (outs, r2)" "rq_inv entries r2"
    "msgs (rq_rx r1) = h2 @ msgs (rq_rx r2)"
    "count_list outs (Ready (Some a)) + scheduled a (rq_deadlines entries r2) \<le>
      requeues a h2 + scheduled a (rq_deadlines entries r1)"
    using Cons.IH[OF p(2)] by blast
  with p step scheduled_fold[of a h1 "rq_deadlines entries r"] show ?case
    by (intro exI[of _ "out # outs"] exI[of _ r2] exI[of _ "h1 @ h2"]) (auto split: if_splits)
qed

end

subsection \<open>An implementation of the libraries\<close>

text \<open>
  A list channel and a delay queue that numbers its keys, as instances of the two contracts: the
  properties below hold of the receiver over them, and they are the concrete inputs of the
  witnesses.
\<close>

definition list_rx :: "('op list \<times> bool, 'op) mpsc_rx" where
  "list_rx = \<lparr>rx_poll_recv = (\<lambda>(ms, cl). case ms of
     [] \<Rightarrow> (if cl then Ready None else Pending, ([], cl))
   | m # ms \<Rightarrow> (Ready (Some m), (ms, cl)))\<rparr>"

definition list_tx :: "('op list \<times> bool, 'op) mpsc_tx" where
  "list_tx = \<lparr>tx_send = (\<lambda>op (ms, cl). if cl then (Inl op, (ms, cl)) else (Inr (), (ms @ [op], cl)))\<rparr>"

type_synonym 'a timer_wheel = "nat \<times> (nat \<rightharpoonup> 'a \<times> instant)"

definition wheel_entries :: "'a timer_wheel \<Rightarrow> (nat \<rightharpoonup> 'a \<times> instant)" where
  "wheel_entries d = (\<lambda>k. if k < fst d then snd d k else None)"

definition wheel_due :: "instant \<Rightarrow> 'a timer_wheel \<Rightarrow> nat option" where
  "wheel_due now d = find (\<lambda>k. case snd d k of None \<Rightarrow> False | Some (_, t) \<Rightarrow> t \<le> now) [0..<fst d]"

definition wheel :: "('a timer_wheel, nat, 'a) delay_queue" where
  "wheel = \<lparr>dq_new = (0, Map.empty),
     dq_insert_at = (\<lambda>a t d. (fst d, (Suc (fst d), (snd d)(fst d \<mapsto> (a, t))))),
     dq_reset_at = (\<lambda>k t d. if k < fst d then map_option (\<lambda>(a, _). (fst d, (snd d)(k \<mapsto> (a, t)))) (snd d k)
                            else None),
     dq_remove = (\<lambda>k d. if k < fst d then map_option (\<lambda>_. (fst d, (snd d)(k := None))) (snd d k) else None),
     dq_clear = (\<lambda>d. (fst d, Map.empty)),
     dq_poll_expired = (\<lambda>now d. case wheel_due now d of
        None \<Rightarrow> (Pending, d)
      | Some k \<Rightarrow> (Ready (map_option (\<lambda>(a, _). (k, a)) (snd d k)), (fst d, (snd d)(k := None))))\<rparr>"

lemma wheel_due_Some:
  "wheel_due now d = Some k \<Longrightarrow> k < fst d \<and> (\<exists>a t. snd d k = Some (a, t) \<and> t \<le> now)"
  by (fastforce simp: wheel_due_def find_Some_iff split: option.splits)

interpretation list_channel: mpsc_channel list_rx list_tx fst snd
  by unfold_locales (auto simp: list_rx_def list_tx_def split: list.splits if_splits)

interpretation wheel_queue: delay_queue_spec wheel wheel_entries
proof
  fix now k a and d d' :: "'a timer_wheel"
  assume "dq_poll_expired wheel now d = (Ready (Some (k, a)), d')"
  then show "\<exists>t\<le>now. wheel_entries d k = Some (a, t) \<and> wheel_entries d' = (wheel_entries d)(k := None)"
    by (auto simp: wheel_def wheel_entries_def fun_eq_iff split: option.splits dest!: wheel_due_Some)
next
  fix now and d d' :: "'a timer_wheel"
  assume "dq_poll_expired wheel now d = (Ready None, d')"
  then show "wheel_entries d' = wheel_entries d"
    by (auto simp: wheel_def wheel_entries_def split: option.splits dest!: wheel_due_Some)
qed (auto simp: wheel_def wheel_entries_def intro!: ext split: option.splits if_splits)

interpretation list_requeue: requeue_libs list_rx list_tx fst snd wheel wheel_entries
  by unfold_locales

text \<open>The receive loop over the list channel, for evaluation.\<close>

lemma list_recv_loop:
  "rq_recv_loop list_rx Q r =
     (case rq_rx r of
        ([], cl) \<Rightarrow> Some (Some (if cl then r\<lparr>rq_rx_closed := True\<rparr> else r))
      | (op # ms, cl) \<Rightarrow> (case rq_handle Q op (r\<lparr>rq_rx := (ms, cl)\<rparr>) of None \<Rightarrow> Some None | Some r' \<Rightarrow> rq_recv_loop list_rx Q r'))"
  by (cases r, subst rq_recv_loop.simps) (auto simp: list_rx_def split: list.splits prod.splits)

subsection \<open>Properties\<close>



text \<open>
  An item is delivered at most once per request: over any sequence of polls of a new receiver,
  no poll panics or fails to return, and an item is yielded at most as often as the messages taken
  from the channel requeue it.
\<close>
theorem requeue_at_most_once:
  assumes "requeue_libs C S msgs closed Q entries"
  shows "\<exists>outs r' handled. rq_polls C Q nows (rq_channel Q c) = Some (outs, r') \<and>
    msgs c = handled @ msgs (rq_rx r') \<and>
    count_list outs (Ready (Some a)) \<le> requeues a handled"
proof -
  have dq: "delay_queue_spec Q entries" using assms by (simp add: requeue_libs_def)
  have "rq_deadlines entries (rq_channel Q c) = Map.empty" by (simp add: rq_channel_def)
  then show ?thesis
    using requeue_libs.polls_at_most_once[OF assms delay_queue_spec.inv_channel[OF dq], of nows c a]
    by (fastforce simp: scheduled_def rq_channel_def)
qed

theorem requeue_at_most_once_witness:
  "\<exists>outs r' handled. rq_polls list_rx wheel [1, 20, 30]
       (rq_channel wheel ([Requeue ''pod-a'' 10, Requeue ''pod-a'' 15], False)) = Some (outs, r') \<and>
     [Requeue ''pod-a'' 10, Requeue ''pod-a'' 15] = handled @ fst (rq_rx r') \<and>
     count_list outs (Ready (Some ''pod-a'')) \<le> requeues ''pod-a'' handled"
  using requeue_at_most_once[OF list_requeue.requeue_libs_axioms, where nows = "[1, 20, 30]"
      and c = "([Requeue ''pod-a'' 10, Requeue ''pod-a'' 15], False)" and a = "''pod-a''"] by simp

text \<open>
  The sender's operations never reach \<open>unreachable!()\<close>: each either appends its
  operation to the channel or hands the item back in the error, whatever the channel's state, and
  \<open>requeue\<close> schedules the item at the current instant plus the delay.
\<close>
theorem requeue_sender_total:
  assumes "mpsc_channel C S msgs closed"
  shows "(\<exists>res c'. rq_requeue S now obj defer c = Some (res, c') \<and>
      (res = Inr () \<and> msgs c' = msgs c @ [Requeue obj (now + defer)] \<or>
       res = Inl obj \<and> msgs c' = msgs c)) \<and>
    (\<exists>res c'. rq_cancel S obj c = Some (res, c') \<and>
      (res = Inr () \<and> msgs c' = msgs c @ [Cancel obj] \<or> res = Inl obj \<and> msgs c' = msgs c)) \<and>
    (\<exists>res c'. rq_clear S c = (res, c') \<and>
      (res = Inr () \<and> msgs c' = msgs c @ [Clear] \<or> res = Inl () \<and> msgs c' = msgs c))"
  using mpsc_channel.send_ok[OF assms] mpsc_channel.send_err[OF assms]
  by (fastforce simp: rq_requeue_def rq_requeue_at_def rq_cancel_def rq_clear_def
      split: sum.splits prod.splits)

theorem requeue_sender_total_witness:
  "\<exists>res c'. rq_requeue list_tx 3 ''pod-a'' 10 ([], False) = Some (res, c') \<and>
      (res = Inr () \<and> fst c' = [Requeue ''pod-a'' 13] \<or> res = Inl ''pod-a'' \<and> fst c' = [])"
  using requeue_sender_total[OF list_channel.mpsc_channel_axioms, of 3 "''pod-a''" 10 "([], False)"]
  by simp

subsection \<open>Senders and the receiver together\<close>

text \<open>What the owners of a channel may do, in any order: its operations on the sender, and a poll.\<close>

datatype 'a channel_act = ActRequeue instant 'a nat | ActRequeueAt 'a instant | ActCancel 'a | ActClear | ActPoll instant

fun rq_act ::
  "('c, 'a rq_op) mpsc_rx \<Rightarrow> ('c, 'a rq_op) mpsc_tx \<Rightarrow> ('d, 'k, 'a) delay_queue \<Rightarrow> 'a channel_act \<Rightarrow> ('c, 'd, 'k, 'a) rq_receiver \<Rightarrow>
   ('c, 'd, 'k, 'a) rq_receiver option" where
  "rq_act C S Q (ActRequeue now obj defer) r = map_option (\<lambda>x. r\<lparr>rq_rx := snd x\<rparr>) (rq_requeue S now obj defer (rq_rx r))"
| "rq_act C S Q (ActRequeueAt obj time) r = map_option (\<lambda>x. r\<lparr>rq_rx := snd x\<rparr>) (rq_requeue_at S obj time (rq_rx r))"
| "rq_act C S Q (ActCancel obj) r = map_option (\<lambda>x. r\<lparr>rq_rx := snd x\<rparr>) (rq_cancel S obj (rq_rx r))"
| "rq_act C S Q ActClear r = Some (r\<lparr>rq_rx := snd (rq_clear S (rq_rx r))\<rparr>)"
| "rq_act C S Q (ActPoll now) r =
     (case poll_requeued C Q now r of Some (Some (_, r)) \<Rightarrow> Some r | _ \<Rightarrow> None)"

context requeue_libs
begin

lemma requeue_at_total: "\<exists>res c'. rq_requeue_at S obj time c = Some (res, c')"
  using send_err[of "Requeue obj time" c] by (auto simp: rq_requeue_at_def split: sum.splits prod.splits)

lemma cancel_total: "\<exists>res c'. rq_cancel S obj c = Some (res, c')"
  using send_err[of "Cancel obj" c] by (auto simp: rq_cancel_def split: sum.splits prod.splits)

lemma act_inv:
  assumes "rq_inv entries r"
  shows "\<exists>r'. rq_act C S Q act r = Some r' \<and> rq_inv entries r'"
proof (cases act)
  case (ActRequeue now obj d)
  then show ?thesis using requeue_at_total[of obj "now + d" "rq_rx r"] assms by (auto simp: rq_requeue_def)
next
  case (ActRequeueAt obj time)
  then show ?thesis using requeue_at_total[of obj time "rq_rx r"] assms by auto
next
  case (ActCancel obj)
  then show ?thesis using cancel_total[of obj "rq_rx r"] assms by auto
next
  case (ActPoll now)
  then show ?thesis using poll_refines[OF assms, of now] by auto
qed (use assms in simp)

lemma acts_inv: "rq_inv entries r \<Longrightarrow> \<exists>r'. fold_opt (rq_act C S Q) acts r = Some r' \<and> rq_inv entries r'"
proof (induction acts arbitrary: r)
  case (Cons act acts)
  from act_inv[OF Cons.prems, of act] obtain r1 where "rq_act C S Q act r = Some r1" "rq_inv entries r1" by blast
  with Cons.IH[of r1] show ?case by simp
qed simp

end



end
