(* ===== verification/Runtime_Watch.thy ===== *)
theory Runtime_Watch
  imports Runtime_Build Log_And_Sleep Requeue Lease
begin

text \<open>
  \<open>kubert/src/runtime.rs\<close>: the watches, caches, requeue channels and leases of a runtime. A watch
  is a stack of stream adapters, each modelled in its own theory; here they are put together in the
  order of the code. The watcher and the reflector (\<open>kube_runtime\<close>) are parameters.
\<close>

subsection \<open>watch_inner\<close>

text \<open>
  The watcher with the inspection for the diagnostics: every item it yields is inspected. The state of
  the diagnostics is \<open>None\<close> after a panic of the inspection; the poll it happened in has no
  result then (see below). \<open>clock\<close> reads the wall clock.
\<close>

definition inspect_watch ::
  "bool \<Rightarrow> 'r watched_type \<Rightarrow> ('e \<Rightarrow> string) \<Rightarrow> (instant \<Rightarrow> timestamp) \<Rightarrow> ('s, ('e + 'r event) option) poll_fn \<Rightarrow>
   ('s \<times> watch_state option, ('e + 'r event) option) poll_fn" where
  "inspect_watch oc T msg clock watcher now sd =
     (case watcher now (fst sd) of
        (Ready (Some item), s) \<Rightarrow> (Ready (Some item), (s, Option.bind (snd sd) (wd_inspect oc T msg (clock now) item)))
      | (p, s) \<Rightarrow> (p, (s, snd sd)))"

definition watch_inner ::
  "bool \<Rightarrow> 'r watched_type \<Rightarrow> resource_type \<Rightarrow> ('x watcher_error \<Rightarrow> string) \<Rightarrow> (instant \<Rightarrow> timestamp) \<Rightarrow>
   ('s, ('x watcher_error + 'r event) option) poll_fn \<Rightarrow>
   (('s \<times> watch_state option) \<times> watch_metrics option, ('x watcher_error + 'r event) option) poll_fn" where
  "watch_inner oc T RT msg clock watcher = instrument_watch RT (inspect_watch oc T msg clock watcher)"

text \<open>\<open>reflector\<close>: every event that passes updates the store.\<close>

definition reflector ::
  "('r event \<Rightarrow> 'st \<Rightarrow> 'st) \<Rightarrow> ('s, ('e + 'r event) option) poll_fn \<Rightarrow> ('s \<times> 'st, ('e + 'r event) option) poll_fn" where
  "reflector apply_event inner now sw =
     (case inner now (fst sw) of
        (Ready (Some (Inr ev)), s) \<Rightarrow> (Ready (Some (Inr ev)), (s, apply_event ev (snd sw)))
      | (p, s) \<Rightarrow> (p, (s, snd sw)))"

subsection \<open>watch and cache\<close>

text \<open>
  The adapters around a stream of results: errors are logged and retried after a delay, the handle is
  released on the first item, and shutdown ends the stream. The semaphore of the handle is part of the
  stream's state.
\<close>

type_synonym ('s, 'm, 'rx) runtime_stream = "('s log_and_sleep releases_on_ready \<times> 'm, 'rx) cancel_on_shutdown"

definition stream_new :: "instant \<Rightarrow> duration \<Rightarrow> 'rx \<Rightarrow> 'm \<Rightarrow> 's \<Rightarrow> ('s, 'm, 'rx) runtime_stream" where
  "stream_new now delay rx sem s = cos_new rx (release_on_ready (las_fixed_delay now delay s), sem)"

abbreviation stream_state :: "('s, 'm, 'rx) runtime_stream \<Rightarrow> 's" where
  "stream_state st \<equiv> las_stream (ror_inner (fst (cos_inner st)))"

text \<open>
  One poll, from the outside in: \<open>CancelOnShutdown\<close> polls \<open>ReleasesOnReady\<close>, which polls
  \<open>LogAndSleep\<close>, each once. \<open>None\<close> is a panic (\<open>panicked\<close> tells it from the inner
  state) or a poll that does not return.
\<close>

definition stream_poll ::
  "(instant \<Rightarrow> instant \<Rightarrow> bool) \<Rightarrow> 'm sem_api \<Rightarrow> ('s \<Rightarrow> bool) \<Rightarrow> ('s, ('e + 'a) option) poll_fn \<Rightarrow> ('rx, unit) poll_fn \<Rightarrow>
   instant \<Rightarrow> ('s, 'm, 'rx) runtime_stream \<Rightarrow> ('a option poll \<times> ('s, 'm, 'rx) runtime_stream) option" where
  "stream_poll ready S panicked inner sig now st =
     do { (p, las) \<leftarrow> las_poll_next ready inner now (ror_inner (fst (cos_inner st)));
          if panicked (las_stream las) then None
          else cos_poll_next (ror_poll S (\<lambda>_ _. (p, las))) sig now st }"

fun stream_drive ::
  "(instant \<Rightarrow> instant \<Rightarrow> bool) \<Rightarrow> 'm sem_api \<Rightarrow> ('s \<Rightarrow> bool) \<Rightarrow> ('s, ('e + 'a) option) poll_fn \<Rightarrow> ('rx, unit) poll_fn \<Rightarrow>
   instant list \<Rightarrow> ('s, 'm, 'rx) runtime_stream \<Rightarrow> ('a option poll list \<times> ('s, 'm, 'rx) runtime_stream) option" where
  "stream_drive ready S panicked inner sig [] st = Some ([], st)"
| "stream_drive ready S panicked inner sig (now # nows) st =
     do { (out, st) \<leftarrow> stream_poll ready S panicked inner sig now st;
          if out = Ready None then Some ([out], st)
          else do { (outs, st) \<leftarrow> stream_drive ready S panicked inner sig nows st; Some (out # outs, st) } }"

text \<open>
  \<open>Runtime::watch\<close>: the diagnostics are registered, a handle is issued, and the stream is made.
  \<open>s\<close> is the new watcher. The result is the stream, the runtime with its tracker and diagnostics,
  and the heap of the diagnostics' states.
\<close>

definition watch_registered ::
  "timestamp \<Rightarrow> string \<Rightarrow> string option \<Rightarrow>
   ('addr, 'l, 'client, 'm, 'rx, 'd, 'srv) runtime \<times> 'fl dg_heap \<Rightarrow>
   watch_state option \<times> ('addr, 'l, 'client, 'm, 'rx, 'd, 'srv) runtime \<times> 'fl dg_heap" where
  "watch_registered ts url selector rh =
     (case rh of (r, h) \<Rightarrow>
        (case register_watch ts url selector (ad_diagnostics (ru_admin r), h) of
           (a, dg, h) \<Rightarrow> (hp_watches h a, r\<lparr>ru_admin := (ru_admin r)\<lparr>ad_diagnostics := dg\<rparr>\<rparr>, h)))"

definition runtime_watch ::
  "bool \<Rightarrow> 'm sem_api \<Rightarrow> instant \<Rightarrow> timestamp \<Rightarrow> string \<Rightarrow> string option \<Rightarrow> 's \<Rightarrow>
   ('addr, 'l, 'client, 'm, 'rx, 'd, 'srv) runtime \<times> 'fl dg_heap \<Rightarrow>
   ((('s \<times> watch_state option) \<times> watch_metrics option, 'm, 'rx) runtime_stream \<times>
    ('addr, 'l, 'client, 'm, 'rx, 'd, 'srv) runtime \<times> 'fl dg_heap) option" where
  "runtime_watch oc S now ts url selector s rh =
     (case watch_registered ts url selector rh of (d, r, h) \<Rightarrow> do {
        i \<leftarrow> add_handle oc S (ru_initialized r);
        Some (stream_new now (ru_error_delay r) (ru_shutdown_rx r) (ini_semaphore i) ((s, d), ru_metrics r),
              r\<lparr>ru_initialized := i\<rparr>, h) })"

text \<open>\<open>Runtime::cache\<close>: the same with a reflector that writes to a store.\<close>

definition runtime_cache ::
  "bool \<Rightarrow> 'm sem_api \<Rightarrow> instant \<Rightarrow> timestamp \<Rightarrow> string \<Rightarrow> string option \<Rightarrow> 's \<Rightarrow> 'st \<Rightarrow>
   ('addr, 'l, 'client, 'm, 'rx, 'd, 'srv) runtime \<times> 'fl dg_heap \<Rightarrow>
   (((('s \<times> watch_state option) \<times> watch_metrics option) \<times> 'st, 'm, 'rx) runtime_stream \<times>
    ('addr, 'l, 'client, 'm, 'rx, 'd, 'srv) runtime \<times> 'fl dg_heap) option" where
  "runtime_cache oc S now ts url selector s store rh =
     (case watch_registered ts url selector rh of (d, r, h) \<Rightarrow> do {
        i \<leftarrow> add_handle oc S (ru_initialized r);
        Some (stream_new now (ru_error_delay r) (ru_shutdown_rx r) (ini_semaphore i) (((s, d), ru_metrics r), store),
              r\<lparr>ru_initialized := i\<rparr>, h) })"

text \<open>
  The variants on the default client: \<open>Api::all\<close> and \<open>Api::namespaced\<close> give the URL of a
  resource and a new watcher on it.
\<close>

record ('client, 's) api_ctors =
  api_all :: "'client \<Rightarrow> string \<times> 's"
  api_namespaced :: "'client \<Rightarrow> string \<Rightarrow> string \<times> 's"

definition watch_all ::
  "('client, 's) api_ctors \<Rightarrow> bool \<Rightarrow> 'm sem_api \<Rightarrow> instant \<Rightarrow> timestamp \<Rightarrow> string option \<Rightarrow>
   ('addr, 'l, 'client, 'm, 'rx, 'd, 'srv) runtime \<times> 'fl dg_heap \<Rightarrow>
   ((('s \<times> watch_state option) \<times> watch_metrics option, 'm, 'rx) runtime_stream \<times>
    ('addr, 'l, 'client, 'm, 'rx, 'd, 'srv) runtime \<times> 'fl dg_heap) option" where
  "watch_all K oc S now ts selector rh =
     (case api_all K (ru_client (fst rh)) of (url, s) \<Rightarrow> runtime_watch oc S now ts url selector s rh)"

definition watch_namespaced ::
  "('client, 's) api_ctors \<Rightarrow> bool \<Rightarrow> 'm sem_api \<Rightarrow> instant \<Rightarrow> timestamp \<Rightarrow> string \<Rightarrow> string option \<Rightarrow>
   ('addr, 'l, 'client, 'm, 'rx, 'd, 'srv) runtime \<times> 'fl dg_heap \<Rightarrow>
   ((('s \<times> watch_state option) \<times> watch_metrics option, 'm, 'rx) runtime_stream \<times>
    ('addr, 'l, 'client, 'm, 'rx, 'd, 'srv) runtime \<times> 'fl dg_heap) option" where
  "watch_namespaced K oc S now ts ns selector rh =
     (case api_namespaced K (ru_client (fst rh)) ns of (url, s) \<Rightarrow> runtime_watch oc S now ts url selector s rh)"

definition cache_all ::
  "('client, 's) api_ctors \<Rightarrow> bool \<Rightarrow> 'm sem_api \<Rightarrow> instant \<Rightarrow> timestamp \<Rightarrow> string option \<Rightarrow> 'st \<Rightarrow>
   ('addr, 'l, 'client, 'm, 'rx, 'd, 'srv) runtime \<times> 'fl dg_heap \<Rightarrow>
   (((('s \<times> watch_state option) \<times> watch_metrics option) \<times> 'st, 'm, 'rx) runtime_stream \<times>
    ('addr, 'l, 'client, 'm, 'rx, 'd, 'srv) runtime \<times> 'fl dg_heap) option" where
  "cache_all K oc S now ts selector store rh =
     (case api_all K (ru_client (fst rh)) of (url, s) \<Rightarrow> runtime_cache oc S now ts url selector s store rh)"

definition cache_namespaced ::
  "('client, 's) api_ctors \<Rightarrow> bool \<Rightarrow> 'm sem_api \<Rightarrow> instant \<Rightarrow> timestamp \<Rightarrow> string \<Rightarrow> string option \<Rightarrow> 'st \<Rightarrow>
   ('addr, 'l, 'client, 'm, 'rx, 'd, 'srv) runtime \<times> 'fl dg_heap \<Rightarrow>
   (((('s \<times> watch_state option) \<times> watch_metrics option) \<times> 'st, 'm, 'rx) runtime_stream \<times>
    ('addr, 'l, 'client, 'm, 'rx, 'd, 'srv) runtime \<times> 'fl dg_heap) option" where
  "cache_namespaced K oc S now ts ns selector store rh =
     (case api_namespaced K (ru_client (fst rh)) ns of (url, s) \<Rightarrow> runtime_cache oc S now ts url selector s store rh)"

subsection \<open>requeue and spawn_lease\<close>

definition runtime_requeue ::
  "('q, 'k, 'a) delay_queue \<Rightarrow> 'c \<Rightarrow> ('addr, 'l, 'client, 'm, 'rx, 'd, 'srv) runtime \<Rightarrow>
   (('c, 'q, 'k, 'a) rq_receiver, 'rx) cancel_on_shutdown" where
  "runtime_requeue Q c r = cos_new (ru_shutdown_rx r) (rq_channel Q c)"

text \<open>
  \<open>spawn_lease\<close>: \<open>A\<close> is the API of a namespace. If the lease cannot be read or claimed, the
  diagnostics' state is dropped with the manager that owned it; otherwise the manager and the registry
  share it, so that the entry of the heap is the state the manager has. The outer \<open>None\<close> is a call that
  does not return, the inner one a panic.
\<close>

definition spawn_lease ::
  "bool \<Rightarrow> chrono \<Rightarrow> (string \<Rightarrow> 'w lease_api) \<Rightarrow> (duration \<Rightarrow> 'fl) \<Rightarrow> timestamp \<Rightarrow> lease_params \<Rightarrow> 'w \<Rightarrow>
   ('addr, 'l, 'client, 'm, 'rx, 'd, 'srv) runtime \<times> 'fl dg_heap \<Rightarrow>
   ((lease_error + ('fl, 'w) lease_task) \<times> ('addr, 'l, 'client, 'm, 'rx, 'd, 'srv) runtime \<times> 'fl dg_heap) option option" where
  "spawn_lease oc C A secs ts params w rh =
     (case rh of (r, h) \<Rightarrow>
     (case register_lease secs ts params (ad_diagnostics (ru_admin r), h) of (a, dg, h) \<Rightarrow>
        let r = r\<lparr>ru_admin := (ru_admin r)\<lparr>ad_diagnostics := dg\<rparr>\<rparr>;
            api = A (lp_namespace params)
        in (case lm_init C api (lp_name params) w of
              (None, w) \<Rightarrow> Some None
            | (Some (Inl e), w) \<Rightarrow> Some (Some (Inl e, r, drop_lease a h))
            | (Some (Inr m), w) \<Rightarrow>
                let m = (case lp_field_manager params of None \<Rightarrow> m | Some fm \<Rightarrow> with_field_manager fm m);
                    m = (case hp_leases h a of None \<Rightarrow> m | Some d \<Rightarrow> with_diagnostics d m)
                in (case lm_spawn oc C api (lp_claimant params)
                       \<lparr>cp_lease_duration = lp_lease_duration params,
                        cp_renew_grace_period = lp_renew_grace_period params\<rparr> m w of
                      None \<Rightarrow> None
                    | Some None \<Rightarrow> Some None
                    | Some (Some (Inl e)) \<Rightarrow> Some (Some (Inl e, r, drop_lease a h))
                    | Some (Some (Inr task)) \<Rightarrow>
                        Some (Some (Inr task, r, h\<lparr>hp_leases := (hp_leases h)(a := lm_diagnostics (lt_manager task))\<rparr>))))))"

subsection \<open>What the adapters keep\<close>

lemma inspect_watch_traced: "traced L w \<Longrightarrow> traced (\<lambda>sd. L (fst sd)) (inspect_watch oc T msg clock w)"
  by (auto simp: traced_def inspect_watch_def split: prod.splits poll.splits option.splits) (metis fst_conv snd_conv)+

lemma instrument_watch_traced: "traced L w \<Longrightarrow> traced (\<lambda>sm. L (fst sm)) (instrument_watch RT w)"
  by (auto simp: traced_def instrument_watch_def split: prod.splits poll.splits option.splits) (metis fst_conv snd_conv)+

lemma reflector_traced: "traced L w \<Longrightarrow> traced (\<lambda>sw. L (fst sw)) (reflector apply_event w)"
  by (auto simp: traced_def reflector_def split: prod.splits poll.splits option.splits sum.splits) (metis fst_conv snd_conv)+

lemma watch_inner_traced:
  "traced (\<lambda>s. fst (fst (fst s))) (watch_inner oc T RT msg clock (logged watcher))"
  unfolding watch_inner_def by (intro instrument_watch_traced inspect_watch_traced logged_traced)

text \<open>
  The state of a watch in terms of what its watcher yielded: the diagnostics have inspected every
  item, at some instants, and the metrics have counted every item.
\<close>

definition watch_state_of ::
  "bool \<Rightarrow> 'r watched_type \<Rightarrow> resource_type \<Rightarrow> ('x watcher_error \<Rightarrow> string) \<Rightarrow> watch_state \<Rightarrow> watch_metrics option \<Rightarrow>
   ('x watcher_error + 'r event) option poll list \<Rightarrow> watch_state option \<Rightarrow> watch_metrics option \<Rightarrow> bool" where
  "watch_state_of oc T RT msg d0 m0 log d m \<longleftrightarrow>
     m = map_option (fold (instrument_event RT) (items log)) m0 \<and>
     (\<exists>ts. length ts = length (items log) \<and> d = wd_inspects oc T msg (zip ts (items log)) d0)"

lemma oks_items: "oks log = List.map_filter (\<lambda>x. case x of Inl _ \<Rightarrow> None | Inr e \<Rightarrow> Some e) (items log)"
  by (induction log rule: oks.induct) (auto simp: List.map_filter_simps split: option.splits)

lemma watch_state_of_init: "watch_state_of oc T RT msg d0 m0 [] (Some d0) m0"
  by (simp add: watch_state_of_def wd_inspects_def option.map_id)

lemma fold_opt_single: "fold_opt f [x] = f x"
proof
  show "fold_opt f [x] s = f x s" for s by (cases "f x s") simp_all
qed

lemma watch_inner_step:
  assumes "watch_state_of oc T RT msg d0 m0 (fst (fst (fst s))) (snd (fst s)) (snd s)"
  shows "let s' = snd (watch_inner oc T RT msg clock (logged watcher) now s) in
    watch_state_of oc T RT msg d0 m0 (fst (fst (fst s'))) (snd (fst s')) (snd s')"
proof -
  obtain log w d m where s: "s = (((log, w), d), m)" by (metis prod.exhaust)
  obtain p w' where p: "watcher now w = (p, w')" by fastforce
  from assms s obtain ts where ts: "m = map_option (fold (instrument_event RT) (items log)) m0"
    "length ts = length (items log)" "d = wd_inspects oc T msg (zip ts (items log)) d0"
    by (auto simp: watch_state_of_def)
  have "wd_inspects oc T msg (zip (ts @ [clock now]) (items log @ [item])) d0 =
      Option.bind d (wd_inspect oc T msg (clock now) item)" for item
    using ts(2,3) by (simp add: wd_inspects_def fold_opt_append fold_opt_single del: fold_opt.simps)
  with ts p s show ?thesis
    by (auto simp: watch_inner_def instrument_watch_def inspect_watch_def logged_def watch_state_of_def
        option.map_comp comp_def split: poll.splits option.splits intro!: exI[of _ "ts @ map (\<lambda>_. clock now) (items [p])"])
qed

subsection \<open>The stack of adapters\<close>

text \<open>
  What one poll, or a sequence of polls, of the stack does, in terms of what its inner stream yielded
  meanwhile (\<open>new\<close>), of the items that came out, and of the states before and after.
\<close>

definition stream_effect ::
  "('m \<Rightarrow> nat) \<Rightarrow> ('e + 'a) option poll list \<Rightarrow> 'a list \<Rightarrow> bool \<Rightarrow> ('s, 'm, 'rx) runtime_stream \<Rightarrow>
   ('s, 'm, 'rx) runtime_stream \<Rightarrow> bool" where
  "stream_effect permits new out_items ended st st' \<longleftrightarrow>
     out_items = oks new \<and>
     permits (snd (cos_inner st')) + of_bool (ror_handle (fst (cos_inner st'))) =
       permits (snd (cos_inner st)) + of_bool (ror_handle (fst (cos_inner st))) \<and>
     (ror_handle (fst (cos_inner st')) \<longleftrightarrow>
        ror_handle (fst (cos_inner st)) \<and> out_items = [] \<and> \<not> stream_ended new) \<and>
     (if ended then cos_shutdown st' = Finished \<or> stream_ended new
      else (\<exists>f. cos_shutdown st' = Running f) \<and> \<not> stream_ended new)"

lemma stream_effect_trans:
  assumes 1: "stream_effect permits new1 xs False st st1" and 2: "stream_effect permits new2 ys e st1 st2"
  shows "stream_effect permits (new1 @ new2) (xs @ ys) e st st2"
proof -
  have "stream_ended (new1 @ new2) \<longleftrightarrow> stream_ended new2"
    using 1 by (simp add: stream_effect_def)
  moreover have "permits (snd (cos_inner st2)) + of_bool (ror_handle (fst (cos_inner st2))) =
      permits (snd (cos_inner st)) + of_bool (ror_handle (fst (cos_inner st)))"
    using 1 2 unfolding stream_effect_def by linarith
  moreover have "ror_handle (fst (cos_inner st2)) \<longleftrightarrow>
      ror_handle (fst (cos_inner st)) \<and> xs @ ys = [] \<and> \<not> stream_ended new2"
    using 1 2 unfolding stream_effect_def by auto
  moreover have "xs @ ys = oks (new1 @ new2)"
    using 1 2 unfolding stream_effect_def by simp
  moreover have "if e then cos_shutdown st2 = Finished \<or> stream_ended new2
      else (\<exists>f. cos_shutdown st2 = Running f) \<and> \<not> stream_ended new2"
    using 2 unfolding stream_effect_def by blast
  ultimately show ?thesis unfolding stream_effect_def by simp
qed

lemma stream_poll_effect:
  assumes "sleep_timer ready" and "semaphore S permits" and "traced L inner"
    and "\<And>now s. I s \<Longrightarrow> I (snd (inner now s))"
    and "\<And>s. I s \<Longrightarrow> length (L s) \<le> length (L (stream_state st)) + 2 \<Longrightarrow> \<not> panicked s"
    and "I (stream_state st)" and "0 < las_delay (ror_inner (fst (cos_inner st)))" and "cos_shutdown st = Running f"
  shows "\<exists>out st' new. stream_poll ready S panicked inner sig now st = Some (out, st') \<and>
    L (stream_state st') = L (stream_state st) @ new \<and> length new \<le> 2 \<and> I (stream_state st') \<and>
    las_delay (ror_inner (fst (cos_inner st'))) = las_delay (ror_inner (fst (cos_inner st))) \<and>
    stream_effect permits new (items [out]) (out = Ready None) st st'"
proof -
  let ?x = "fst (cos_inner st)" and ?m = "snd (cos_inner st)"
  obtain p las new where las: "las_poll_next ready inner now (ror_inner ?x) = Some (p, las)"
    "L (las_stream las) = L (stream_state st) @ new" "las_delay las = las_delay (ror_inner ?x)" "las_outcome new p"
    using sleep_timer.poll_outcome[OF assms(1,3,7)] by blast
  have I: "I (las_stream las)"
    using las_poll_next_invariant[OF las(1), of I] assms(4,6) by simp
  have "length new \<le> 2" using las(4) by (simp add: las_outcome_def)
  with las(2) I assms(5) have poll: "stream_poll ready S panicked inner sig now st =
      cos_poll_next (ror_poll S (\<lambda>_ _. (p, las))) sig now st"
    by (simp add: stream_poll_def las(1))
  have add: "permits (handle_drop S ?m) = Suc (permits ?m)"
    using semaphore.permits_add[OF assms(2)] by (simp add: handle_drop_def)
  show ?thesis
  proof (cases p)
    case Pending
    obtain q f' where q: "sig now f = (q, f')" by fastforce
    with poll Pending assms(8) las I \<open>length new \<le> 2\<close> show ?thesis
      by (cases q) (auto simp: cos_poll_next_def ror_poll_def stream_effect_def las_outcome_def)
  next
    case (Ready out)
    with poll assms(8) las I \<open>length new \<le> 2\<close> show ?thesis
      by (cases out) (auto simp: cos_poll_next_def ror_poll_def stream_effect_def las_outcome_def stream_ended_def add)
  qed
qed

lemma stream_drive_effect:
  assumes "sleep_timer ready" and "semaphore S permits" and "traced L inner"
    and step: "\<And>now s. I s \<Longrightarrow> I (snd (inner now s))"
    and "\<And>s. I s \<Longrightarrow> length (L s) \<le> N \<Longrightarrow> \<not> panicked s"
    and "length (L (stream_state st)) + 2 * length nows \<le> N"
    and "I (stream_state st)" and "0 < las_delay (ror_inner (fst (cos_inner st)))" and "cos_shutdown st = Running f"
  shows "\<exists>outs st' new. stream_drive ready S panicked inner sig nows st = Some (outs, st') \<and>
    L (stream_state st') = L (stream_state st) @ new \<and> length new \<le> 2 * length nows \<and> I (stream_state st') \<and>
    stream_effect permits new (items outs) (Ready None \<in> set outs) st st'"
  using assms(6-)
proof (induction nows arbitrary: st f)
  case Nil
  then show ?case by (simp add: stream_effect_def)
next
  case (Cons now nows)
  have "\<not> panicked s" if "I s" "length (L s) \<le> length (L (stream_state st)) + 2" for s
    using that Cons.prems(1) assms(5)[of s] by simp
  then obtain out st1 new1 where 1: "stream_poll ready S panicked inner sig now st = Some (out, st1)"
    "L (stream_state st1) = L (stream_state st) @ new1" "length new1 \<le> 2" "I (stream_state st1)"
    "las_delay (ror_inner (fst (cos_inner st1))) = las_delay (ror_inner (fst (cos_inner st)))"
    "stream_effect permits new1 (items [out]) (out = Ready None) st st1"
    using stream_poll_effect[where I = I and st = st and f = f and sig = sig and now = now and panicked = panicked,
        OF assms(1-3)] step Cons.prems(2-) by blast
  show ?case
  proof (cases "out = Ready None")
    case True
    with 1 show ?thesis
      by (intro exI[of _ "[out]"] exI[of _ st1] exI[of _ new1]) simp
  next
    case False
    then obtain f' where "cos_shutdown st1 = Running f'" using 1(6) by (auto simp: stream_effect_def)
    with Cons.IH[of st1 f'] 1(2-5) Cons.prems obtain outs st2 new2 where
      2: "stream_drive ready S panicked inner sig nows st1 = Some (outs, st2)"
      "L (stream_state st2) = L (stream_state st1) @ new2" "length new2 \<le> 2 * length nows" "I (stream_state st2)"
      "stream_effect permits new2 (items outs) (Ready None \<in> set outs) st1 st2"
      by auto
    have "stream_effect permits (new1 @ new2) (items [out] @ items outs) (Ready None \<in> set (out # outs)) st st2"
      using stream_effect_trans[OF _ 2(5)] 1(6) False by simp
    moreover have "items [out] @ items outs = items (out # outs)" by (metis append_Cons append_Nil items_append)
    ultimately show ?thesis using 1 2 False
      by (intro exI[of _ "out # outs"] exI[of _ st2] exI[of _ "new1 @ new2"]) simp
  qed
qed

subsection \<open>Properties\<close>

text \<open>The 64-bit counters of the diagnostics have room for a number of further items.\<close>

definition wd_room :: "nat \<Rightarrow> watch_state \<Rightarrow> bool" where
  "wd_room n s \<longleftrightarrow> (let st = ws_stats s in
     unat (wst_errors st) + n < 2 ^ 64 \<and> unat (wst_resets st) + n < 2 ^ 64 \<and>
     unat (wst_applies st) + n < 2 ^ 64 \<and> unat (wst_deletes st) + n < 2 ^ 64)"

lemma rust_add_room:
  "unat a + Suc n < 2 ^ 64 \<Longrightarrow> rust_add oc a 1 = Some (a + 1) \<and> unat (a + 1) + n < 2 ^ 64" for a :: "64 word"
  using rust_add_exact[of a 1 oc] by auto

lemma wd_inspect_room: "wd_room (Suc n) s \<Longrightarrow> \<exists>s'. wd_inspect oc T msg now item s = Some s' \<and> wd_room n s'"
  using rust_add_room[of "wst_errors (ws_stats s)" n oc] rust_add_room[of "wst_resets (ws_stats s)" n oc]
    rust_add_room[of "wst_applies (ws_stats s)" n oc] rust_add_room[of "wst_deletes (ws_stats s)" n oc]
  by (cases "(oc, T, msg, now, item, s)" rule: wd_inspect.cases) (auto simp: wd_room_def Let_def)

lemma wd_inspects_room: "wd_room (length es) s \<Longrightarrow> wd_inspects oc T msg es s \<noteq> None"
proof (induction es arbitrary: s)
  case (Cons e es)
  obtain now item where "e = (now, item)" by fastforce
  with Cons wd_inspect_room[of "length es" s oc T msg now item] show ?case
    by (auto simp: wd_inspects_def)
qed (simp add: wd_inspects_def)

lemma wd_room_new: "n < 2 ^ 64 \<Longrightarrow> wd_room n (wd_new ts url selector)"
  by (simp add: wd_room_def wd_new_def)

lemma items_length: "length (items ps) \<le> length ps"
  by (induction ps rule: items.induct) auto

lemma watch_state_of_no_panic:
  assumes "watch_state_of oc T RT msg (wd_new ts url selector) m0 log d m" and "length log < 2 ^ 64"
  shows "d \<noteq> None"
proof -
  from assms(1) obtain us where "length us = length (items log)" and
    d: "d = wd_inspects oc T msg (zip us (items log)) (wd_new ts url selector)"
    by (auto simp: watch_state_of_def)
  with items_length[of log] assms(2) have "length (zip us (items log)) < 2 ^ 64" by simp
  then show ?thesis unfolding d by (intro wd_inspects_room wd_room_new)
qed

lemma add_handle_runtime:
  assumes "semaphore S permits" and "unat (ini_issued (ru_initialized r)) < 2 ^ 32 - 1"
  obtains i where "add_handle oc S (ru_initialized r) = Some i" "unat (ini_issued i) = Suc (unat (ini_issued (ru_initialized r)))"
    "permits (ini_semaphore i) = permits (ini_semaphore (ru_initialized r))"
  using semaphore.add_handle_total[OF assms(1), of "ru_initialized r" oc] assms(2) by blast

lemma stream_new_drive:
  assumes "sleep_timer ready" and "semaphore S permits" and "traced L inner"
    and "\<And>now s. I s \<Longrightarrow> I (snd (inner now s))"
    and "\<And>s. I s \<Longrightarrow> length (L s) \<le> 2 * length nows \<Longrightarrow> \<not> panicked s"
    and "I s" and "L s = []" and "0 < delay"
  shows "\<exists>outs st' log. stream_drive ready S panicked inner sig nows (stream_new t0 delay rx sem s) = Some (outs, st') \<and>
    L (stream_state st') = log \<and> length log \<le> 2 * length nows \<and> I (stream_state st') \<and> items outs = oks log \<and>
    (ror_handle (fst (cos_inner st')) \<longleftrightarrow> items outs = [] \<and> \<not> stream_ended log) \<and>
    permits (snd (cos_inner st')) = permits sem + of_bool (\<not> ror_handle (fst (cos_inner st'))) \<and>
    (Ready None \<in> set outs \<longrightarrow> cos_shutdown st' = Finished \<or> stream_ended log)"
proof -
  let ?st = "stream_new t0 delay rx sem s"
  have st: "stream_state ?st = s" "las_delay (ror_inner (fst (cos_inner ?st))) = delay" "cos_shutdown ?st = Running rx"
    "ror_handle (fst (cos_inner ?st))" "snd (cos_inner ?st) = sem"
    by (simp_all add: stream_new_def cos_new_def release_on_ready_def las_fixed_delay_def)
  from stream_drive_effect[OF assms(1-3), where I = I and N = "2 * length nows" and panicked = panicked and
      st = ?st and sig = sig and nows = nows and f = rx] assms(4-) st(1-3)
  obtain outs st' new where "stream_drive ready S panicked inner sig nows ?st = Some (outs, st')"
    "L (stream_state st') = new" "length new \<le> 2 * length nows" "I (stream_state st')"
    and effect: "stream_effect permits new (items outs) (Ready None \<in> set outs) ?st st'"
    by auto
  moreover have "permits (snd (cos_inner st')) + of_bool (ror_handle (fst (cos_inner st'))) = permits sem + 1"
  proof -
    have "permits (snd (cos_inner st')) + of_bool (ror_handle (fst (cos_inner st'))) =
        permits (snd (cos_inner ?st)) + of_bool (ror_handle (fst (cos_inner ?st)))"
      using effect unfolding stream_effect_def by blast
    with st(4,5) show ?thesis by simp
  qed
  then have "permits (snd (cos_inner st')) = permits sem + of_bool (\<not> ror_handle (fst (cos_inner st')))"
    by (cases "ror_handle (fst (cos_inner st'))") simp_all
  moreover from effect have "items outs = oks new"
    "ror_handle (fst (cos_inner st')) \<longleftrightarrow> items outs = [] \<and> \<not> stream_ended new"
    "Ready None \<in> set outs \<longrightarrow> cos_shutdown st' = Finished \<or> stream_ended new"
    unfolding stream_effect_def using st(4) by (simp_all split: if_splits)
  ultimately show ?thesis by blast
qed

definition watch_panicked :: "('s \<times> watch_state option) \<times> watch_metrics option \<Rightarrow> bool" where
  "watch_panicked s \<longleftrightarrow> snd (fst s) = None"

lemma runtime_watch_run:
  fixes watcher :: "('w, ('x watcher_error + 'r event) option) poll_fn"
  assumes "sleep_timer ready" and "semaphore S permits" and "0 < ru_error_delay r"
    and "unat (ini_issued (ru_initialized r)) < 2 ^ 32 - 1" and "2 * length nows < 2 ^ 64"
  shows "\<exists>st r' h' outs st' log d.
    runtime_watch oc S t0 ts url selector ([], s) (r, h) = Some (st, r', h') \<and>
    unat (ini_issued (ru_initialized r')) = Suc (unat (ini_issued (ru_initialized r))) \<and>
    stream_drive ready S watch_panicked (watch_inner oc T RT msg clock (logged watcher)) sig nows st = Some (outs, st') \<and>
    stream_state st' = (((log, snd (fst (fst (stream_state st')))), Some d), snd (stream_state st')) \<and>
    items outs = oks log \<and>
    watch_state_of oc T RT msg (wd_new ts url selector) (ru_metrics r) log (Some d) (snd (stream_state st')) \<and>
    (ror_handle (fst (cos_inner st')) \<longleftrightarrow> items outs = [] \<and> \<not> stream_ended log) \<and>
    permits (snd (cos_inner st')) =
      permits (ini_semaphore (ru_initialized r)) + of_bool (\<not> ror_handle (fst (cos_inner st'))) \<and>
    (Ready None \<in> set outs \<longrightarrow> cos_shutdown st' = Finished \<or> stream_ended log)"
proof -
  let ?d0 = "wd_new ts url selector" and ?r = "fst (snd (watch_registered ts url selector (r, h)))"
  let ?I = "\<lambda>s. watch_state_of oc T RT msg ?d0 (ru_metrics r) (fst (fst (fst s))) (snd (fst s)) (snd s)"
  obtain i where i: "add_handle oc S (ru_initialized r) = Some i" "unat (ini_issued i) = Suc (unat (ini_issued (ru_initialized r)))"
    "permits (ini_semaphore i) = permits (ini_semaphore (ru_initialized r))"
    using add_handle_runtime[OF assms(2,4)] by blast
  let ?s0 = "([], s) :: ('x watcher_error + 'r event) option poll list \<times> 'w"
  let ?st = "stream_new t0 (ru_error_delay r) (ru_shutdown_rx r) (ini_semaphore i) ((?s0, Some ?d0), ru_metrics r)"
  obtain r' h' where w: "runtime_watch oc S t0 ts url selector ?s0 (r, h) = Some (?st, r', h')" "ru_initialized r' = i"
    using i(1) by (simp add: runtime_watch_def watch_registered_def register_watch_def)
  have step: "?I (snd (watch_inner oc T RT msg clock (logged watcher) now s))" if "?I s" for now s
    using watch_inner_step[OF that] by (simp add: Let_def)
  have ok: "\<not> watch_panicked s" if "?I s" "length (fst (fst (fst s))) \<le> 2 * length nows" for s
    using watch_state_of_no_panic[OF that(1)] that(2) assms(5) by (simp add: watch_panicked_def)
  have "\<exists>outs st' log.
    stream_drive ready S watch_panicked (watch_inner oc T RT msg clock (logged watcher)) sig nows ?st = Some (outs, st') \<and>
    fst (fst (fst (stream_state st'))) = log \<and> length log \<le> 2 * length nows \<and> ?I (stream_state st') \<and> items outs = oks log \<and>
    (ror_handle (fst (cos_inner st')) \<longleftrightarrow> items outs = [] \<and> \<not> stream_ended log) \<and>
    permits (snd (cos_inner st')) = permits (ini_semaphore i) + of_bool (\<not> ror_handle (fst (cos_inner st'))) \<and>
    (Ready None \<in> set outs \<longrightarrow> cos_shutdown st' = Finished \<or> stream_ended log)"
    by (rule stream_new_drive[where I = ?I, OF assms(1,2) watch_inner_traced step ok]) (use assms(3) watch_state_of_init in simp_all)
  then obtain outs st' log where run:
    "stream_drive ready S watch_panicked (watch_inner oc T RT msg clock (logged watcher)) sig nows ?st = Some (outs, st')"
    "fst (fst (fst (stream_state st'))) = log" "length log \<le> 2 * length nows" "?I (stream_state st')" "items outs = oks log"
    "ror_handle (fst (cos_inner st')) \<longleftrightarrow> items outs = [] \<and> \<not> stream_ended log"
    "permits (snd (cos_inner st')) = permits (ini_semaphore i) + of_bool (\<not> ror_handle (fst (cos_inner st')))"
    "Ready None \<in> set outs \<longrightarrow> cos_shutdown st' = Finished \<or> stream_ended log"
    by (elim exE conjE)
  obtain d where d: "snd (fst (stream_state st')) = Some d"
    using ok[OF run(4)] run(2,3) by (auto simp: watch_panicked_def)
  then have "stream_state st' = (((log, snd (fst (fst (stream_state st')))), Some d), snd (stream_state st'))"
    using run(2) by (metis prod.collapse)
  moreover have "watch_state_of oc T RT msg ?d0 (ru_metrics r) log (Some d) (snd (stream_state st'))"
    using run(2,4) d by simp
  moreover have "unat (ini_issued (ru_initialized r')) = Suc (unat (ini_issued (ru_initialized r)))"
    using w(2) i(2) by simp
  moreover have "permits (snd (cos_inner st')) =
      permits (ini_semaphore (ru_initialized r)) + of_bool (\<not> ror_handle (fst (cos_inner st')))"
    using run(7) i(3) by simp
  ultimately show ?thesis using w(1) run(1,5,6,8)
    by - (rule exI[of _ ?st], rule exI[of _ r'], rule exI[of _ h'], rule exI[of _ outs], rule exI[of _ st'],
        rule exI[of _ log], rule exI[of _ d], intro conjI)
qed

text \<open>
  C7. A watch of the runtime, end to end: making it issues one handle; then, over any sequence of polls
  (fewer than \<open>2\<^sup>6\<^sup>3\<close>), no poll panics or fails to return, and the stream yields exactly the events
  that the watcher yielded, in order and without the errors. The diagnostics have inspected and the
  metrics have counted every item, errors included. The handle is held until the first event or the
  end of the watch, and is then released once. The stream ends only on shutdown or with the watcher.
\<close>
theorem runtime_watch_stream:
  fixes watcher :: "('w, ('x watcher_error + 'r event) option) poll_fn"
  assumes "sleep_timer ready" and "semaphore S permits" and "0 < ru_error_delay r"
    and "unat (ini_issued (ru_initialized r)) < 2 ^ 32 - 1" and "2 * length nows < 2 ^ 64"
  shows "\<exists>st r' h' outs st' log d.
    runtime_watch oc S t0 ts url selector ([], s) (r, h) = Some (st, r', h') \<and>
    unat (ini_issued (ru_initialized r')) = Suc (unat (ini_issued (ru_initialized r))) \<and>
    stream_drive ready S watch_panicked (watch_inner oc T RT msg clock (logged watcher)) sig nows st = Some (outs, st') \<and>
    stream_state st' = (((log, snd (fst (fst (stream_state st')))), Some d), snd (stream_state st')) \<and>
    items outs = oks log \<and>
    watch_state_of oc T RT msg (wd_new ts url selector) (ru_metrics r) log (Some d) (snd (stream_state st')) \<and>
    (ror_handle (fst (cos_inner st')) \<longleftrightarrow> items outs = [] \<and> \<not> stream_ended log) \<and>
    permits (snd (cos_inner st')) =
      permits (ini_semaphore (ru_initialized r)) + of_bool (\<not> ror_handle (fst (cos_inner st'))) \<and>
    (Ready None \<in> set outs \<longrightarrow> cos_shutdown st' = Finished \<or> stream_ended log)"
  by (rule runtime_watch_run[OF assms])

definition demo_heap :: "nat dg_heap" where
  "demo_heap = \<lparr>hp_watches = Map.empty, hp_leases = Map.empty, hp_next = 0\<rparr>"

lemma demo_runtime_issued: "ini_issued (ru_initialized demo_runtime) = 0" "0 < ru_error_delay demo_runtime"
  by (simp_all add: demo_runtime_def initialized_default_def default_error_delay_def)

definition demo_pods :: "string watched_type" where
  "demo_pods = \<lparr>wt_kind = ''Pod'', wt_api_version = ''v1'', wt_meta = (\<lambda>name. \<lparr>om_namespace = Some ''default'', om_name = Some name,
     om_uid = Some name, om_resource_version = None, om_generation = None, om_creation = None\<rparr>)\<rparr>"

theorem runtime_watch_stream_witness:
  "\<exists>st r' h' outs st'.
    runtime_watch True counting_semaphore 0 0 ''/pods'' None
      ([], [Inl NoResourceVersion, Inr (Apply ''a''), Inr (Delete ''a'')]) (demo_runtime, demo_heap) = Some (st, r', h') \<and>
    unat (ini_issued (ru_initialized r')) = 1 \<and>
    stream_drive (\<lambda>now deadline. deadline \<le> now) counting_semaphore watch_panicked
      (watch_inner True demo_pods \<lparr>rt_kind = ''Pod'', rt_group = [], rt_version = ''v1''\<rparr> (\<lambda>_. ''error'') int
         (logged list_stream)) (\<lambda>now u. (Pending, u)) [0, 1, 2] st = Some (outs, st') \<and>
    items outs = oks (fst (fst (fst (stream_state st'))))"
proof -
  have log: "x = (((log, b), c), d) \<Longrightarrow> log = fst (fst (fst x))" for x log b c d by simp
  have "2 * length [0, 1, 2 :: nat] < 2 ^ 64" "unat (ini_issued (ru_initialized demo_runtime)) < 2 ^ 32 - 1"
    by (simp_all add: demo_runtime_issued)
  note run = runtime_watch_stream[OF exact_timer.sleep_timer_axioms counting.semaphore_axioms demo_runtime_issued(2) this(2,1),
      where oc = True and ?t0.0 = 0 and ts = 0 and url = "''/pods''" and selector = None and
      s = "[Inl NoResourceVersion, Inr (Apply ''a''), Inr (Delete ''a'')]" and h = demo_heap and T = demo_pods and
      RT = "\<lparr>rt_kind = ''Pod'', rt_group = [], rt_version = ''v1''\<rparr>" and msg = "\<lambda>_. ''error''" and clock = int and
      watcher = list_stream and sig = "\<lambda>now u. (Pending, u)"]
  show ?thesis
    by (insert run, elim exE conjE, drule log, rule exI, rule exI, rule exI, rule exI, rule exI, intro conjI, assumption)
      (simp_all add: demo_runtime_issued)
qed

lemma cache_inner_traced:
  "traced (\<lambda>s. fst (fst (fst (fst s)))) (reflector apply_event (watch_inner oc T RT msg clock (logged watcher)))"
  by (intro reflector_traced watch_inner_traced)

lemma reflector_step:
  assumes "traced L inner" and "snd s = fold apply_event (oks (L (fst s))) store"
  shows "let s' = snd (reflector apply_event inner now s) in
    fst s' = snd (inner now (fst s)) \<and> snd s' = fold apply_event (oks (L (fst s'))) store"
proof -
  obtain p t where "inner now (fst s) = (p, t)" by fastforce
  with tracedD[OF assms(1) this] assms(2) show ?thesis
    by (auto simp: reflector_def split: poll.splits option.splits sum.splits)
qed

definition cache_panicked :: "(('s \<times> watch_state option) \<times> watch_metrics option) \<times> 'st \<Rightarrow> bool" where
  "cache_panicked s \<longleftrightarrow> watch_panicked (fst s)"



lemma spawn_lease_cases:
  assumes "spawn_lease oc C A secs ts params w (r, h) = Some (Some (res, r', h'))"
  shows "dg_leases (ad_diagnostics (ru_admin r')) = dg_leases (ad_diagnostics (ru_admin r)) @ [hp_next h] \<and>
    hp_leases h' = (hp_leases h)(hp_next h := (case res of Inl _ \<Rightarrow> None | Inr task \<Rightarrow> lm_diagnostics (lt_manager task)))"
  using assms
  by (auto simp: spawn_lease_def register_lease_def drop_lease_def Let_def
      split: prod.splits option.splits sum.splits)

lemma spawn_lease_keeps:
  fixes secs :: "duration \<Rightarrow> 'fl" and m :: "'fl lease_manager"
  assumes "lm_init C (A (lp_namespace params)) (lp_name params) w = (Some (Inr m), w1)"
    and "lm_decide C (A (lp_namespace params)) (lp_claimant params)
      \<lparr>cp_lease_duration = lp_lease_duration params, cp_renew_grace_period = lp_renew_grace_period params\<rparr>
      (lm_claimed m) w1 = (Some (Keep claim), w2)"
  shows "\<exists>task r' h'. spawn_lease oc C A secs ts params w (r, h) = Some (Some (Inr task, r', h')) \<and>
    lt_published task = claim \<and> lm_diagnostics (lt_manager task) = Some (ld_new secs ts params)"
  using assms
  by (auto simp: spawn_lease_def register_lease_def Let_def lm_spawn_def ensure_claimed.simps ensure_claimed_once_def
      with_diagnostics_def with_field_manager_def lm_claimed_def split: option.splits)

lemma map_filter_upd: "a \<notin> set as \<Longrightarrow> List.map_filter (f(a := v)) as = List.map_filter f as"
  by (induction as) (auto simp: List.map_filter_simps split: option.splits)

lemma map_filter_retain: "List.map_filter f (retain_live f as) = List.map_filter f as"
  by (induction as) (auto simp: List.map_filter_simps retain_live_def split: option.splits)

lemma map_filter_append: "List.map_filter f (as @ bs) = List.map_filter f as @ List.map_filter f bs"
  by (simp add: List.map_filter_def)

text \<open>
  C33. If \<open>spawn_lease\<close> fails, the diagnostics report the leases they reported before; if it succeeds,
  they report the new lease after them, in the state that its manager has. But a claim that is found when
  the lease is first read, and kept, is not passed to the diagnostics: the task publishes it while the
  report still shows no claim at all.
\<close>
theorem spawn_lease_reported:
  fixes secs :: "duration \<Rightarrow> 'fl"
  assumes "spawn_lease oc C A secs ts params w (r, h) = Some (Some (res, r', h'))"
    and "\<forall>a \<in> set (dg_leases (ad_diagnostics (ru_admin r))). a < hp_next h"
  shows "fst (summarize_leases h' (ad_diagnostics (ru_admin r'))) =
      fst (summarize_leases h (ad_diagnostics (ru_admin r))) @
      (case res of Inl _ \<Rightarrow> [] | Inr task \<Rightarrow> (case lm_diagnostics (lt_manager task) of None \<Rightarrow> [] | Some d \<Rightarrow> [d])) \<and>
    (\<forall>(m :: 'fl lease_manager) claim w1 w2.
      lm_init C (A (lp_namespace params)) (lp_name params) w = (Some (Inr m), w1) \<and>
      lm_decide C (A (lp_namespace params)) (lp_claimant params)
        \<lparr>cp_lease_duration = lp_lease_duration params, cp_renew_grace_period = lp_renew_grace_period params\<rparr>
        (lm_claimed m) w1 = (Some (Keep claim), w2) \<longrightarrow>
      (\<exists>task. res = Inr task \<and> lt_published task = claim \<and>
         fst (summarize_leases h' (ad_diagnostics (ru_admin r'))) =
           fst (summarize_leases h (ad_diagnostics (ru_admin r))) @ [ld_new secs ts params]))"
proof -
  let ?refs = "dg_leases (ad_diagnostics (ru_admin r))"
  have "hp_next h \<notin> set ?refs" using assms(2) by blast
  with spawn_lease_cases[OF assms(1)]
  have summary: "fst (summarize_leases h' (ad_diagnostics (ru_admin r'))) =
      fst (summarize_leases h (ad_diagnostics (ru_admin r))) @
      (case res of Inl _ \<Rightarrow> [] | Inr task \<Rightarrow> (case lm_diagnostics (lt_manager task) of None \<Rightarrow> [] | Some d \<Rightarrow> [d]))"
    by (simp add: summarize_leases_def Let_def map_filter_retain map_filter_upd map_filter_append List.map_filter_simps
        split: sum.splits option.splits)
  show ?thesis
  proof (intro conjI allI impI, rule summary, elim conjE)
    fix m :: "'fl lease_manager" and claim w1 w2
    assume "lm_init C (A (lp_namespace params)) (lp_name params) w = (Some (Inr m), w1)"
      "lm_decide C (A (lp_namespace params)) (lp_claimant params)
        \<lparr>cp_lease_duration = lp_lease_duration params, cp_renew_grace_period = lp_renew_grace_period params\<rparr>
        (lm_claimed m) w1 = (Some (Keep claim), w2)"
    from spawn_lease_keeps[where A = A and params = params, OF this, of oc secs ts r h] assms(1) obtain task where
      "res = Inr task" "lt_published task = claim" "lm_diagnostics (lt_manager task) = Some (ld_new secs ts params)"
      by auto
    then show "\<exists>task. res = Inr task \<and> lt_published task = claim \<and>
         fst (summarize_leases h' (ad_diagnostics (ru_admin r'))) =
           fst (summarize_leases h (ad_diagnostics (ru_admin r))) @ [ld_new secs ts params]"
      using summary by simp
  qed
qed

definition demo_lease_params :: lease_params where
  "demo_lease_params = \<lparr>lp_name = ''lease'', lp_namespace = ''default'', lp_claimant = ''alice'',
     lp_lease_duration = 30000000000, lp_renew_grace_period = 1000000000, lp_field_manager = None\<rparr>"

definition bob_lease :: lease_spec where
  "bob_lease = \<lparr>sp_holder_identity = Some ''bob'', sp_acquire_time = Some 50, sp_renew_time = Some 50,
     sp_lease_duration_seconds = Some 30, sp_lease_transitions = Some 1\<rparr>"

theorem spawn_lease_reported_witness:
  "\<exists>task r' h'. spawn_lease True ideal_chrono (\<lambda>_. direct_api demo_server) id 100 demo_lease_params (100, (0, bob_lease))
      (demo_runtime, demo_heap) = Some (Some (Inr task, r', h')) \<and>
    lt_published task = \<lparr>claim_holder = ''bob'', claim_expiry = 50 + 30 * nanos\<rparr> \<and>
    map ld_current (fst (summarize_leases h' (ad_diagnostics (ru_admin r')))) = [None]"
proof -
  let ?A = "direct_api demo_server" and ?w = "(100, (0, bob_lease))"
  let ?m = "\<lparr>lm_name = ''lease'', lm_field_manager = default_field_manager,
      lm_state = \<lparr>ls_meta = \<lparr>meta_version = '''', meta_transitions = 1\<rparr>,
        ls_claim = Some \<lparr>claim_holder = ''bob'', claim_expiry = 50 + 30 * nanos\<rparr>\<rparr>, lm_diagnostics = None\<rparr> :: nat lease_manager"
  have init: "lm_init ideal_chrono ?A (lp_name demo_lease_params) ?w = (Some (Inr ?m), ?w)"
    "lm_decide ideal_chrono ?A (lp_claimant demo_lease_params)
       \<lparr>cp_lease_duration = lp_lease_duration demo_lease_params, cp_renew_grace_period = lp_renew_grace_period demo_lease_params\<rparr>
       (lm_claimed ?m) ?w = (Some (Keep \<lparr>claim_holder = ''bob'', claim_expiry = 50 + 30 * nanos\<rparr>), ?w)"
    by (simp_all add: lm_init_def lm_get_def parse_lease_def demo_lease_params_def bob_lease_def lease_run_simps
        u16_or_zero_def drop_expired_def claim_decision_def is_current_def)
  from spawn_lease_keeps[of ideal_chrono "\<lambda>_. ?A" demo_lease_params, OF init, of True id 100 demo_runtime demo_heap]
  obtain task r' h' where run: "spawn_lease True ideal_chrono (\<lambda>_. ?A) id 100 demo_lease_params ?w
      (demo_runtime, demo_heap) = Some (Some (Inr task, r', h'))" by blast
  have "\<forall>a \<in> set (dg_leases (ad_diagnostics (ru_admin demo_runtime))). a < hp_next demo_heap"
    by (simp add: demo_runtime_def dg_new_def)
  note * = conjunct2[OF spawn_lease_reported[OF run this], rule_format, OF conjI[OF init]]
  moreover have "fst (summarize_leases demo_heap (ad_diagnostics (ru_admin demo_runtime))) = []"
    by (simp add: demo_runtime_def dg_new_def summarize_leases_def Let_def retain_live_def List.map_filter_simps)
  ultimately have "lt_published task = \<lparr>claim_holder = ''bob'', claim_expiry = 50 + 30 * nanos\<rparr>"
    "map ld_current (fst (summarize_leases h' (ad_diagnostics (ru_admin r')))) = [None]"
    by (auto simp: ld_new_def)
  with run show ?thesis
    by (intro exI[of _ task] exI[of _ r'] exI[of _ h'] conjI)
qed

subsection \<open>The variants on the default client are reported\<close>

lemma watch_registered_reported:
  assumes "watch_registered ts url selector (r, h) = (d, r', h')"
    and "\<forall>a \<in> set (dg_watches (ad_diagnostics (ru_admin r))). a < hp_next h"
  shows "fst (summarize_watches vals sha full h' (ad_diagnostics (ru_admin r'))) =
    fst (summarize_watches vals sha full h (ad_diagnostics (ru_admin r))) @ [wd_summary vals sha full (wd_new ts url selector)]"
proof -
  have "hp_next h \<notin> set (dg_watches (ad_diagnostics (ru_admin r)))" using assms(2) by blast
  then show ?thesis
    using assms(1) by (auto simp: watch_registered_def register_watch_def summarize_watches_def Let_def
        map_filter_retain map_filter_upd map_filter_append List.map_filter_simps)
qed

text \<open>
  A watch of one namespace and a cache of the whole cluster show up in the diagnostics after the watches
  before them, under the URL of their own API and not under each other's.
\<close>

lemma watch_variants_reported:
  assumes "\<forall>a \<in> set (dg_watches (ad_diagnostics (ru_admin r))). a < hp_next h"
  shows "watch_namespaced K oc S t ts ns selector (r, h) = Some (st, r', h') \<Longrightarrow>
      fst (summarize_watches vals sha full h' (ad_diagnostics (ru_admin r'))) =
      fst (summarize_watches vals sha full h (ad_diagnostics (ru_admin r))) @
      [wd_summary vals sha full (wd_new ts (fst (api_namespaced K (ru_client r) ns)) selector)]"
    and "cache_all K oc S t ts selector store (r, h) = Some (ct, r', h') \<Longrightarrow>
      fst (summarize_watches vals sha full h' (ad_diagnostics (ru_admin r'))) =
      fst (summarize_watches vals sha full h (ad_diagnostics (ru_admin r))) @
      [wd_summary vals sha full (wd_new ts (fst (api_all K (ru_client r))) selector)]"
  using watch_registered_reported[OF _ assms]
  by (auto simp: watch_namespaced_def cache_all_def runtime_watch_def runtime_cache_def split: prod.splits bind_splits)

end
