(* ===== verification/Example_Lease_Run.thy ===== *)
theory Example_Lease_Run
  imports Example_Lease Runtime_System Runtime_Watch
begin

text \<open>
  \<open>examples/lease.rs\<close>, the command \<open>run\<close> as a process: the loop that follows the claims, the
  spawned task that keeps the lease (\<open>Lease\<close>), and the tasks of the runtime (\<open>Runtime_Run\<close>), in
  any interleaving with signals, the passage of time and other processes. The main task selects between the end of the
  runtime and the end of the loop; when it ends, the process exits and nothing else takes a step.
\<close>

subsection \<open>The process\<close>

text \<open>
  The loop looks at the claim, waits in its \<open>select!\<close>, or awaits the task after the sender of the
  claims is gone. \<open>pc_unseen\<close> tells whether the watch channel has a claim that the loop
  has not looked at.
\<close>

datatype run_loop = Observing | Selecting | Joining | Returned

record ('f, 'w, 'm, 'd) lease_process =
  pc_task :: "('f, 'w) lease_task"
  pc_runtime :: "('m, 'd) run_state"
  pc_loop :: run_loop
  pc_unseen :: bool
  pc_metrics :: claim_metrics
  pc_out :: "string list"
  pc_exit :: "process_exit option"

abbreviation pc_tx :: "('f, 'w, 'm, 'd) lease_process \<Rightarrow> 'd" where
  "pc_tx p \<equiv> sh_tx (rn_shutdown (pc_runtime p))"

text \<open>The loop holds a watch of its own (\<open>shutdown_handle\<close>) besides the one of the readiness task.\<close>

definition process_start ::
  "('d \<Rightarrow> 'd) \<Rightarrow> ('addr, 'l, 'client, 'm, 'rx, 'd, unit) runtime \<Rightarrow> ('f, 'w) lease_task \<Rightarrow> ('f, 'w, 'm, 'd) lease_process" where
  "process_start clone r task =
     (let g = run_start r 0
      in \<lparr>pc_task = task, pc_runtime = set_tx (clone (sh_tx (rn_shutdown g))) g, pc_loop = Observing, pc_unseen = False,
          pc_metrics = claim_metrics_new, pc_out = [], pc_exit = None\<rparr>)"

text \<open>A step of the task sends a claim exactly when a retry has succeeded and the task waits again.\<close>

definition task_sent :: "('f, 'w) lease_task \<Rightarrow> ('f, 'w) lease_task \<Rightarrow> bool" where
  "task_sent s t \<longleftrightarrow>
     (case (lt_phase s, lt_phase t) of (TClaiming _, TWaiting _) \<Rightarrow> True | _ \<Rightarrow> False)"

text \<open>
  The loop returns: its receiver and its watch are dropped, and the main task, which polls it, ends with
  its result, or panics with it (\<open>None\<close>).
\<close>

definition loop_return ::
  "('d \<Rightarrow> 'd) \<Rightarrow> (lease_error + int) option \<Rightarrow> ('f, 'w, 'm, 'd) lease_process \<Rightarrow> ('f, 'w, 'm, 'd) lease_process" where
  "loop_return release res p = p\<lparr>pc_loop := Returned, pc_task := (pc_task p)\<lparr>lt_closed := True\<rparr>,
     pc_runtime := set_tx (release (pc_tx p)) (pc_runtime p),
     pc_exit := Some (case res of Some res \<Rightarrow> example_run (CommandEnded res) | None \<Rightarrow> ExitPanic)\<rparr>"

text \<open>The result of \<open>task.await.expect("task")?\<close> once the task is over.\<close>

fun join_result :: "task_phase \<Rightarrow> (lease_error + int) option option" where
  "join_result (TDone (Inl e)) = Some (Some (Inl e))"
| "join_result (TDone (Inr _)) = Some (Some (Inr 0))"
| "join_result TPanicked = Some None"
| "join_result _ = None"

text \<open>
  The steps. The \<open>select!\<close> is biased: the signal wins over a new claim, and a new claim over the end of the
  channel.
\<close>

inductive process_step ::
  "(timestamp \<Rightarrow> string) \<Rightarrow> bool \<Rightarrow> bool \<Rightarrow> chrono \<Rightarrow> 'w lease_api \<Rightarrow> 'm sem_api \<Rightarrow> 'd drain_api \<Rightarrow> ('d \<Rightarrow> 'd) \<Rightarrow> string \<Rightarrow> claim_params \<Rightarrow>
   ('f, 'w, 'm, 'd) lease_process \<Rightarrow> ('f, 'w, 'm, 'd) lease_process \<Rightarrow> bool"
  for rfc3339 oc dbg C A S D release identity params where
  lease_task: "pc_exit p = None \<Longrightarrow> lease_task_step oc dbg C A identity params (pc_task p) t \<Longrightarrow>
    process_step rfc3339 oc dbg C A S D release identity params p
      (p\<lparr>pc_task := t, pc_unseen := pc_unseen p \<or> task_sent (pc_task p) t\<rparr>)"
| runtime: "pc_exit p = None \<Longrightarrow> run_task S D release (pc_runtime p) g \<Longrightarrow>
    process_step rfc3339 oc dbg C A S D release identity params p (p\<lparr>pc_runtime := g\<rparr>)"
| observe: "pc_exit p = None \<Longrightarrow> pc_loop p = Observing \<Longrightarrow>
    utc_now A (lt_world (pc_task p)) = (t1, w1) \<Longrightarrow> utc_now A w1 = (t2, w2) \<Longrightarrow>
    process_step rfc3339 oc dbg C A S D release identity params p
      (p\<lparr>pc_loop := Selecting, pc_unseen := False, pc_task := (pc_task p)\<lparr>lt_world := w2\<rparr>,
         pc_out := pc_out p @ [print_claim rfc3339 t1 (lt_published (pc_task p)) identity],
         pc_metrics := run_observe identity (lt_published (pc_task p), t2) (pc_metrics p)\<rparr>)"
| signaled: "pc_exit p = None \<Longrightarrow> pc_loop p = Selecting \<Longrightarrow> dr_signaled D (pc_tx p) \<Longrightarrow>
    process_step rfc3339 oc dbg C A S D release identity params p (loop_return release (Some (Inr 0)) p)"
| changed: "pc_exit p = None \<Longrightarrow> pc_loop p = Selecting \<Longrightarrow> \<not> dr_signaled D (pc_tx p) \<Longrightarrow> pc_unseen p \<Longrightarrow>
    process_step rfc3339 oc dbg C A S D release identity params p (p\<lparr>pc_loop := Observing\<rparr>)"
| sender_gone: "pc_exit p = None \<Longrightarrow> pc_loop p = Selecting \<Longrightarrow> \<not> dr_signaled D (pc_tx p) \<Longrightarrow> \<not> pc_unseen p \<Longrightarrow>
    join_result (lt_phase (pc_task p)) \<noteq> None \<Longrightarrow>
    process_step rfc3339 oc dbg C A S D release identity params p (p\<lparr>pc_loop := Joining\<rparr>)"
| joined: "pc_exit p = None \<Longrightarrow> pc_loop p = Joining \<Longrightarrow> join_result (lt_phase (pc_task p)) = Some res \<Longrightarrow>
    process_step rfc3339 oc dbg C A S D release identity params p (loop_return release res p)"
| runtime_ended: "pc_exit p = None \<Longrightarrow> sh_phase (rn_shutdown (pc_runtime p)) = Completed res \<Longrightarrow>
    process_step rfc3339 oc dbg C A S D release identity params p (p\<lparr>pc_exit := Some (example_run (RuntimeEnded res))\<rparr>)"

text \<open>Signals arrive, time passes, and other processes use the lease.\<close>

inductive process_env ::
  "'m sem_api \<Rightarrow> 'd drain_api \<Rightarrow> ('d \<Rightarrow> nat) \<Rightarrow> ('f, 'w, 'm, 'd) lease_process \<Rightarrow> ('f, 'w, 'm, 'd) lease_process \<Rightarrow> bool"
  for S D alive where
  outside: "run_env S D alive (pc_runtime p) g \<Longrightarrow> sh_tx (rn_shutdown g) = pc_tx p \<Longrightarrow>
    process_env S D alive p (p\<lparr>pc_runtime := g\<rparr>)"
| world: "process_env S D alive p (p\<lparr>pc_task := (pc_task p)\<lparr>lt_world := w\<rparr>\<rparr>)"

definition process_run where
  "process_run rfc3339 oc dbg C A S D release alive identity params p q \<longleftrightarrow>
     process_step rfc3339 oc dbg C A S D release identity params p q \<or> process_env S D alive p q"

subsection \<open>What the process keeps\<close>

definition exit_explained :: "'d drain_api \<Rightarrow> ('f, 'w, 'm, 'd) lease_process \<Rightarrow> bool" where
  "exit_explained D p \<longleftrightarrow>
     (case pc_exit p of
        None \<Rightarrow> True
      | Some (ExitCode c) \<Rightarrow> c = 0 \<and> dr_signaled D (pc_tx p)
      | Some (ExitError e) \<Rightarrow> lt_phase (pc_task p) = TDone (Inl e)
      | Some ExitAborted \<Rightarrow> sh_phase (rn_shutdown (pc_runtime p)) = Completed (Inl Aborted)
      | Some ExitPanic \<Rightarrow> lt_phase (pc_task p) = TPanicked)"

definition process_inv ::
  "('m \<Rightarrow> nat) \<Rightarrow> 'd drain_api \<Rightarrow> ('d \<Rightarrow> nat) \<Rightarrow> string \<Rightarrow> ('f, 'w, 'm, 'd) lease_process \<Rightarrow> bool" where
  "process_inv permits D alive identity p \<longleftrightarrow>
     task_inv identity (pc_task p) \<and> run_inv permits D alive (pc_runtime p) \<and> exit_explained D p \<and>
     cm_claim_state (pc_metrics p) = of_bool (cm_claimed (pc_metrics p)) \<and>
     (pc_loop p = Joining \<longrightarrow> join_result (lt_phase (pc_task p)) \<noteq> None) \<and>
     (pc_exit p = None \<longrightarrow> pc_loop p \<noteq> Returned \<and> \<not> lt_closed (pc_task p) \<and>
        alive (pc_tx p) = Suc (of_bool (holds_watch (rn_task (pc_runtime p)))))"

lemma final_task_stays: "lease_task_step oc dbg C A claimant params s t \<Longrightarrow> join_result (lt_phase s) = None"
  by (auto elim!: lease_task_step.cases)

lemma task_step_closed: "lease_task_step oc dbg C A claimant params s t \<Longrightarrow> lt_closed t = lt_closed s"
  by (induction rule: lease_task_step.induct) auto

lemma task_inv_world [simp]: "task_inv claimant (s\<lparr>lt_world := w\<rparr>) = task_inv claimant s"
  by (auto simp: task_inv_def split: task_phase.splits sum.splits)

lemma task_inv_closed: "task_inv claimant s \<Longrightarrow> task_inv claimant (s\<lparr>lt_closed := True\<rparr>)"
  using task_env_inv[OF lease_task_env.drop_receivers] by blast

lemma join_explained:
  assumes "join_result ph = Some res" and "ph = TDone (Inr ()) \<Longrightarrow> False"
  shows "(\<exists>e. res = Some (Inl e) \<and> ph = TDone (Inl e)) \<or> res = None \<and> ph = TPanicked"
  using assms by (cases ph rule: join_result.cases) auto

context shared_drain
begin

lemma process_step_inv:
  assumes "process_step rfc3339 oc dbg C A S D release identity params p q" and "process_inv permits D alive identity p"
  shows "process_inv permits D alive identity q"
  using assms
proof (induction rule: process_step.induct)
  case (lease_task p t)
  have "join_result (lt_phase (pc_task p)) = None" using final_task_stays[OF lease_task(2)] .
  then show ?case using lease_task task_step_inv[OF lease_task(2)] task_step_closed[OF lease_task(2)]
    by (auto simp: process_inv_def exit_explained_def)
next
  case (runtime p g)
  have "run_inv permits D alive g"
    using run_step_inv[of "pc_runtime p" g] runtime(2,3) by (simp add: run_step_def process_inv_def)
  moreover have "alive (sh_tx (rn_shutdown g)) + of_bool (holds_watch (rn_task (pc_runtime p))) =
      alive (pc_tx p) + of_bool (holds_watch (rn_task g))"
    using run_task_watches(1)[OF runtime(2)] runtime(3) by (simp add: process_inv_def run_inv_def)
  ultimately show ?case using runtime by (auto simp: process_inv_def exit_explained_def)
next
  case (observe p t1 w1 t2 w2)
  then show ?case by (auto simp: process_inv_def exit_explained_def run_observe_state)
next
  case (signaled p)
  then show ?case
    by (auto simp: process_inv_def exit_explained_def loop_return_def example_run_def task_inv_closed set_tx_def run_inv_def
        shutdown_inv_def signaled_release alive_release)
next
  case (changed p)
  then show ?case by (auto simp: process_inv_def exit_explained_def)
next
  case (sender_gone p)
  then show ?case by (auto simp: process_inv_def exit_explained_def)
next
  case (joined p res)
  have "\<not> lt_closed (pc_task p)" "task_inv identity (pc_task p)" using joined(1,4) by (simp_all add: process_inv_def)
  then have "lt_phase (pc_task p) = TDone (Inr ()) \<Longrightarrow> False" by (simp add: task_inv_def)
  from join_explained[OF joined(3) this] joined show ?case
    by (auto simp: process_inv_def exit_explained_def loop_return_def example_run_def task_inv_closed set_tx_def run_inv_def
        shutdown_inv_def signaled_release alive_release)
next
  case (runtime_ended p res)
  have "res \<noteq> Inr ()" using runtime_ended by (auto simp: process_inv_def run_inv_def)
  then have "res = Inl Aborted" by (cases res) (auto intro: aborted.exhaust)
  with runtime_ended show ?case by (auto simp: process_inv_def exit_explained_def example_run_def)
qed

lemma process_env_inv:
  assumes "process_env S D alive p q" and "process_inv permits D alive identity p"
  shows "process_inv permits D alive identity q"
  using assms
proof (induction rule: process_env.induct)
  case (outside p g)
  have inv: "run_inv permits D alive g"
    using env_step_inv[OF outside(1)] outside(3) by (simp add: process_inv_def)
  have "rn_task g = rn_task (pc_runtime p) \<and> sh_phase (rn_shutdown g) = sh_phase (rn_shutdown (pc_runtime p))"
    using outside(1) by (auto elim: run_env.cases)
  with inv outside(2,3) show ?case
    by (auto simp: process_inv_def exit_explained_def split: option.splits process_exit.splits)
qed (auto simp: process_inv_def exit_explained_def split: option.splits process_exit.splits)

lemma process_reachable_inv:
  assumes "(process_run rfc3339 oc dbg C A S D release alive identity params)\<^sup>*\<^sup>* p q" and "process_inv permits D alive identity p"
  shows "process_inv permits D alive identity q"
  using assms by (induction rule: rtranclp_induct) (auto simp: process_run_def intro: process_step_inv process_env_inv)

lemma process_start_inv:
  assumes "(init_step True S)\<^sup>*\<^sup>* (init_system S) \<lparr>sys_init = ru_initialized r, sys_live = 0\<rparr>"
    and "ru_shutdown r = shutdown_new tx" and "\<not> dr_signaled D tx" and "alive tx = 1" and "\<not> ad_ready (ru_admin r)"
    and "lm_spawn oc C A identity params m w = Some (Some (Inr task))"
  shows "process_inv permits D alive identity (process_start clone r task)"
proof -
  have "run_inv permits D alive (run_start r 0)"
    using run_inv_start[OF reachable_inv[OF assms(1)] assms(2,3) _ assms(5)] assms(4) by simp
  moreover have "task_inv identity task" using task_reachable_inv[OF rtranclp.rtrancl_refl assms(6)] .
  moreover have "\<not> lt_closed task" using assms(6) by (auto simp: lm_spawn_def split: option.splits prod.splits sum.splits)
  ultimately show ?thesis using assms(2-4)
    by (auto simp: process_inv_def process_start_def exit_explained_def claim_metrics_new_def set_tx_def run_start_def
        run_inv_def shutdown_inv_def shutdown_new_def alive_clone signaled_clone holds_watch_def)
qed

lemma signaled_process_exits:
  fixes p :: "('f, 'w, 'm, 'd) lease_process"
  assumes "process_inv permits D alive identity p" and "pc_exit p = None" and "dr_signaled D (pc_tx p)"
  shows "\<exists>q. (process_step rfc3339 oc dbg C A S D release identity params)\<^sup>*\<^sup>* p q \<and> pc_exit q \<noteq> None"
proof -
  let ?step = "process_step rfc3339 oc dbg C A S D release identity params"
  have select: "?step\<^sup>*\<^sup>* q (loop_return release (Some (Inr 0)) q)"
    if "pc_exit q = None" "pc_loop q = Selecting" "dr_signaled D (pc_tx q)" for q :: "('f, 'w, 'm, 'd) lease_process"
    using process_step.signaled[where D = D, OF that] by blast
  have exit: "pc_exit (loop_return release res q) \<noteq> None" for res and q :: "('f, 'w, 'm, 'd) lease_process"
    by (simp add: loop_return_def)
  show ?thesis
  proof (cases "pc_loop p")
    case Observing
    obtain t1 w1 t2 w2 where "utc_now A (lt_world (pc_task p)) = (t1, w1)" "utc_now A w1 = (t2, w2)" by fastforce
    note step = process_step.observe[OF assms(2) Observing this, of rfc3339 oc dbg C S D release identity params]
    show ?thesis
      using converse_rtranclp_into_rtranclp[of ?step, OF step select] exit assms(2,3) by auto
  next
    case Selecting
    then show ?thesis using select[OF assms(2) _ assms(3)] exit by blast
  next
    case Joining
    then obtain res where "join_result (lt_phase (pc_task p)) = Some res" using assms(1) by (auto simp: process_inv_def)
    from process_step.joined[OF assms(2) Joining this] exit show ?thesis by blast
  qed (use assms in \<open>simp add: process_inv_def\<close>)
qed

lemma pending_process_exits:
  fixes p :: "('f, 'w, 'm, 'd) lease_process"
  assumes "process_inv permits D alive identity p" and "pc_exit p = None"
    and "sh_phase (rn_shutdown (pc_runtime p)) \<noteq> Watching \<or> sh_interrupt (rn_shutdown (pc_runtime p)) \<or>
      sh_terminate (rn_shutdown (pc_runtime p))"
  shows "\<exists>q. (process_step rfc3339 oc dbg C A S D release identity params)\<^sup>*\<^sup>* p q \<and> pc_exit q \<noteq> None"
proof -
  let ?step = "process_step rfc3339 oc dbg C A S D release identity params"
  let ?s = "rn_shutdown (pc_runtime p)"
  have run: "run_inv permits D alive (pc_runtime p)" using assms(1) by (simp add: process_inv_def)
  show ?thesis
  proof (cases "sh_phase ?s")
    case Watching
    then obtain s where s: "signaled D ?s s" "dr_signaled D (sh_tx s)"
      using assms(3) signaled.interrupt[of ?s D] signaled.terminate[of ?s D] by (auto simp: signaled_signal)
    note step = process_step.runtime[OF assms(2) run_task.main[OF s(1)], of rfc3339 oc dbg C A S release identity params]
    from signaled_process_exits[OF process_step_inv[OF step assms(1)], where ?rfc3339.0 = rfc3339 and oc = oc and dbg = dbg and C = C
        and A = A and params = params] s(2) assms(2)
    obtain q where "?step\<^sup>*\<^sup>* (p\<lparr>pc_runtime := pc_runtime p\<lparr>rn_shutdown := s\<rparr>\<rparr>) q" "pc_exit q \<noteq> None" by auto
    then show ?thesis using converse_rtranclp_into_rtranclp[of ?step, OF step] by blast
  next
    case Draining
    then show ?thesis using signaled_process_exits[OF assms(1,2)] run by (simp add: run_inv_def shutdown_inv_def)
  next
    case (Completed res)
    from process_step.runtime_ended[OF assms(2) this] show ?thesis
      by (intro exI[of _ "p\<lparr>pc_exit := Some (example_run (RuntimeEnded res))\<rparr>"]) auto
  qed
qed

end

subsection \<open>Properties\<close>

text \<open>
  How the process ends, over every interleaving of its loop, the lease task, the runtime, signals and other
  processes.
\<close>

lemma lease_run_ends:
  fixes q :: "('f, 'w, 'm, 'd) lease_process"
  assumes "shared_drain S permits D alive release clone"
    and "(init_step True S)\<^sup>*\<^sup>* (init_system S) \<lparr>sys_init = ru_initialized r, sys_live = 0\<rparr>"
    and "ru_shutdown r = shutdown_new tx" and "\<not> dr_signaled D tx" and "alive tx = 1" and "\<not> ad_ready (ru_admin r)"
    and "lm_spawn oc C A identity params m w = Some (Some (Inr task))"
    and "(process_run rfc3339 oc dbg C A S D release alive identity params)\<^sup>*\<^sup>* (process_start clone r task) q"
  shows "(\<forall>c. pc_exit q = Some (ExitCode c) \<longrightarrow> c = 0 \<and> 1 \<le> sh_delivered (rn_shutdown (pc_runtime q))) \<and>
    (pc_exit q = Some ExitAborted \<longrightarrow> 2 \<le> sh_delivered (rn_shutdown (pc_runtime q))) \<and>
    (\<forall>e. pc_exit q = Some (ExitError e) \<longrightarrow> lt_phase (pc_task q) = TDone (Inl e)) \<and>
    (pc_exit q = Some ExitPanic \<longrightarrow> lt_phase (pc_task q) = TPanicked) \<and>
    cm_claim_state (pc_metrics q) = of_bool (cm_claimed (pc_metrics q)) \<and>
    (sh_phase (rn_shutdown (pc_runtime q)) \<noteq> Watching \<or> sh_interrupt (rn_shutdown (pc_runtime q)) \<or>
       sh_terminate (rn_shutdown (pc_runtime q)) \<longrightarrow>
     (\<exists>q'. (process_step rfc3339 oc dbg C A S D release identity params)\<^sup>*\<^sup>* q q' \<and> pc_exit q' \<noteq> None))"
proof -
  have inv: "process_inv permits D alive identity q"
    using shared_drain.process_reachable_inv[OF assms(1,8) shared_drain.process_start_inv[OF assms(1-7)]] .
  have "\<exists>q'. (process_step rfc3339 oc dbg C A S D release identity params)\<^sup>*\<^sup>* q q' \<and> pc_exit q' \<noteq> None"
    if "sh_phase (rn_shutdown (pc_runtime q)) \<noteq> Watching \<or> sh_interrupt (rn_shutdown (pc_runtime q)) \<or>
       sh_terminate (rn_shutdown (pc_runtime q))"
    using shared_drain.pending_process_exits[OF assms(1) inv _ that] by (cases "pc_exit q") auto
  moreover have "exit_explained D q" "shutdown_inv D (rn_shutdown (pc_runtime q))"
    "cm_claim_state (pc_metrics q) = of_bool (cm_claimed (pc_metrics q))"
    using inv by (simp_all add: process_inv_def run_inv_def)
  ultimately show ?thesis
    by (intro conjI allI impI) (simp_all add: exit_explained_def shutdown_inv_def)
qed

subsection \<open>A process that exits while it holds the lease\<close>

text \<open>
  Alice's process claims a lease that nobody holds; then SIGTERM arrives. \<open>spawned_demo\<close> is the task that
  \<open>spawn\<close> makes, \<open>held_lease\<close> what the server then has.
\<close>

definition alice_claim :: lease_claim where
  "alice_claim = \<lparr>claim_holder = ''alice'', claim_expiry = 100 + 30 * nanos\<rparr>"

definition spawned_demo :: "(unit, timestamp \<times> nat \<times> lease_spec) lease_task" where
  "spawned_demo = (case lm_spawn True ideal_chrono (direct_api demo_server) ''alice'' claim_params_default fresh_manager
      (100, (0, unheld_lease)) of Some (Some (Inr task)) \<Rightarrow> task)"

lemma spawned_demo:
  "lm_spawn True ideal_chrono (direct_api demo_server) ''alice'' claim_params_default fresh_manager (100, (0, unheld_lease)) =
     Some (Some (Inr spawned_demo))"
  "lt_published spawned_demo = alice_claim" "lt_phase spawned_demo = TWaiting alice_claim" "fst (lt_world spawned_demo) = 100"
  "sp_holder_identity (snd (snd (lt_world spawned_demo))) = Some ''alice''"
  by (simp_all add: spawned_demo_def lm_spawn_def lease_run_simps alice_claim_def merge_spec_def)

abbreviation demo_process_run where
  "demo_process_run \<equiv> process_run (\<lambda>_. ''later'') True True ideal_chrono (direct_api demo_server) counting_semaphore counting_drain
     counting_release fst ''alice'' claim_params_default"

definition demo_process :: "run_loop \<Rightarrow> bool \<Rightarrow> shutdown_phase \<Rightarrow> nat \<times> bool \<Rightarrow> nat \<Rightarrow> bool \<Rightarrow>
    (unit, timestamp \<times> nat \<times> lease_spec, nat, nat \<times> bool) lease_process" where
  "demo_process loop term phase tx n exited =
     \<lparr>pc_task = spawned_demo\<lparr>lt_closed := exited\<rparr>,
      pc_runtime = \<lparr>rn_init = \<lparr>sys_init = initialized_default counting_semaphore, sys_live = 0\<rparr>, rn_ready = False, rn_task = AwaitInit,
        rn_shutdown = \<lparr>sh_phase = phase, sh_interrupt = False, sh_terminate = term, sh_tx = tx, sh_delivered = n\<rparr>\<rparr>,
      pc_loop = loop, pc_unseen = False,
      pc_metrics = (if loop = Observing then claim_metrics_new else \<lparr>cm_claimed = True, cm_claim_state = 1, cm_state_changes = 1\<rparr>),
      pc_out = (if loop = Observing then [] else [''+ Claimed by alice until later'']),
      pc_exit = (if exited then Some (ExitCode 0) else None)\<rparr>"

lemma demo_process_exits:
  "demo_process_run\<^sup>*\<^sup>* (process_start counting_clone demo_runtime spawned_demo) (demo_process Returned False Draining (1, True) 1 True)"
proof -
  let ?p = demo_process
  have open_task: "spawned_demo\<lparr>lt_closed := False\<rparr> = spawned_demo"
    by (simp add: spawned_demo_def lm_spawn_def lease_run_simps)
  have world: "spawned_demo\<lparr>lt_closed := False, lt_world := lt_world spawned_demo\<rparr> = spawned_demo\<lparr>lt_closed := False\<rparr>"
    by simp
  have s0: "process_start counting_clone demo_runtime spawned_demo = ?p Observing False Watching (2, False) 0 False"
    by (simp add: process_start_def demo_process_def open_task set_tx_def run_start_def demo_runtime_def admin_spawn_def
        shutdown_new_def counting_clone_def)
  have s1: "demo_process_run (?p Observing False Watching (2, False) 0 False) (?p Selecting False Watching (2, False) 0 False)"
    using process_step.observe[of "?p Observing False Watching (2, False) 0 False" "direct_api demo_server" 100 "lt_world spawned_demo"
        100 "lt_world spawned_demo" "\<lambda>_. ''later''" True True ideal_chrono counting_semaphore counting_drain counting_release
        "''alice''" claim_params_default]
    by (simp add: process_run_def demo_process_def direct_api_def prod_eq_iff spawned_demo(2,4) print_claim_def is_current_def
        run_observe_def is_current_for_def alice_claim_def claim_metrics_new_def)
  have s2: "demo_process_run (?p Selecting False Watching (2, False) 0 False) (?p Selecting True Watching (2, False) 1 False)"
    using process_env.outside[OF run_env.sigterm, of "?p Selecting False Watching (2, False) 0 False" counting_semaphore
        counting_drain fst]
    by (simp add: process_run_def demo_process_def)
  have s3: "demo_process_run (?p Selecting True Watching (2, False) 1 False) (?p Selecting False Draining (2, True) 1 False)"
    using process_step.runtime[OF _ run_task.main[OF signaled.terminate], of "?p Selecting True Watching (2, False) 1 False",
        where D = counting_drain and ?rfc3339.0 = "\<lambda>_. ''later''" and oc = True and dbg = True and C = ideal_chrono and
        A = "direct_api demo_server" and S = counting_semaphore and release = counting_release and identity = "''alice''" and
        params = claim_params_default]
    by (simp add: process_run_def demo_process_def counting_drain_def)
  have s4: "demo_process_run (?p Selecting False Draining (2, True) 1 False) (?p Returned False Draining (1, True) 1 True)"
    using process_step.signaled[of "?p Selecting False Draining (2, True) 1 False", where D = counting_drain and
        ?rfc3339.0 = "\<lambda>_. ''later''" and oc = True and dbg = True and C = ideal_chrono and A = "direct_api demo_server" and
        S = counting_semaphore and release = counting_release and identity = "''alice''" and params = claim_params_default]
    by (simp add: process_run_def demo_process_def counting_drain_def loop_return_def set_tx_def counting_release_def example_run_def)
  note more = converse_rtranclp_into_rtranclp[of demo_process_run]
  show ?thesis unfolding s0
    by (rule more[OF s1 more[OF s2 more[OF s3 r_into_rtranclp[of demo_process_run, OF s4]]]])
qed

text \<open>
  C32. The \<open>run\<close> command can exit with code 0 while its lease is still held and current: the main task ends as
  soon as the loop has seen the signal, and does not wait for the lease task, which has yet to notice that
  the receiver was dropped and to vacate. After the exit the process takes no step.
\<close>
theorem lease_run_exits_holding:
  "\<exists>q. demo_process_run\<^sup>*\<^sup>* (process_start counting_clone demo_runtime spawned_demo) q \<and>
     pc_exit q = Some (ExitCode 0) \<and> sp_holder_identity (snd (snd (lt_world (pc_task q)))) = Some ''alice'' \<and>
     is_current_for (fst (lt_world (pc_task q))) ''alice'' (lt_published (pc_task q)) \<and>
     (\<nexists>q'. process_step (\<lambda>_. ''later'') True True ideal_chrono (direct_api demo_server) counting_semaphore counting_drain
        counting_release ''alice'' claim_params_default q q')"
proof -
  let ?q = "demo_process Returned False Draining (1, True) 1 True"
  have "pc_exit ?q = Some (ExitCode 0)" by (simp add: demo_process_def)
  then have "\<not> process_step (\<lambda>_. ''later'') True True ideal_chrono (direct_api demo_server) counting_semaphore counting_drain
        counting_release ''alice'' claim_params_default ?q q'" for q'
    by (auto elim: process_step.cases)
  then show ?thesis using demo_process_exits
    by (intro exI[of _ ?q]) (simp add: demo_process_def spawned_demo is_current_for_def is_current_def alice_claim_def)
qed

end
