(* ===== verification/Example_Programs.thy ===== *)
theory Example_Programs
  imports Example_Lease_Run
begin

text \<open>
  The \<open>main\<close> functions of \<open>examples/watch_pods.rs\<close> and \<open>examples/lease.rs\<close>, from the parsed
  arguments to their end: the builder calls, the build of the runtime, and the streams and tasks it starts. What
  \<open>clap\<close> parses is a record of arguments. Instants and durations are nanoseconds; a \<open>Timeout\<close> is a number of
  milliseconds.
\<close>

definition timeout_nanos :: "nat \<Rightarrow> duration" where
  "timeout_nanos ms = ms * 1000000"

subsection \<open>watch_pods\<close>

record 'f pods_args =
  pa_log_level :: 'f
  pa_log_format :: log_format
  pa_client :: client_args
  pa_admin :: "socket_addr admin_args"
  pa_exit :: bool
  pa_timeout :: nat
  pa_selector :: "string option"

datatype 'e pods_error = PodsBuild "(socket_addr, 'e) build_error" | PodsBail string

text \<open>
  The registry of metrics is a parameter of \<open>with_prometheus\<close>; it holds the metrics of the example
  (\<open>pods_register\<close>) and of the runtime. \<open>None\<close> is a panic.
\<close>

record ('reg, 'e) prom_env =
  pe_encode :: "'reg \<Rightarrow> 'e + string"
  pe_tokio_unstable :: bool
  pe_register_tokio :: "'reg \<Rightarrow> 'reg"
  pe_register_process :: "'reg \<Rightarrow> ('e + unit) \<times> 'reg"
  pe_registry :: 'reg

definition admin_with_prometheus ::
  "('reg, 'e) prom_env \<Rightarrow> timestamp \<Rightarrow> socket_addr admin_args \<Rightarrow> socket_addr admin_builder option" where
  "admin_with_prometheus P now admin =
     with_prometheus (pe_encode P) (pe_tokio_unstable P) (pe_register_tokio P) (pe_register_process P) (pe_registry P)
       (into_builder now admin)"

definition pods_builder ::
  "('reg, 'e) prom_env \<Rightarrow> timestamp \<Rightarrow> 'f pods_args \<Rightarrow> (socket_addr, 'f, unit) runtime_builder option" where
  "pods_builder P now args =
     map_option (\<lambda>admin.
       with_client (pa_client args)
        (with_metrics runtime_metrics_register
          (with_admin admin
            (with_log (pa_log_level args) (pa_log_format args) (runtime_builder_default now)))))
       (admin_with_prometheus P now (pa_admin args))"

text \<open>
  The build is given until the deadline; it ends at \<open>built_at\<close>. A selector restricts the watch.
\<close>

definition pods_build ::
  "(socket_addr, 'l, 'l2, 'f, 'x, 'cfg, 'client, 'm, 'rx, 'd, 'e) build_env \<Rightarrow> instant \<Rightarrow> instant \<Rightarrow>
   (socket_addr, 'f, unit) runtime_builder \<Rightarrow> 'e pods_error + (socket_addr, 'l, 'client, 'm, 'rx, 'd, unit) runtime" where
  "pods_build E deadline built_at b =
     (case init_timeout (Some deadline) built_at (build_no_server E b) of
        Inl _ \<Rightarrow> Inl (PodsBail ''Timed out waiting for Kubernetes client to initialize'')
      | Inr res \<Rightarrow> map_err PodsBuild res)"

definition watcher_config :: "string option \<Rightarrow> string option" where
  "watcher_config selector = fold (\<lambda>l p. Some l) (case selector of None \<Rightarrow> [] | Some l \<Rightarrow> [l]) None"

text \<open>\<open>main\<close> up to its \<open>select!\<close>: the stream of the task, the runtime, and the task's deadline.\<close>

definition pods_start ::
  "('reg, 'e) prom_env \<Rightarrow> (socket_addr, 'l, 'l2, 'f, 'x, 'cfg, 'client, 'm, 'rx, 'd, 'e) build_env \<Rightarrow> ('client, 's) api_ctors \<Rightarrow>
   bool \<Rightarrow> timestamp \<Rightarrow> instant \<Rightarrow> instant \<Rightarrow> 'fl dg_heap \<Rightarrow> 'f pods_args \<Rightarrow>
   ('e pods_error + instant \<times> (('s \<times> watch_state option) \<times> watch_metrics option, 'm, 'rx) runtime_stream \<times>
      (socket_addr, 'l, 'client, 'm, 'rx, 'd, unit) runtime \<times> 'fl dg_heap) option" where
  "pods_start P E K oc ts now built_at h args =
     do { b \<leftarrow> pods_builder P ts args;
          let deadline = now + timeout_nanos (pa_timeout args);
          (case pods_build E deadline built_at b of
             Inl e \<Rightarrow> Some (Inl e)
           | Inr r \<Rightarrow>
               map_option (\<lambda>res. Inr (deadline, res))
                 (watch_all K oc (be_semaphore E) built_at ts (watcher_config (pa_selector args)) (r, h))) }"

text \<open>What the task sees of a stream that is polled at some instants: the events with the instants they arrive at.\<close>

fun timed_items :: "instant list \<Rightarrow> 'a option poll list \<Rightarrow> (instant \<times> 'a) list" where
  "timed_items (now # nows) (Ready (Some a) # outs) = (now, a) # timed_items nows outs"
| "timed_items (now # nows) (_ # outs) = timed_items nows outs"
| "timed_items _ _ = []"

lemma timed_items_items: "length outs \<le> length nows \<Longrightarrow> map snd (timed_items nows outs) = items outs"
  by (induction nows outs rule: timed_items.induct) auto

lemma watcher_config_selector [simp]: "watcher_config selector = selector"
  by (cases selector) (simp_all add: watcher_config_def)

lemma admin_with_prometheus_ok:
  "\<exists>ab. admin_with_prometheus P now admin = Some ab \<and> \<not> ab_ready ab"
  by (simp add: admin_with_prometheus_def with_prometheus_def with_prometheus_handler_def with_handler_def into_builder_def
      builder_new_def Let_def)

lemma build_runtime:
  assumes "build_no_server E b = Inr r"
  shows "ru_shutdown r = shutdown_new (fst (be_channel E))" "ru_initialized r = initialized_default (be_semaphore E)"
    "ad_ready (ru_admin r) = ab_ready (rb_admin b)" "ru_metrics r = rb_metrics b"
    "ru_error_delay r = (case rb_error_delay b of Some d \<Rightarrow> d | None \<Rightarrow> default_error_delay)"
  using build_inner_Inr[OF assms[unfolded build_no_server_def]] by (auto simp: admin_bind_def sum_bind_Inr split: sum.splits)

lemma drive_length: "stream_drive ready S panicked inner sig nows st = Some (outs, st') \<Longrightarrow> length outs \<le> length nows"
proof (induction nows arbitrary: st outs st')
  case (Cons now nows)
  then show ?case by (fastforce split: Option.bind_splits prod.splits if_splits)
qed simp

lemma pods_build_Inr:
  "pods_build E deadline built_at b = Inr r \<longleftrightarrow> build_no_server E b = Inr r \<and> built_at \<le> deadline"
  by (cases "build_no_server E b") (auto simp: pods_build_def init_timeout_def)

text \<open>\<open>main\<close> starts the watch exactly if the runtime is built in time, and never panics on the way.\<close>

lemma pods_start_cases:
  "\<exists>b. pods_builder P ts args = Some b \<and> rb_metrics b = Some metrics_register \<and> rb_error_delay b = None \<and>
    (case pods_build E (now + timeout_nanos (pa_timeout args)) built_at b of
       Inl e \<Rightarrow> pods_start P E K oc ts now built_at h args = Some (Inl e)
     | Inr r \<Rightarrow> build_no_server E b = Inr r \<and> built_at \<le> now + timeout_nanos (pa_timeout args) \<and>
         pods_start P E K oc ts now built_at h args = map_option (\<lambda>res. Inr (now + timeout_nanos (pa_timeout args), res))
           (case api_all K (ru_client r) of (url, s) \<Rightarrow>
              runtime_watch oc (be_semaphore E) built_at ts url (pa_selector args) s (r, h)))"
proof -
  obtain ab where ab: "admin_with_prometheus P ts (pa_admin args) = Some ab" using admin_with_prometheus_ok by blast
  obtain b where b: "pods_builder P ts args = Some b" "rb_metrics b = Some metrics_register" "rb_error_delay b = None"
    by (simp add: pods_builder_def ab with_client_def with_metrics_def with_admin_def with_log_def runtime_builder_default_def
        runtime_metrics_register_def)
  show ?thesis
  proof (cases "pods_build E (now + timeout_nanos (pa_timeout args)) built_at b")
    case (Inl e)
    with b show ?thesis by (simp add: pods_start_def Let_def)
  next
    case (Inr r)
    with b Inr[unfolded pods_build_Inr] show ?thesis by (simp add: pods_start_def Let_def watch_all_def)
  qed
qed


subsection \<open>A pod that arrives in time\<close>

definition program_env :: "(socket_addr, socket_addr, nat, string, unit, (string \<times> auth_info option) list, (string \<times> auth_info option) list,
    nat, unit, nat \<times> bool, string) build_env" where
  "program_env = \<lparr>be_default_env = ''info'', be_install = (\<lambda>_ _. Inr ()), be_kube = demo_kube,
     be_register = (\<lambda>_. Inr ()), be_channel = ((1, False), ()),
     be_tcp = \<lparr>tcp_bind = Inr, tcp_set_nonblocking = Inr, tcp_from_std = Inr, tcp_local_addr = id\<rparr>,
     be_semaphore = counting_semaphore, be_server_bind = (\<lambda>_. None)\<rparr>"

definition program_prom :: "(string, string) prom_env" where
  "program_prom = \<lparr>pe_encode = Inr, pe_tokio_unstable = False, pe_register_tokio = id, pe_register_process = (\<lambda>r. (Inr (), r)),
     pe_registry = ''''\<rparr>"

definition program_args :: "string pods_args" where
  "program_args = \<lparr>pa_log_level = ''info'', pa_log_format = Plain, pa_client = client_args_default, pa_admin = admin_args_default,
     pa_exit = False, pa_timeout = 10000, pa_selector = None\<rparr>"

definition program_api :: "('client, (unit watcher_error + string event) option poll list \<times> (unit watcher_error + string event) list) api_ctors" where
  "program_api = \<lparr>api_all = (\<lambda>_. (''/pods'', ([], [Inr (Apply ''a'')]))), api_namespaced = (\<lambda>_ _. (''/pods'', ([], [])))\<rparr>"

definition program_ext :: "string resource_ext" where
  "program_ext = \<lparr>res_namespace = (\<lambda>_. Some ''default''), res_name = Some\<rparr>"

abbreviation program_inner where
  "program_inner \<equiv> watch_inner True demo_pods \<lparr>rt_kind = ''Pod'', rt_group = [], rt_version = ''v1''\<rparr> (\<lambda>_ :: unit watcher_error. ''error'') int
     (logged list_stream)"

lemma program_started:
  "\<exists>r st h'. pods_start program_prom program_env program_api True 0 0 1 demo_heap program_args = Some (Inr (10000000000, st, r, h')) \<and>
     ror_inner (fst (cos_inner st)) = las_fixed_delay 1 default_error_delay
       ((([], [Inr (Apply ''a'')]), Some (wd_new 0 ''/pods'' None)), Some metrics_register)"
  by (simp add: pods_start_def pods_builder_def admin_with_prometheus_def with_prometheus_def with_prometheus_handler_def with_handler_def
      into_builder_def builder_new_def Let_def program_args_def timeout_nanos_def pods_build_def init_timeout_def build_no_server_def
      build_inner_def program_env_def with_client_def with_metrics_def with_admin_def with_log_def runtime_builder_default_def
      log_settings_try_init_def log_try_init_def try_client_def is_customized_def client_args_default_def demo_kube_def load_local_config_def impersonate_user_def impersonate_group_def
      sigint_or_sigterm_def admin_bind_def watch_all_def program_api_def runtime_watch_def watch_registered_def register_watch_def
      add_handle_def initialized_default_def counting_semaphore_def rust_add_def stream_new_def cos_new_def release_on_ready_def
      runtime_metrics_register_def program_prom_def demo_heap_def split_def)

lemma program_driven:
  assumes "ror_inner (fst (cos_inner st)) = las_fixed_delay 1 default_error_delay
      ((([], [Inr (Apply ''a'')]), Some (wd_new 0 ''/pods'' None)), m)"
    and "stream_drive (\<lambda>now deadline. deadline \<le> now) counting_semaphore watch_panicked program_inner sig [2] st = Some (outs, st')"
  shows "fst (fst (fst (stream_state st'))) = [Ready (Some (Inr (Apply ''a'')))]" "outs = [Ready (Some (Apply ''a''))]"
proof -
  note adapters = las_fixed_delay_def watch_inner_def inspect_watch_def instrument_watch_def logged_def list_stream_def
  note poll = las_poll_next.simps[of "\<lambda>now deadline. deadline \<le> now" program_inner 2
      "las_fixed_delay 1 default_error_delay ((([], [Inr (Apply ''a'')]), Some (wd_new 0 ''/pods'' None)), m)"]
  have "las_poll_next (\<lambda>now deadline. deadline \<le> now) program_inner 2 (ror_inner (fst (cos_inner st))) = Some (p, las) \<Longrightarrow>
      p = Ready (Some (Apply ''a'')) \<and> fst (fst (fst (las_stream las))) = [Ready (Some (Inr (Apply ''a'')))]" for p las
    unfolding assms(1) poll by (auto simp: adapters)
  with assms(2) show "fst (fst (fst (stream_state st'))) = [Ready (Some (Inr (Apply ''a'')))]" "outs = [Ready (Some (Apply ''a''))]"
    by (auto simp: stream_poll_def cos_poll_next_def ror_poll_def split: Option.bind_splits prod.splits poll.splits if_splits)
qed


subsection \<open>lease\<close>

text \<open>The parser of durations is the same as that of \<open>watch_pods\<close>, line by line.\<close>

definition lease_timeout_from_str :: "bool \<Rightarrow> string \<Rightarrow> (invalid_timeout + nat) option" where
  "lease_timeout_from_str = timeout_from_str"

datatype lease_command =
    CreateLease string
  | ClaimLease nat nat string
  | GetLease string
  | VacateLease string
  | RunLease nat nat string

record 'f lease_args =
  la_log_level :: 'f
  la_log_format :: log_format
  la_client :: client_args
  la_admin :: "socket_addr admin_args"
  la_field_manager :: string
  la_identity :: string
  la_namespace :: string

definition lease_builder :: "timestamp \<Rightarrow> 'f lease_args \<Rightarrow> (socket_addr, 'f, unit) runtime_builder" where
  "lease_builder now args =
     with_client (la_client args) (with_log (la_log_level args) (la_log_format args) (runtime_builder_default now))"

text \<open>
  The commands that end by themselves. \<open>create\<close> and \<open>A\<close> are the API of a namespace. The outer \<open>None\<close> is a
  command that does not return.
\<close>

fun run_command ::
  "(timestamp \<Rightarrow> string) \<Rightarrow> bool \<Rightarrow> chrono \<Rightarrow> (string \<Rightarrow> string \<Rightarrow> 'w \<Rightarrow> (kube_error + string) \<times> 'w) \<Rightarrow> (string \<Rightarrow> 'w lease_api) \<Rightarrow>
   'f lease_args \<Rightarrow> lease_command \<Rightarrow> 'w \<Rightarrow> (command_result \<times> 'w) option" where
  "run_command rfc3339 oc C create A args (CreateLease name) w = Some (command_create create (la_namespace args) name w)"
| "run_command rfc3339 oc C create A args (GetLease name) w =
     Some (command_get rfc3339 C (A (la_namespace args)) (la_field_manager args) (la_identity args) name w)"
| "run_command rfc3339 oc C create A args (ClaimLease duration renew_grace_period name) w =
     command_claim rfc3339 oc C (A (la_namespace args)) (la_field_manager args) (la_identity args)
       \<lparr>cp_lease_duration = timeout_nanos duration, cp_renew_grace_period = timeout_nanos renew_grace_period\<rparr> name w"
| "run_command rfc3339 oc C create A args (VacateLease name) w =
     Some (command_vacate oc C (A (la_namespace args)) (la_field_manager args) (la_identity args) name w)"
| "run_command rfc3339 oc C create A args (RunLease duration renew_grace_period name) w = None"

text \<open>The end of such a command as the process's end, when the runtime does not end first.\<close>

datatype 'e lease_main_end = BuildFailed "(socket_addr, 'e) build_error" | Ended process_exit

definition lease_main ::
  "(socket_addr, 'l, 'l2, 'f, 'x, 'cfg, 'client, 'm, 'rx, 'd, 'e) build_env \<Rightarrow> (timestamp \<Rightarrow> string) \<Rightarrow> bool \<Rightarrow> chrono \<Rightarrow>
   (string \<Rightarrow> string \<Rightarrow> 'w \<Rightarrow> (kube_error + string) \<times> 'w) \<Rightarrow> (string \<Rightarrow> 'w lease_api) \<Rightarrow> timestamp \<Rightarrow> 'f lease_args \<Rightarrow> lease_command \<Rightarrow> 'w \<Rightarrow>
   (string list \<times> 'e lease_main_end \<times> 'w) option" where
  "lease_main E rfc3339 oc C create A now args cmd w =
     (case build_no_server E (lease_builder now args) of
        Inl e \<Rightarrow> Some ([], BuildFailed e, w)
      | Inr _ \<Rightarrow>
          (case run_command rfc3339 oc C create A args cmd w of
             None \<Rightarrow> None
           | Some (None, w) \<Rightarrow> Some ([], Ended ExitPanic, w)
           | Some (Some (Inl e), w) \<Rightarrow> Some ([], Ended (example_run (CommandEnded (Inl e))), w)
           | Some (Some (Inr (out, code)), w) \<Rightarrow> Some (out, Ended (example_run (CommandEnded (Inr code))), w)))"

text \<open>
  The command \<open>run\<close>: the runtime gets an admin server with metrics, the lease is claimed, and the process
  starts; or it ends before.
\<close>

definition lease_run_start ::
  "('reg, 'e) prom_env \<Rightarrow> (socket_addr, 'l, 'l2, 'f, 'x, 'cfg, 'client, 'm, 'rx, 'd, 'e) build_env \<Rightarrow> bool \<Rightarrow> chrono \<Rightarrow>
   (string \<Rightarrow> 'w lease_api) \<Rightarrow> (duration \<Rightarrow> 'fl) \<Rightarrow> ('d \<Rightarrow> 'd) \<Rightarrow> timestamp \<Rightarrow> 'f lease_args \<Rightarrow> nat \<Rightarrow> nat \<Rightarrow> string \<Rightarrow> 'w \<Rightarrow> 'fl dg_heap \<Rightarrow>
   ('e lease_main_end + ('fl, 'w, 'm, 'd) lease_process) option" where
  "lease_run_start P E oc C A secs clone now args duration renew_grace_period name w h =
     (case admin_with_prometheus P now (la_admin args) of
        None \<Rightarrow> Some (Inl (Ended ExitPanic))
      | Some admin \<Rightarrow>
     (case build_no_server E (with_admin admin (lease_builder now args)) of
        Inl e \<Rightarrow> Some (Inl (BuildFailed e))
      | Inr r \<Rightarrow>
     (case spawn_lease oc C A secs now
             \<lparr>lp_name = name, lp_namespace = la_namespace args, lp_claimant = la_identity args,
              lp_lease_duration = timeout_nanos duration, lp_renew_grace_period = timeout_nanos renew_grace_period,
              lp_field_manager = Some (la_field_manager args)\<rparr> w (r, h) of
        None \<Rightarrow> None
      | Some None \<Rightarrow> Some (Inl (Ended ExitPanic))
      | Some (Some (Inl e, _)) \<Rightarrow> Some (Inl (Ended (ExitError e)))
      | Some (Some (Inr task, r, h)) \<Rightarrow> Some (Inr (process_start clone r task)))))"

lemma spawn_lease_task:
  assumes "spawn_lease oc C A secs ts params w (r, h) = Some (Some (Inr task, r', h'))"
  shows "\<exists>m w1. lm_spawn oc C (A (lp_namespace params)) (lp_claimant params)
      \<lparr>cp_lease_duration = lp_lease_duration params, cp_renew_grace_period = lp_renew_grace_period params\<rparr> m w1 = Some (Some (Inr task))"
    and "ru_shutdown r' = ru_shutdown r" "ru_initialized r' = ru_initialized r" "ad_ready (ru_admin r') = ad_ready (ru_admin r)"
  using assms
  by (auto simp: spawn_lease_def Let_def split: prod.splits option.splits sum.splits)

lemma lease_run_start_cases:
  fixes E :: "(socket_addr, 'l, 'l2, 'f, 'x, 'cfg, 'client, 'm, 'rx, 'd, 'e) build_env"
  assumes "lease_run_start P E oc C A secs clone now args duration renew_grace_period name w h = Some (Inr p)"
  shows "\<exists>(r :: (socket_addr, 'l, 'client, 'm, 'rx, 'd, unit) runtime) task m w1. p = process_start clone r task \<and>
    ru_shutdown r = shutdown_new (fst (be_channel E)) \<and> ru_initialized r = initialized_default (be_semaphore E) \<and>
    \<not> ad_ready (ru_admin r) \<and>
    lm_spawn oc C (A (la_namespace args)) (la_identity args)
      \<lparr>cp_lease_duration = timeout_nanos duration, cp_renew_grace_period = timeout_nanos renew_grace_period\<rparr> m w1 = Some (Some (Inr task))"
proof -
  obtain admin where admin: "admin_with_prometheus P now (la_admin args) = Some admin" "\<not> ab_ready admin"
    using admin_with_prometheus_ok by blast
  let ?params = "\<lparr>lp_name = name, lp_namespace = la_namespace args, lp_claimant = la_identity args,
      lp_lease_duration = timeout_nanos duration, lp_renew_grace_period = timeout_nanos renew_grace_period,
      lp_field_manager = Some (la_field_manager args)\<rparr>"
  from assms admin(1) obtain r0 r task h' where
    build: "build_no_server E (with_admin admin (lease_builder now args)) = Inr r0"
    and spawn: "spawn_lease oc C A secs now ?params w (r0, h) = Some (Some (Inr task, r, h'))"
    and p: "p = process_start clone r task"
    by (auto simp: lease_run_start_def split: sum.splits option.splits prod.splits)
  have "rb_admin (with_admin admin (lease_builder now args)) = admin" by (simp add: with_admin_def)
  with build_runtime[OF build] spawn_lease_task[OF spawn] admin(2) p show ?thesis
    by (intro exI[of _ r] exI[of _ task]) simp
qed

text \<open>
  C19. The \<open>run\<close> command of the example, from its arguments: if \<open>main\<close> gets as far as the loop, then over
  every interleaving of the loop, the lease task, the runtime, signals and other processes it ends with code 0
  only after a signal, as aborted only after two, and with an error or a panic only if the lease task ended
  so; and once a signal is waiting or was received, its own steps can lead it to its end.
\<close>
theorem lease_run_program:
  fixes E :: "(socket_addr, 'l, 'l2, 'f, 'x, 'cfg, 'client, 'm, 'rx, 'd, 'e) build_env" and q :: "('fl, 'w, 'm, 'd) lease_process"
  assumes "shared_drain (be_semaphore E) permits D alive release clone"
    and "\<not> dr_signaled D (fst (be_channel E))" and "alive (fst (be_channel E)) = 1"
    and "lease_run_start P E oc C A secs clone now args duration renew_grace_period name w h = Some (Inr p)"
    and "(process_run rfc3339 oc dbg C (A (la_namespace args)) (be_semaphore E) D release alive (la_identity args)
        \<lparr>cp_lease_duration = timeout_nanos duration, cp_renew_grace_period = timeout_nanos renew_grace_period\<rparr>)\<^sup>*\<^sup>* p q"
  shows "(\<forall>c. pc_exit q = Some (ExitCode c) \<longrightarrow> c = 0 \<and> 1 \<le> sh_delivered (rn_shutdown (pc_runtime q))) \<and>
    (pc_exit q = Some ExitAborted \<longrightarrow> 2 \<le> sh_delivered (rn_shutdown (pc_runtime q))) \<and>
    (\<forall>e. pc_exit q = Some (ExitError e) \<longrightarrow> lt_phase (pc_task q) = TDone (Inl e)) \<and>
    (pc_exit q = Some ExitPanic \<longrightarrow> lt_phase (pc_task q) = TPanicked) \<and>
    cm_claim_state (pc_metrics q) = of_bool (cm_claimed (pc_metrics q)) \<and>
    (sh_phase (rn_shutdown (pc_runtime q)) \<noteq> Watching \<or> sh_interrupt (rn_shutdown (pc_runtime q)) \<or>
       sh_terminate (rn_shutdown (pc_runtime q)) \<longrightarrow>
     (\<exists>q'. (process_step rfc3339 oc dbg C (A (la_namespace args)) (be_semaphore E) D release (la_identity args)
        \<lparr>cp_lease_duration = timeout_nanos duration, cp_renew_grace_period = timeout_nanos renew_grace_period\<rparr>)\<^sup>*\<^sup>* q q' \<and>
        pc_exit q' \<noteq> None))"
proof -
  obtain r :: "(socket_addr, 'l, 'client, 'm, 'rx, 'd, unit) runtime" and task m w1 where p: "p = process_start clone r task"
    and r: "ru_shutdown r = shutdown_new (fst (be_channel E))" "ru_initialized r = initialized_default (be_semaphore E)"
      "\<not> ad_ready (ru_admin r)"
    and spawn: "lm_spawn oc C (A (la_namespace args)) (la_identity args)
      \<lparr>cp_lease_duration = timeout_nanos duration, cp_renew_grace_period = timeout_nanos renew_grace_period\<rparr> m w1 = Some (Some (Inr task))"
    using lease_run_start_cases[OF assms(4)] by blast
  have init: "(init_step True (be_semaphore E))\<^sup>*\<^sup>* (init_system (be_semaphore E)) \<lparr>sys_init = ru_initialized r, sys_live = 0\<rparr>"
    by (simp add: r(2) init_system_def)
  show ?thesis by (rule lease_run_ends[OF assms(1) init r(1) assms(2,3) r(3) spawn assms(5)[unfolded p]])
qed

definition lease_program_args :: "string lease_args" where
  "lease_program_args = \<lparr>la_log_level = ''info'', la_log_format = Plain, la_client = client_args_default, la_admin = admin_args_default,
     la_field_manager = ''kubert'', la_identity = ''alice'', la_namespace = ''default''\<rparr>"

lemma lease_program_started:
  "\<exists>p. lease_run_start program_prom program_env True ideal_chrono (\<lambda>_. direct_api demo_server) id counting_clone 0 lease_program_args
     30000 1000 ''lease'' (100, (0, unheld_lease)) demo_heap = Some (Inr p)"
  by (simp add: lease_run_start_def lease_builder_def admin_with_prometheus_def with_prometheus_def with_prometheus_handler_def
      with_handler_def into_builder_def builder_new_def lease_program_args_def timeout_nanos_def build_no_server_def
      build_inner_def program_env_def with_client_def with_admin_def with_log_def runtime_builder_default_def
      log_settings_try_init_def log_try_init_def try_client_def is_customized_def client_args_default_def demo_kube_def
      load_local_config_def impersonate_user_def impersonate_group_def sigint_or_sigterm_def admin_bind_def program_prom_def
      spawn_lease_def register_lease_def demo_heap_def split_def lm_init_def lm_get_def parse_lease_def unheld_lease_def
      with_field_manager_def with_diagnostics_def u16_or_zero_def lm_spawn_def ld_inspect_def ld_new_def lease_run_simps)

theorem lease_run_program_witness:
  "\<exists>p q. lease_run_start program_prom program_env True ideal_chrono (\<lambda>_. direct_api demo_server) id counting_clone 0 lease_program_args
       30000 1000 ''lease'' (100, (0, unheld_lease)) demo_heap = Some (Inr p) \<and>
     (process_run (\<lambda>_. ''later'') True True ideal_chrono (direct_api demo_server) counting_semaphore counting_drain counting_release fst
        ''alice'' \<lparr>cp_lease_duration = timeout_nanos 30000, cp_renew_grace_period = timeout_nanos 1000\<rparr>)\<^sup>*\<^sup>* p q \<and>
     pc_exit q \<noteq> None"
proof -
  let ?params = "\<lparr>cp_lease_duration = timeout_nanos 30000, cp_renew_grace_period = timeout_nanos 1000\<rparr>"
  let ?run = "process_run (\<lambda>_. ''later'') True True ideal_chrono (direct_api demo_server) counting_semaphore counting_drain counting_release
     fst ''alice'' ?params"
  let ?step = "process_step (\<lambda>_. ''later'') True True ideal_chrono (direct_api demo_server) counting_semaphore counting_drain
     counting_release ''alice'' ?params"
  obtain p where p: "lease_run_start program_prom program_env True ideal_chrono (\<lambda>_. direct_api demo_server) id counting_clone 0
      lease_program_args 30000 1000 ''lease'' (100, (0, unheld_lease)) demo_heap = Some (Inr p)"
    using lease_program_started by blast
  let ?g = "pc_runtime p"
  let ?q = "p\<lparr>pc_runtime := ?g\<lparr>rn_shutdown := (rn_shutdown ?g)\<lparr>sh_terminate := True, sh_delivered := Suc (sh_delivered (rn_shutdown ?g))\<rparr>\<rparr>\<rparr>"
  have sigterm: "?run p ?q"
    using process_env.outside[OF run_env.sigterm, of p] by (simp add: process_run_def)
  have env: "shared_drain (be_semaphore program_env) id counting_drain fst counting_release counting_clone"
    "\<not> dr_signaled counting_drain (fst (be_channel program_env))" "fst (fst (be_channel program_env)) = 1"
    using counting_shared.shared_drain_axioms by (simp_all add: program_env_def counting_drain_def)
  have "be_semaphore program_env = counting_semaphore" "la_identity lease_program_args = ''alice''"
    by (simp_all add: program_env_def lease_program_args_def)
  with lease_run_program[OF env p, of "\<lambda>_. ''later''" True ?q] sigterm obtain q where q: "?step\<^sup>*\<^sup>* ?q q" "pc_exit q \<noteq> None" by auto
  have "?run\<^sup>*\<^sup>* ?q q" using q(1) by (rule rtranclp_mono[THEN predicate2D, rotated]) (auto simp: process_run_def)
  with p q(2) converse_rtranclp_into_rtranclp[of ?run, OF sigterm] show ?thesis by blast
qed

end
