(* ===== verification/Lease_System.thy ===== *)
theory Lease_System
  imports Lease
begin

text \<open>
  The protocol that the processes of a deployment run together: each owns a lease manager
  (\<open>kubert/src/lease.rs\<close>) for the same lease, under its own claimant identity. The steps of a
  process are the awaited calls of \<open>init\<close>, \<open>sync\<close>, \<open>ensure_claimed\<close> and
  \<open>vacate\<close>, built from the same functions as the sequential operations of \<open>Lease\<close>.
  Requests travel through a network that may delay, repeat or lose them and their answers, so that a
  request that timed out may still take effect later. All processes read the same clock.
\<close>

subsection \<open>Requests\<close>

datatype lease_req =
    RAcquire (req_version: string) "16 word" timestamp
  | RRenew (req_version: string) "16 word" timestamp
  | RVacate (req_version: string)

fun req_patch :: "chrono \<Rightarrow> string \<Rightarrow> claim_params \<Rightarrow> lease_req \<Rightarrow> patch" where
  "req_patch C claimant params (RAcquire v n now) = acquire_patch C claimant params v n now"
| "req_patch C claimant params (RRenew v n now) = renew_patch C params v now"
| "req_patch C claimant params (RVacate v) = vacate_patch v"

text \<open>The claim that follows an accepted request.\<close>

fun req_granted ::
  "chrono \<Rightarrow> string \<Rightarrow> claim_params \<Rightarrow> lease_req \<Rightarrow> lease_obj \<Rightarrow> (lease_error + lease_claim \<times> lease_meta) option" where
  "req_granted C claimant params (RAcquire v n now) lease = claim_granted C claimant params n now lease"
| "req_granted C claimant params (RRenew v n now) lease = claim_granted C claimant params n now lease"
| "req_granted C claimant params (RVacate v) lease = None"

fun req_expiry :: "chrono \<Rightarrow> claim_params \<Rightarrow> lease_req \<Rightarrow> timestamp set" where
  "req_expiry C params (RAcquire v n now) = {now + claim_duration C params}"
| "req_expiry C params (RRenew v n now) = {now + claim_duration C params}"
| "req_expiry C params (RVacate v) = {}"

subsection \<open>The system\<close>

text \<open>
  A process is not running, idle with a cached state, reading the lease, waiting for the answer to a
  request, or about to process an answer. A process that vacates its claim stops, as the spawned task
  does.
\<close>

datatype proc =
    PDown
  | PIdle lease_state
  | PRead "lease_state option" lease_obj
  | PWait lease_state lease_req
  | PReply lease_state lease_req "kube_error + lease_obj"
  | PStopped

text \<open>
  \<open>sy_held\<close> records the expiry of every claim of its own that a process was given, also
  the ones that callers still keep after the manager has replaced them, until it vacates.
\<close>

record 's lease_system =
  sy_clock :: timestamp
  sy_server :: "'s"
  sy_net :: "(string \<times> lease_req) set"
  sy_proc :: "string \<Rightarrow> proc"
  sy_held :: "string \<Rightarrow> timestamp set"

definition own_expiry :: "string \<Rightarrow> lease_state \<Rightarrow> timestamp set" where
  "own_expiry p st = (case ls_claim st of None \<Rightarrow> {} | Some c \<Rightarrow> if claim_holder c = p then {claim_expiry c} else {})"

fun read_expiry :: "string \<Rightarrow> (lease_error + lease_state) option \<Rightarrow> timestamp set" where
  "read_expiry p (Some (Inr st)) = own_expiry p st"
| "read_expiry p _ = {}"

fun proc_state :: "proc \<Rightarrow> lease_state option" where
  "proc_state (PIdle st) = Some st"
| "proc_state (PRead st lease) = st"
| "proc_state (PWait st req) = Some st"
| "proc_state (PReply st req r) = Some st"
| "proc_state _ = None"

definition proc_of :: "lease_state option \<Rightarrow> proc" where
  "proc_of st = (case st of None \<Rightarrow> PDown | Some st \<Rightarrow> PIdle st)"

definition hold :: "string \<Rightarrow> timestamp set \<Rightarrow> 's lease_system \<Rightarrow> 's lease_system" where
  "hold p es sy = sy\<lparr>sy_held := (sy_held sy)(p := sy_held sy p \<union> es)\<rparr>"

definition set_proc :: "string \<Rightarrow> proc \<Rightarrow> 's lease_system \<Rightarrow> 's lease_system" where
  "set_proc p pr sy = sy\<lparr>sy_proc := (sy_proc sy)(p := pr)\<rparr>"

definition send :: "string \<Rightarrow> lease_req \<Rightarrow> 's lease_system \<Rightarrow> 's lease_system" where
  "send p req sy = sy\<lparr>sy_net := insert (p, req) (sy_net sy)\<rparr>"

inductive sys_step ::
  "bool \<Rightarrow> chrono \<Rightarrow> (string \<Rightarrow> claim_params) \<Rightarrow> 's lease_server \<Rightarrow> ('s \<Rightarrow> 's \<Rightarrow> bool) \<Rightarrow>
   's lease_system \<Rightarrow> 's lease_system \<Rightarrow> bool"
  for oc C par S other where
  tick: "sy_clock sy \<le> t \<Longrightarrow> sys_step oc C par S other sy (sy\<lparr>sy_clock := t\<rparr>)"
| other_write: "other (sy_server sy) s \<Longrightarrow> sys_step oc C par S other sy (sy\<lparr>sy_server := s\<rparr>)"
| crash: "sy_proc sy p \<noteq> PStopped \<Longrightarrow> sys_step oc C par S other sy (set_proc p PDown sy)"
| read: "sy_proc sy p = proc_of st \<Longrightarrow>
    sys_step oc C par S other sy
      (hold p (read_expiry p (parse_lease C (srv_lease S (sy_server sy))))
         (set_proc p (PRead st (srv_lease S (sy_server sy))) sy))"
| read_ok: "sy_proc sy p = PRead st0 lease \<Longrightarrow> parse_lease C lease = Some (Inr st) \<Longrightarrow>
    sys_step oc C par S other sy (set_proc p (PIdle (drop_expired (sy_clock sy) st)) sy)"
| read_failed: "sy_proc sy p = PRead st0 lease \<Longrightarrow>
    sys_step oc C par S other sy (set_proc p (proc_of st0) sy)"
| renew: "sy_proc sy p = PIdle st \<Longrightarrow>
    claim_decision C p (par p) (ls_claim st) (sy_clock sy) = Some Renew \<Longrightarrow>
    req = RRenew (meta_version (ls_meta st)) (meta_transitions (ls_meta st)) (sy_clock sy) \<Longrightarrow>
    sys_step oc C par S other sy (send p req (set_proc p (PWait st req) sy))"
| acquire: "sy_proc sy p = PIdle st \<Longrightarrow>
    claim_decision C p (par p) (ls_claim st) (sy_clock sy) = Some Acquire \<Longrightarrow>
    rust_add oc (meta_transitions (ls_meta st)) 1 = Some n \<Longrightarrow>
    req = RAcquire (meta_version (ls_meta st)) n (sy_clock sy) \<Longrightarrow>
    sys_step oc C par S other sy (send p req (set_proc p (PWait st req) sy))"
| vacate: "sy_proc sy p = PIdle st \<Longrightarrow> ls_claim st = Some c \<Longrightarrow> is_current_for (sy_clock sy) p c \<Longrightarrow>
    sys_step oc C par S other sy
      (send p (RVacate (meta_version (ls_meta st))) (set_proc p PStopped (sy\<lparr>sy_held := (sy_held sy)(p := {})\<rparr>)))"
| serve: "(p, req) \<in> sy_net sy \<Longrightarrow> srv_patch S pp (req_patch C p (par p) req) (sy_server sy) = (r, s) \<Longrightarrow>
    sy_proc sy p = PWait st req \<Longrightarrow>
    sys_step oc C par S other sy
      (hold p (if isl r then {} else req_expiry C (par p) req)
         (set_proc p (PReply st req r) (sy\<lparr>sy_server := s\<rparr>)))"
| serve_lost: "(p, req) \<in> sy_net sy \<Longrightarrow> srv_patch S pp (req_patch C p (par p) req) (sy_server sy) = (r, s) \<Longrightarrow>
    sys_step oc C par S other sy (sy\<lparr>sy_server := s\<rparr>)"
| failed: "sy_proc sy p = PWait st req \<or> sy_proc sy p = PReply st req (Inl e) \<Longrightarrow>
    sys_step oc C par S other sy (set_proc p (PIdle st) sy)"
| granted: "sy_proc sy p = PReply st req (Inr lease) \<Longrightarrow>
    req_granted C p (par p) req lease = Some (Inr (c, meta)) \<Longrightarrow>
    sys_step oc C par S other sy (set_proc p (PIdle \<lparr>ls_meta = meta, ls_claim = Some c\<rparr>) sy)"
| no_version: "sy_proc sy p = PReply st req (Inr lease) \<Longrightarrow>
    req_granted C p (par p) req lease = Some (Inl e) \<Longrightarrow>
    sys_step oc C par S other sy (set_proc p (PIdle st) sy)"

definition sys_start :: "timestamp \<Rightarrow> 's \<Rightarrow> 's lease_system" where
  "sys_start t s = \<lparr>sy_clock = t, sy_server = s, sy_net = {}, sy_proc = (\<lambda>_. PDown), sy_held = (\<lambda>_. {})\<rparr>"

subsection \<open>The invariant\<close>

text \<open>Who holds a lease according to its specification, and until when.\<close>

definition spec_grant :: "lease_spec \<Rightarrow> (string \<times> timestamp) option" where
  "spec_grant spec =
     (case (sp_holder_identity spec, sp_renew_time spec, sp_lease_duration_seconds spec) of
        (Some h, Some t, Some n) \<Rightarrow> Some (h, t + n * nanos)
      | _ \<Rightarrow> None)"

text \<open>
  The assumptions of the protocol: other writers leave the specification alone, no duration is
  negative, and \<open>slack\<close> bounds what a local claim gains on the stored one, by the truncation of
  the duration to seconds and of the time to microseconds. The renewal grace period, with the slack,
  is not longer than the lease.
\<close>

locale lease_protocol = chrono_spec C + lease_server_spec S ver gen micro
  for C :: chrono
    and S :: "'s lease_server"
    and ver :: "nat \<Rightarrow> string"
    and gen :: "'s \<Rightarrow> nat"
    and micro :: "timestamp \<Rightarrow> timestamp" +
  fixes par :: "string \<Rightarrow> claim_params"
    and other :: "'s \<Rightarrow> 's \<Rightarrow> bool"
    and slack :: int
  assumes other_writer: "other s s' \<Longrightarrow> gen s < gen s' \<and> lo_spec (srv_lease S s') = lo_spec (srv_lease S s)"
    and duration_pos: "0 \<le> claim_duration C (par p)"
    and slack_pos: "0 \<le> slack"
    and slack_bound: "t + claim_duration C (par p) \<le>
      micro t + ch_num_seconds C (claim_duration C (par p)) * nanos + slack"
    and grace_bound: "claim_grace C (par p) + slack \<le> claim_duration C (par p)"
begin

definition grant :: "'s \<Rightarrow> (string \<times> timestamp) option" where
  "grant s = Option.bind (lo_spec (srv_lease S s)) spec_grant"

definition expired :: "timestamp \<Rightarrow> 's \<Rightarrow> bool" where
  "expired t s \<longleftrightarrow> (\<forall>q e. grant s = Some (q, e) \<longrightarrow> e \<le> t)"

definition safe :: "timestamp \<Rightarrow> 's \<Rightarrow> string \<Rightarrow> timestamp \<Rightarrow> bool" where
  "safe t s p e \<longleftrightarrow> e \<le> t + slack \<or> (\<exists>e'. grant s = Some (p, e') \<and> e \<le> e' + slack)"

definition known :: "'s \<Rightarrow> string \<Rightarrow> bool" where
  "known s v \<longleftrightarrow> (\<exists>g \<le> gen s. v = ver g)"

definition claim_ok :: "timestamp \<Rightarrow> 's \<Rightarrow> string \<Rightarrow> lease_claim option \<Rightarrow> bool" where
  "claim_ok t s p claim \<longleftrightarrow>
     (case claim of
        None \<Rightarrow> expired t s
      | Some c \<Rightarrow> if claim_holder c = p then \<exists>e'. grant s = Some (p, e') \<and> e' \<le> claim_expiry c
                 else grant s = Some (claim_holder c, claim_expiry c))"

definition state_ok :: "timestamp \<Rightarrow> 's \<Rightarrow> timestamp set \<Rightarrow> string \<Rightarrow> lease_state \<Rightarrow> bool" where
  "state_ok t s H p st \<longleftrightarrow>
     known s (meta_version (ls_meta st)) \<and> own_expiry p st \<subseteq> H \<and>
     (meta_version (ls_meta st) = ver (gen s) \<longrightarrow> claim_ok t s p (ls_claim st))"

definition lease_ok :: "'s \<Rightarrow> timestamp set \<Rightarrow> string \<Rightarrow> lease_obj \<Rightarrow> bool" where
  "lease_ok s H p lease \<longleftrightarrow>
     (\<exists>g \<le> gen s. lo_resource_version lease = Some (ver g) \<and>
        (g = gen s \<longrightarrow> lo_spec lease = lo_spec (srv_lease S s))) \<and>
     read_expiry p (parse_lease C lease) \<subseteq> H"

definition reply_ok :: "'s \<Rightarrow> timestamp set \<Rightarrow> string \<Rightarrow> lease_req \<Rightarrow> kube_error + lease_obj \<Rightarrow> bool" where
  "reply_ok s H p req r \<longleftrightarrow>
     (\<forall>lease. r = Inr lease \<longrightarrow> req_expiry C (par p) req \<subseteq> H \<and>
        (\<exists>g \<le> gen s. lo_resource_version lease = Some (ver g) \<and>
           (g = gen s \<longrightarrow> (\<forall>e \<in> req_expiry C (par p) req. \<exists>e'. grant s = Some (p, e') \<and> e' \<le> e))))"

fun req_ok :: "timestamp \<Rightarrow> 's \<Rightarrow> string \<Rightarrow> lease_req \<Rightarrow> bool" where
  "req_ok t s p (RAcquire v n now) = expired t s"
| "req_ok t s p (RRenew v n now) = (\<exists>e'. grant s = Some (p, e') \<and> e' + slack \<le> now + claim_duration C (par p))"
| "req_ok t s p (RVacate v) = (\<exists>e'. grant s = Some (p, e'))"

definition net_ok :: "timestamp \<Rightarrow> 's \<Rightarrow> string \<Rightarrow> lease_req \<Rightarrow> bool" where
  "net_ok t s p req \<longleftrightarrow> known s (req_version req) \<and> (req_version req = ver (gen s) \<longrightarrow> req_ok t s p req)"

fun proc_ok :: "timestamp \<Rightarrow> 's \<Rightarrow> timestamp set \<Rightarrow> string \<Rightarrow> proc \<Rightarrow> bool" where
  "proc_ok t s H p PDown = True"
| "proc_ok t s H p (PIdle st) = state_ok t s H p st"
| "proc_ok t s H p (PRead st lease) = ((\<forall>st'. st = Some st' \<longrightarrow> state_ok t s H p st') \<and> lease_ok s H p lease)"
| "proc_ok t s H p (PWait st req) = state_ok t s H p st"
| "proc_ok t s H p (PReply st req r) = (state_ok t s H p st \<and> reply_ok s H p req r)"
| "proc_ok t s H p PStopped = (H = {})"

definition sys_inv :: "'s lease_system \<Rightarrow> bool" where
  "sys_inv sy \<longleftrightarrow> (\<forall>p. (\<forall>e \<in> sy_held sy p. safe (sy_clock sy) (sy_server sy) p e) \<and>
     proc_ok (sy_clock sy) (sy_server sy) (sy_held sy p) p (sy_proc sy p) \<and>
     (\<forall>req. (p, req) \<in> sy_net sy \<longrightarrow> net_ok (sy_clock sy) (sy_server sy) p req \<and>
        ((\<exists>v. req = RVacate v) \<longrightarrow> sy_proc sy p = PStopped)))"

lemmas ok_defs = state_ok_def lease_ok_def reply_ok_def net_ok_def claim_ok_def known_def

text \<open>Time passes and claims are handed out; nothing that is known becomes wrong.\<close>

lemma expired_mono: "expired t s \<Longrightarrow> t \<le> t' \<Longrightarrow> expired t' s"
  by (force simp: expired_def)

lemma safe_mono: "safe t s p e \<Longrightarrow> t \<le> t' \<Longrightarrow> safe t' s p e"
  by (auto simp: safe_def)

lemma state_ok_mono: "state_ok t s H p st \<Longrightarrow> t \<le> t' \<Longrightarrow> H \<subseteq> H' \<Longrightarrow> state_ok t' s H' p st"
  by (auto simp: state_ok_def claim_ok_def intro: expired_mono split: option.splits if_splits)

lemma lease_ok_mono: "lease_ok s H p lease \<Longrightarrow> H \<subseteq> H' \<Longrightarrow> lease_ok s H' p lease"
  unfolding lease_ok_def by blast

lemma reply_ok_mono: "reply_ok s H p req r \<Longrightarrow> H \<subseteq> H' \<Longrightarrow> reply_ok s H' p req r"
  unfolding reply_ok_def by blast

lemma proc_ok_mono:
  "proc_ok t s H p pr \<Longrightarrow> t \<le> t' \<Longrightarrow> H \<subseteq> H' \<Longrightarrow> pr \<noteq> PStopped \<or> H' = H \<Longrightarrow> proc_ok t' s H' p pr"
  by (cases pr) (auto intro: state_ok_mono lease_ok_mono reply_ok_mono)

lemma req_ok_mono: "req_ok t s p req \<Longrightarrow> t \<le> t' \<Longrightarrow> req_ok t' s p req"
  by (cases req) (auto intro: expired_mono)

lemma net_ok_mono: "net_ok t s p req \<Longrightarrow> t \<le> t' \<Longrightarrow> net_ok t' s p req"
  by (auto simp: net_ok_def intro: req_ok_mono)

text \<open>A write makes every version that is known stale.\<close>

lemma known_stale: "known s v \<Longrightarrow> gen s < gen s' \<Longrightarrow> known s' v \<and> v \<noteq> ver (gen s')"
  by (metis known_def less_le_trans nat_less_le not_le ver_inj)

lemma state_ok_write: "state_ok t s H p st \<Longrightarrow> gen s < gen s' \<Longrightarrow> state_ok t s' H p st"
  using known_stale[of s "meta_version (ls_meta st)" s'] by (auto simp: state_ok_def)

lemma lease_ok_write: "lease_ok s H p lease \<Longrightarrow> gen s < gen s' \<Longrightarrow> lease_ok s' H p lease"
  unfolding lease_ok_def by (metis le_less_trans less_imp_le less_irrefl)

lemma reply_ok_write: "reply_ok s H p req r \<Longrightarrow> gen s < gen s' \<Longrightarrow> reply_ok s' H p req r"
  unfolding reply_ok_def by (metis le_less_trans less_imp_le less_irrefl)

lemma proc_ok_write: "proc_ok t s H p pr \<Longrightarrow> gen s < gen s' \<Longrightarrow> proc_ok t s' H p pr"
  by (cases pr) (auto intro: state_ok_write lease_ok_write reply_ok_write)

lemma net_ok_write: "net_ok t s p req \<Longrightarrow> gen s < gen s' \<Longrightarrow> net_ok t s' p req"
  using known_stale[of s "req_version req" s'] by (auto simp: net_ok_def)


text \<open>The knowledge that each action rests on.\<close>

lemma parse_grant:
  assumes "parse_lease C lease = Some (Inr st)" and "lo_spec lease = lo_spec (srv_lease S s)"
  shows "grant s = map_option (\<lambda>c. (claim_holder c, claim_expiry c)) (ls_claim st)"
  using assms
  by (auto simp: parse_lease_def grant_def spec_grant_def Let_def seconds
      split: option.splits dest!: add)

lemma parse_lease_version':
  "parse_lease C lease = Some (Inr st) \<Longrightarrow> lo_resource_version lease = Some (meta_version (ls_meta st))"
  by (auto simp: parse_lease_def Let_def split: option.splits)

lemma read_state_ok:
  assumes "lease_ok s H p lease" and "parse_lease C lease = Some (Inr st)"
  shows "state_ok t s H p (drop_expired t st)"
proof -
  have "grant s = map_option (\<lambda>c. (claim_holder c, claim_expiry c)) (ls_claim st)"
    if "meta_version (ls_meta st) = ver (gen s)"
    using assms that parse_grant[OF assms(2)] parse_lease_version'[OF assms(2)]
    by (auto simp: lease_ok_def dest: ver_inj)
  then show ?thesis
    using assms parse_lease_version'[OF assms(2)]
    by (auto simp: lease_ok_def state_ok_def claim_ok_def known_def drop_expired_def expired_def own_expiry_def
        split: option.splits if_splits)
qed

lemma read_safe: "e \<in> read_expiry p (parse_lease C (srv_lease S s)) \<Longrightarrow> safe t s p e"
  using slack_pos
  by (cases "(p, parse_lease C (srv_lease S s))" rule: read_expiry.cases)
    (auto simp: own_expiry_def safe_def parse_grant split: option.splits if_splits)

lemma acquire_req_ok:
  assumes "state_ok t s H p st" and "claim_decision C p (par p) (ls_claim st) t = Some Acquire"
  shows "net_ok t s p (RAcquire (meta_version (ls_meta st)) n t)"
  using assms
  by (auto simp: state_ok_def net_ok_def claim_ok_def claim_decision_def is_current_def expired_def
      split: option.splits if_splits)

lemma renew_req_ok:
  assumes "state_ok t s H p st" and "claim_decision C p (par p) (ls_claim st) t = Some Renew"
  shows "net_ok t s p (RRenew (meta_version (ls_meta st)) n t)"
proof -
  from assms(2) obtain c x where c: "ls_claim st = Some c" "claim_holder c = p"
    and "ch_sub C (claim_expiry c) (claim_grace C (par p)) = Some x" "x \<le> t"
    by (auto simp: claim_decision_def renew_at_def split: option.splits if_splits)
  then have "claim_expiry c \<le> t + claim_grace C (par p)" using sub by fastforce
  with assms(1) c grace_bound[of p] show ?thesis
    by (fastforce simp: state_ok_def net_ok_def claim_ok_def)
qed

lemma vacate_req_ok:
  assumes "state_ok t s H p st" and "ls_claim st = Some c" and "claim_holder c = p"
  shows "net_ok t s p (RVacate (meta_version (ls_meta st)))"
  using assms by (auto simp: state_ok_def net_ok_def claim_ok_def)

text \<open>What an accepted request makes of the grant.\<close>

lemma accepted_grant:
  assumes "srv_patch S pp (req_patch C p (par p) req) s = (Inr lease, s')" and "net_ok t s p req"
  shows "grant s' = (case req of
      RAcquire v n now \<Rightarrow> Some (p, micro now + ch_num_seconds C (claim_duration C (par p)) * nanos)
    | RRenew v n now \<Rightarrow> Some (p, micro now + ch_num_seconds C (claim_duration C (par p)) * nanos)
    | RVacate v \<Rightarrow> None)"
    and "req_ok t s p req"
proof -
  obtain spec where spec: "lo_spec (srv_lease S s) = Some spec" using lease_has_spec by blast
  have "req_version req = ver (gen s)"
    using patch_accepted_version[OF assms(1)] by (cases req) auto
  with assms(2) show ok: "req_ok t s p req" by (simp add: net_ok_def)
  have "lo_spec (srv_lease S s') = Some (merge_spec micro (patch_body (req_patch C p (par p) req)) spec)"
    using patch_accepted[OF assms(1)] spec by auto
  with ok spec show "grant s' = (case req of
      RAcquire v n now \<Rightarrow> Some (p, micro now + ch_num_seconds C (claim_duration C (par p)) * nanos)
    | RRenew v n now \<Rightarrow> Some (p, micro now + ch_num_seconds C (claim_duration C (par p)) * nanos)
    | RVacate v \<Rightarrow> None)"
    by (cases req) (auto simp: grant_def spec_grant_def merge_spec_def acquire_patch_def renew_patch_def
        vacate_patch_def split: option.splits)
qed

lemma accepted_safe:
  assumes "srv_patch S pp (req_patch C p (par p) req) s = (Inr lease, s')" and "net_ok t s p req"
    and "safe t s q e" and "(\<exists>v. req = RVacate v) \<Longrightarrow> q \<noteq> p"
  shows "safe t s' q e"
proof (cases req)
  case (RAcquire v n now)
  with assms(3) accepted_grant(2)[OF assms(1,2)] show ?thesis by (auto simp: safe_def expired_def)
next
  case (RRenew v n now)
  with assms(3) accepted_grant[OF assms(1,2)] slack_bound[of now p] show ?thesis by (auto simp: safe_def)
next
  case (RVacate v)
  with assms(3,4) accepted_grant(2)[OF assms(1,2)] show ?thesis by (auto simp: safe_def)
qed

lemma accepted_expiry:
  assumes "srv_patch S pp (req_patch C p (par p) req) s = (Inr lease, s')" and "net_ok t s p req"
    and "e \<in> req_expiry C (par p) req"
  shows "\<exists>e'. grant s' = Some (p, e') \<and> e' \<le> e \<and> e \<le> e' + slack"
  using assms(3) accepted_grant(1)[OF assms(1,2)] slack_bound[of _ p] num_seconds_le[OF duration_pos[of p]] micro_le
  by (cases req) (auto intro: add_mono)

lemma reply_ok_accepted:
  assumes "srv_patch S pp (req_patch C p (par p) req) s = (Inr lease, s')" and "net_ok t s p req"
  shows "reply_ok s' (H \<union> req_expiry C (par p) req) p req (Inr lease)"
  using accepted_expiry[OF assms] patch_accepted[OF assms(1)] lease_version[of s']
  by (auto simp: reply_ok_def intro!: exI[of _ "gen s'"])

lemma granted_state_ok:
  assumes "reply_ok s H p req (Inr lease)" and "req_granted C p (par p) req lease = Some (Inr (c, meta))"
  shows "state_ok t s H p \<lparr>ls_meta = meta, ls_claim = Some c\<rparr>"
proof -
  have "claim_holder c = p" "lo_resource_version lease = Some (meta_version meta)"
    "req_expiry C (par p) req = {claim_expiry c}"
    using assms(2) by (cases req; force dest!: claim_granted_ok add)+
  with assms(1) show ?thesis
    by (auto simp: reply_ok_def state_ok_def known_def own_expiry_def claim_ok_def dest: ver_inj)
qed


text \<open>How the parts of a step keep the invariant.\<close>

lemma inv_held: "sys_inv sy \<Longrightarrow> e \<in> sy_held sy p \<Longrightarrow> safe (sy_clock sy) (sy_server sy) p e"
  by (simp add: sys_inv_def)

lemma inv_proc: "sys_inv sy \<Longrightarrow> sy_proc sy p = pr \<Longrightarrow> proc_ok (sy_clock sy) (sy_server sy) (sy_held sy p) p pr"
  by (auto simp: sys_inv_def)

lemma inv_net: "sys_inv sy \<Longrightarrow> (p, req) \<in> sy_net sy \<Longrightarrow> net_ok (sy_clock sy) (sy_server sy) p req"
  by (simp add: sys_inv_def)

lemma inv_stopped: "sys_inv sy \<Longrightarrow> (p, RVacate v) \<in> sy_net sy \<Longrightarrow> sy_held sy p = {}"
  by (metis inv_proc proc_ok.simps(6) sys_inv_def)

lemma inv_tick: "sys_inv sy \<Longrightarrow> sy_clock sy \<le> t \<Longrightarrow> sys_inv (sy\<lparr>sy_clock := t\<rparr>)"
  by (auto simp: sys_inv_def intro: safe_mono proc_ok_mono net_ok_mono)

lemma inv_set_proc:
  "sys_inv sy \<Longrightarrow> proc_ok (sy_clock sy) (sy_server sy) (sy_held sy p) p pr \<Longrightarrow> sy_proc sy p \<noteq> PStopped \<Longrightarrow>
   sys_inv (set_proc p pr sy)"
  by (auto simp: sys_inv_def set_proc_def)

lemma inv_hold:
  "sys_inv sy \<Longrightarrow> (\<And>e. e \<in> es \<Longrightarrow> safe (sy_clock sy) (sy_server sy) p e) \<Longrightarrow> sy_proc sy p \<noteq> PStopped \<Longrightarrow>
   sys_inv (hold p es sy)"
  by (auto simp: sys_inv_def hold_def intro: proc_ok_mono)

lemma inv_send:
  "sys_inv sy \<Longrightarrow> net_ok (sy_clock sy) (sy_server sy) p req \<Longrightarrow> ((\<exists>v. req = RVacate v) \<Longrightarrow> sy_proc sy p = PStopped) \<Longrightarrow>
   sys_inv (send p req sy)"
  by (auto simp: sys_inv_def send_def)

lemma inv_write:
  "sys_inv sy \<Longrightarrow> gen (sy_server sy) < gen s \<Longrightarrow>
   (\<And>p e. e \<in> sy_held sy p \<Longrightarrow> safe (sy_clock sy) s p e) \<Longrightarrow> sys_inv (sy\<lparr>sy_server := s\<rparr>)"
  by (auto simp: sys_inv_def intro: proc_ok_write net_ok_write)

lemma inv_served:
  assumes "sys_inv sy" and "(p, req) \<in> sy_net sy"
    and "srv_patch S pp (req_patch C p (par p) req) (sy_server sy) = (r, s)"
  shows "sys_inv (sy\<lparr>sy_server := s\<rparr>)"
proof (cases r)
  case (Inl e)
  with assms(3) patch_refused have "s = sy_server sy" by blast
  then have "sy\<lparr>sy_server := s\<rparr> = sy" by simp
  with assms(1) show ?thesis by simp
next
  case (Inr lease)
  note net = inv_net[OF assms(1,2)] and accepted = assms(3)[unfolded Inr]
  show ?thesis
  proof (rule inv_write[OF assms(1)])
    fix q e
    assume "e \<in> sy_held sy q"
    with inv_held[OF assms(1)] inv_stopped[OF assms(1)] assms(2) show "safe (sy_clock sy) s q e"
      by (intro accepted_safe[OF accepted net]) auto
  qed (use patch_accepted[OF accepted] in simp)
qed

lemma hold_set_proc: "hold p es (set_proc p pr sy) = set_proc p pr (hold p es sy)"
  by (simp add: hold_def set_proc_def)

lemma sys_fields [simp]:
  "sy_clock (hold p es sy) = sy_clock sy" "sy_server (hold p es sy) = sy_server sy"
  "sy_proc (hold p es sy) = sy_proc sy" "sy_held (hold p es sy) p = sy_held sy p \<union> es"
  "sy_clock (set_proc p pr sy) = sy_clock sy" "sy_server (set_proc p pr sy) = sy_server sy"
  "sy_held (set_proc p pr sy) = sy_held sy" "sy_proc (set_proc p pr sy) p = pr"
  by (simp_all add: hold_def set_proc_def)

lemma proc_of_not_stopped [simp]: "proc_of st \<noteq> PStopped"
  by (simp add: proc_of_def split: option.splits)

lemma proc_ok_of: "proc_ok t s H p (proc_of st) \<longleftrightarrow> (\<forall>st'. st = Some st' \<longrightarrow> state_ok t s H p st')"
  by (simp add: proc_of_def split: option.splits)


lemma serve_inv:
  assumes "sys_inv sy" and "(p, req) \<in> sy_net sy" and "sy_proc sy p = PWait st req"
    and "srv_patch S pp (req_patch C p (par p) req) (sy_server sy) = (r, s)"
  shows "sys_inv (hold p (if isl r then {} else req_expiry C (par p) req)
    (set_proc p (PReply st req r) (sy\<lparr>sy_server := s\<rparr>)))" (is "sys_inv (hold p ?es _)")
proof -
  let ?sy = "sy\<lparr>sy_server := s\<rparr>"
  note inv = inv_served[OF assms(1,2,4)] and net = inv_net[OF assms(1,2)]
  have st: "state_ok (sy_clock sy) s (sy_held sy p) p st"
    using inv_proc[OF inv, of p] assms(3) by simp
  have "sys_inv (hold p ?es ?sy)"
  proof (rule inv_hold[OF inv])
    fix e
    assume "e \<in> ?es"
    then show "safe (sy_clock ?sy) (sy_server ?sy) p e"
      using accepted_expiry[OF _ net] assms(4) by (cases r) (fastforce simp: safe_def)+
  qed (use assms(3) in simp)
  moreover have "reply_ok s (sy_held sy p \<union> ?es) p req r"
    using reply_ok_accepted[OF _ net] assms(4) by (cases r) (auto simp: reply_ok_def)
  ultimately show ?thesis
    unfolding hold_set_proc using state_ok_mono[OF st order_refl] assms(3)
    by (intro inv_set_proc) auto
qed

lemma read_inv:
  assumes "sys_inv sy" and "sy_proc sy p = proc_of st"
  shows "sys_inv (hold p (read_expiry p (parse_lease C (srv_lease S (sy_server sy))))
    (set_proc p (PRead st (srv_lease S (sy_server sy))) sy))" (is "sys_inv (hold p ?es _)")
proof -
  have st: "\<forall>st'. st = Some st' \<longrightarrow> state_ok (sy_clock sy) (sy_server sy) (sy_held sy p) p st'"
    using inv_proc[OF assms] by (simp add: proc_ok_of)
  have "sys_inv (hold p ?es sy)"
    using assms(2) by (intro inv_hold[OF assms(1)] read_safe) auto
  moreover have "lease_ok (sy_server sy) (sy_held sy p \<union> ?es) p (srv_lease S (sy_server sy))"
    using lease_version by (auto simp: lease_ok_def)
  ultimately show ?thesis
    unfolding hold_set_proc using st assms(2) state_ok_mono
    by (intro inv_set_proc) auto
qed

lemma vacate_inv:
  assumes "sys_inv sy" and "sy_proc sy p = PIdle st" and "ls_claim st = Some c" and "claim_holder c = p"
  shows "sys_inv (send p (RVacate (meta_version (ls_meta st)))
    (set_proc p PStopped (sy\<lparr>sy_held := (sy_held sy)(p := {})\<rparr>)))"
proof -
  have "net_ok (sy_clock sy) (sy_server sy) p (RVacate (meta_version (ls_meta st)))"
    using vacate_req_ok assms(3,4) inv_proc[OF assms(1,2)] by auto
  moreover have "sys_inv (set_proc p PStopped (sy\<lparr>sy_held := (sy_held sy)(p := {})\<rparr>))"
    using assms(1,2) by (auto simp: sys_inv_def set_proc_def)
  ultimately show ?thesis by (intro inv_send) auto
qed

lemma sys_step_inv: "sys_step oc C par S other sy sy' \<Longrightarrow> sys_inv sy \<Longrightarrow> sys_inv sy'"
proof (induction rule: sys_step.induct)
  case (tick sy t)
  then show ?case by (simp add: inv_tick)
next
  case (other_write sy s)
  then have "grant s = grant (sy_server sy)" "gen (sy_server sy) < gen s"
    using other_writer by (simp_all add: grant_def)
  then show ?case using inv_held[OF other_write(2)] other_write(2)
    by (intro inv_write) (simp_all add: safe_def)
next
  case (crash sy p)
  then show ?case by (simp add: inv_set_proc)
next
  case (read sy p st)
  then show ?case by (intro read_inv)
next
  case (read_ok sy p st0 lease st)
  then show ?case using inv_proc[OF read_ok(3,1)] read_state_ok by (intro inv_set_proc) auto
next
  case (read_failed sy p st0 lease)
  then show ?case using inv_proc[OF read_failed(2,1)] by (intro inv_set_proc) (auto simp: proc_ok_of)
next
  case (renew sy p st req)
  then show ?case using inv_proc[OF renew(4,1)] renew_req_ok
    by (intro inv_send inv_set_proc) auto
next
  case (acquire sy p st n req)
  then show ?case using inv_proc[OF acquire(5,1)] acquire_req_ok
    by (intro inv_send inv_set_proc) auto
next
  case (vacate sy p st c)
  then show ?case by (intro vacate_inv) (auto simp: is_current_for_def)
next
  case (serve p req sy pp r s st)
  then show ?case by (intro serve_inv)
next
  case (serve_lost p req sy pp r s)
  then show ?case by (intro inv_served)
next
  case (failed sy p st req e)
  then show ?case using inv_proc[OF failed(2)] by (intro inv_set_proc) fastforce+
next
  case (granted sy p st req lease c meta)
  then show ?case using inv_proc[OF granted(3,1)] granted_state_ok by (intro inv_set_proc) auto
next
  case (no_version sy p st req lease e)
  then show ?case using inv_proc[OF no_version(3,1)] by (intro inv_set_proc) auto
qed

lemma sys_reachable_inv:
  assumes "(sys_step oc C par S other)\<^sup>*\<^sup>* (sys_start t s) sy"
  shows "sys_inv sy"
  using assms
proof (induction rule: rtranclp_induct)
  case base
  then show ?case by (simp add: sys_inv_def sys_start_def)
next
  case (step sy sy')
  then show ?case using sys_step_inv by blast
qed

lemma inv_exclusive:
  assumes "sys_inv sy" and "e \<in> sy_held sy p" and "e' \<in> sy_held sy q"
    and "sy_clock sy + slack < e" and "sy_clock sy + slack < e'"
  shows "p = q"
  using inv_held[OF assms(1,2)] inv_held[OF assms(1,3)] assms(4,5) by (auto simp: safe_def)

lemma inv_cached:
  assumes "sys_inv sy" and "proc_state (sy_proc sy p) = Some st" and "ls_claim st = Some c" and "claim_holder c = p"
  shows "claim_expiry c \<in> sy_held sy p"
  using inv_proc[OF assms(1) refl, of p] assms(2-4)
  by (cases "sy_proc sy p") (auto simp: state_ok_def own_expiry_def)

end

subsection \<open>An instance\<close>

text \<open>
  The concrete server with the default parameters (30 s and 1 s): the duration is a whole number of
  seconds, so only the microseconds are lost.
\<close>

interpretation demo_protocol: lease_protocol ideal_chrono demo_server demo_version fst demo_micro
  "\<lambda>_. claim_params_default" "\<lambda>s s'. fst s < fst s' \<and> snd s' = snd s" 999
proof
  fix t
  show "t + claim_duration ideal_chrono claim_params_default \<le>
      demo_micro t + ch_num_seconds ideal_chrono (claim_duration ideal_chrono claim_params_default) * nanos + 999"
    using pos_mod_bound[of 1000 t]
    by (simp add: claim_duration_def ideal_chrono_def claim_params_default_def demo_micro_def)
qed (auto simp: claim_duration_def claim_grace_def ideal_chrono_def claim_params_default_def demo_server_def demo_lease_def)

text \<open>A run of the instance: one process reads the lease and acquires it.\<close>

lemma alice_holds:
  "\<exists>sy. (sys_step True ideal_chrono (\<lambda>_. claim_params_default) demo_server
        (\<lambda>s s'. fst s < fst s' \<and> snd s' = snd s))\<^sup>*\<^sup>* (sys_start 100 (0, unheld_lease)) sy \<and>
     sy_clock sy = 100 \<and> 100 + 30 * nanos \<in> sy_held sy ''alice''"
proof -
  let ?step = "sys_step True ideal_chrono (\<lambda>_. claim_params_default) demo_server
    (\<lambda>s s'. fst s < fst s' \<and> snd s' = snd s)"
  let ?s0 = "sys_start 100 (0, unheld_lease)"
  let ?st = "\<lparr>ls_meta = \<lparr>meta_version = '''', meta_transitions = 0\<rparr>, ls_claim = None\<rparr>"
  let ?req = "RAcquire '''' 1 100"
  let ?lease = "demo_lease (0, unheld_lease)"
  let ?s1 = "hold ''alice'' {} (set_proc ''alice'' (PRead None ?lease) ?s0)"
  let ?s2 = "set_proc ''alice'' (PIdle ?st) ?s1"
  let ?s3 = "send ''alice'' ?req (set_proc ''alice'' (PWait ?st ?req) ?s2)"
  have parsed: "parse_lease ideal_chrono ?lease = Some (Inr ?st)"
    by (simp add: parse_lease_def demo_lease_def unheld_lease_def demo_version_def u16_or_zero_def)
  have "?step ?s0 ?s1"
    using sys_step.read[of ?s0 "''alice''" None True ideal_chrono "\<lambda>_. claim_params_default" demo_server]
    by (simp add: parsed own_expiry_def sys_start_def proc_of_def demo_server_def)
  moreover have "?step ?s1 ?s2"
    using sys_step.read_ok[OF _ parsed, of ?s1 "''alice''" None]
    by (simp add: hold_def set_proc_def drop_expired_def)
  moreover have "?step ?s2 ?s3"
    by (rule sys_step.acquire[where n = 1])
      (simp_all add: claim_decision_def rust_add_def hold_def set_proc_def sys_start_def)
  moreover obtain r s where srv: "srv_patch demo_server \<lparr>pp_field_manager = None, pp_force = True\<rparr>
      (req_patch ideal_chrono ''alice'' claim_params_default ?req) (sy_server ?s3) = (r, s)" and r: "\<not> isl r"
    by (simp add: demo_server_def demo_patch_def acquire_patch_def demo_version_def sys_start_def
        hold_def set_proc_def send_def Let_def)
  let ?s4 = "hold ''alice'' (if isl r then {} else req_expiry ideal_chrono claim_params_default ?req)
    (set_proc ''alice'' (PReply ?st ?req r) (?s3\<lparr>sy_server := s\<rparr>))"
  have "?step ?s3 ?s4"
    using srv by (intro sys_step.serve) (simp_all add: send_def set_proc_def)
  ultimately have "?step\<^sup>*\<^sup>* ?s0 ?s4"
    by (meson rtranclp.rtrancl_into_rtrancl rtranclp.rtrancl_refl)
  moreover have "sy_clock ?s4 = 100" "100 + 30 * nanos \<in> sy_held ?s4 ''alice''"
    using r by (simp_all add: hold_def set_proc_def send_def sys_start_def claim_duration_def ideal_chrono_def
        claim_params_default_def)
  ultimately show ?thesis by blast
qed

subsection \<open>Properties\<close>



subsection \<open>The sequential operations run in the system\<close>

text \<open>
  \<open>follows sy p m w\<close>: the system can go from \<open>sy\<close>, by steps of process \<open>p\<close>
  and the server only, to a state where \<open>p\<close> is idle with the manager's cached state and the
  clock and the server are those of the world.
\<close>

definition at_rest :: "string \<Rightarrow> 'f lease_manager \<Rightarrow> timestamp \<times> 's \<Rightarrow> 's lease_system \<Rightarrow> bool" where
  "at_rest p m w sy \<longleftrightarrow> sy_proc sy p = PIdle (lm_state m) \<and> w = (sy_clock sy, sy_server sy)"

definition follows ::
  "bool \<Rightarrow> chrono \<Rightarrow> (string \<Rightarrow> claim_params) \<Rightarrow> 's lease_server \<Rightarrow> ('s \<Rightarrow> 's \<Rightarrow> bool) \<Rightarrow>
   's lease_system \<Rightarrow> string \<Rightarrow> 'f lease_manager \<Rightarrow> timestamp \<times> 's \<Rightarrow> bool" where
  "follows oc C par S other sy p m w \<longleftrightarrow>
     (\<exists>sy'. (sys_step oc C par S other)\<^sup>*\<^sup>* sy sy' \<and> at_rest p m w sy' \<and>
        (\<forall>q. q \<noteq> p \<longrightarrow> sy_proc sy' q = sy_proc sy q))"

lemma follows_now: "at_rest p m w sy \<Longrightarrow> follows oc C par S other sy p m w"
  by (auto simp: follows_def)

lemma follows_step:
  "sys_step oc C par S other sy sy1 \<Longrightarrow> follows oc C par S other sy1 p m w \<Longrightarrow>
   (\<And>q. q \<noteq> p \<Longrightarrow> sy_proc sy1 q = sy_proc sy q) \<Longrightarrow> follows oc C par S other sy p m w"
  unfolding follows_def by (metis converse_rtranclp_into_rtranclp)

lemma follows_trans:
  "follows oc C par S other sy p m w \<Longrightarrow>
   (\<And>sy'. at_rest p m w sy' \<Longrightarrow> follows oc C par S other sy' p m' w') \<Longrightarrow> follows oc C par S other sy p m' w'"
  unfolding follows_def by (metis rtranclp_trans)

lemma direct_inspect_same:
  "lm_inspect oc (direct_api S) claim version m w = (ok, m', w') \<Longrightarrow> w' = w \<and> lm_state m' = lm_state m"
  by (auto simp: lm_inspect_def ld_inspect_def direct_api_def split: option.splits if_splits)

lemma resync_follows:
  assumes "lm_resync oc C (direct_api S) m w = (Some r, m', w')" and "at_rest p m w sy"
  shows "follows oc C par S other sy p m' w'"
proof -
  let ?lease = "srv_lease S (sy_server sy)"
  let ?sy = "hold p (read_expiry p (parse_lease C ?lease)) (set_proc p (PRead (Some (lm_state m)) ?lease) sy)"
  have "sys_step oc C par S other sy ?sy"
    using assms(2) by (intro sys_step.read) (simp add: at_rest_def proc_of_def)
  moreover have "follows oc C par S other ?sy p m' w'"
  proof (cases "\<exists>st. parse_lease C ?lease = Some (Inr st)")
    case True
    then obtain st where st: "parse_lease C ?lease = Some (Inr st)" by blast
    then have "lm_state m' = drop_expired (sy_clock sy) st" "w' = w"
      using assms
      by (auto simp: lm_resync_def lm_get_def direct_api_def[of S] at_rest_def lm_inspect_state_def drop_expired_def
          split: prod.splits option.splits if_splits dest!: direct_inspect_same[unfolded direct_api_def])
    moreover have "sys_step oc C par S other ?sy (set_proc p (PIdle (drop_expired (sy_clock ?sy) st)) ?sy)"
      using st by (intro sys_step.read_ok) (auto simp: hold_def set_proc_def)
    ultimately show ?thesis using assms(2)
      by (auto intro!: follows_step[OF _ follows_now] simp: hold_def set_proc_def at_rest_def)
  next
    case False
    then have "m' = m" "w' = w"
      using assms
      by (auto simp: lm_resync_def lm_get_def direct_api_def at_rest_def split: prod.splits option.splits sum.splits)
    moreover have "sys_step oc C par S other ?sy (set_proc p (proc_of (Some (lm_state m))) ?sy)"
      by (rule sys_step.read_failed) (simp add: hold_def set_proc_def)
    ultimately show ?thesis using assms(2)
      by (auto intro!: follows_step[OF _ follows_now] simp: hold_def set_proc_def at_rest_def proc_of_def)
  qed
  ultimately show ?thesis
    by (rule follows_step) (simp add: hold_def set_proc_def)
qed


lemma direct_decide:
  "at_rest p m w sy \<Longrightarrow> lm_decide C (direct_api S) p params (lm_claimed m) w = (Some d, w') \<Longrightarrow>
   claim_decision C p params (ls_claim (lm_state m)) (sy_clock sy) = Some d \<and> w' = w"
  by (auto simp: lm_decide_def direct_api_def at_rest_def lm_claimed_def claim_decision_def
      split: option.splits if_splits)

text \<open>A request that was sent and answered.\<close>

lemma request_follows:
  assumes "sy_proc sy p = PWait (lm_state m) req" and "(p, req) \<in> sy_net sy"
    and "lm_patch (direct_api S) m (req_patch C p (par p) req) (sy_clock sy, sy_server sy) = (pr, w1)"
    and "r = (case pr of Inl e \<Rightarrow> Some (Inl e) | Inr lease \<Rightarrow> req_granted C p (par p) req lease)"
    and "lm_settle oc C (direct_api S) m (r, w1) = (ctl, m', w')" and "ctl \<noteq> Break None"
  shows "follows oc C par S other sy p m' w'"
proof -
  obtain pp r0 s where srv: "srv_patch S pp (req_patch C p (par p) req) (sy_server sy) = (r0, s)"
    and w1: "w1 = (sy_clock sy, s)" and pr: "pr = (case r0 of Inl e \<Rightarrow> Inl (EApi e) | Inr lease \<Rightarrow> Inr lease)"
    using assms(3) by (auto simp: lm_patch_def Let_def direct_api_def split: prod.splits sum.splits)
  let ?sy = "hold p (if isl r0 then {} else req_expiry C (par p) req)
    (set_proc p (PReply (lm_state m) req r0) (sy\<lparr>sy_server := s\<rparr>))"
  have served: "sys_step oc C par S other sy ?sy"
    using assms(1,2) srv by (intro sys_step.serve) auto
  have *: "sy_proc ?sy p = PReply (lm_state m) req r0" "sy_clock ?sy = sy_clock sy" "sy_server ?sy = s"
    by (simp_all add: hold_def set_proc_def)
  have "follows oc C par S other ?sy p m' w'"
  proof (cases r)
    case None
    with assms(5,6) show ?thesis by (simp add: lm_settle_def)
  next
    case (Some rr)
    show ?thesis
    proof (cases rr)
      case (Inl e)
      have "sys_step oc C par S other ?sy (set_proc p (PIdle (lm_state m)) ?sy)"
      proof (cases r0)
        case (Inl e0)
        with * show ?thesis by (intro sys_step.failed[where req = req and e = e0]) simp
      next
        case (Inr lease)
        with assms(4) Some \<open>rr = Inl e\<close> pr have "req_granted C p (par p) req lease = Some (Inl e)" by simp
        with * Inr show ?thesis by (intro sys_step.no_version[where req = req and lease = lease]) simp_all
      qed
      moreover have "follows oc C par S other (set_proc p (PIdle (lm_state m)) ?sy) p m w1"
        by (rule follows_now) (simp add: at_rest_def set_proc_def hold_def w1)
      ultimately have idle: "follows oc C par S other ?sy p m w1"
        by (rule follows_step) (simp add: set_proc_def)
      show ?thesis
      proof (cases "is_conflict e")
        case True
        then obtain x where "lm_resync oc C (direct_api S) m w1 = (Some x, m', w')"
          using assms(5,6) Some Inl by (auto simp: lm_settle_def split: prod.splits option.splits sum.splits)
        with idle resync_follows show ?thesis by (metis follows_trans)
      next
        case False
        with assms(5) Some Inl idle show ?thesis by (simp add: lm_settle_def)
      qed
    next
      case (Inr cm)
      obtain c meta where cm: "cm = (c, meta)" by fastforce
      obtain lease where r0: "r0 = Inr lease" and g: "req_granted C p (par p) req lease = Some (Inr (c, meta))"
        using assms(4) Some Inr cm pr by (cases r0) auto
      have "sys_step oc C par S other ?sy (set_proc p (PIdle \<lparr>ls_meta = meta, ls_claim = Some c\<rparr>) ?sy)"
        using r0 by (intro sys_step.granted[where par = par, OF _ g]) (simp add: hold_def set_proc_def)
      moreover have "follows oc C par S other (set_proc p (PIdle \<lparr>ls_meta = meta, ls_claim = Some c\<rparr>) ?sy) p m' w'"
        using assms(5) Some Inr cm w1
        by (intro follows_now) (auto simp: lm_settle_def lm_inspect_state_def at_rest_def hold_def set_proc_def
            split: prod.splits if_splits dest!: direct_inspect_same)
      ultimately show ?thesis by (rule follows_step) (simp add: set_proc_def)
    qed
  qed
  with served show ?thesis by (rule follows_step) (simp add: hold_def set_proc_def)
qed

lemma once_follows:
  assumes "ensure_claimed_once oc C (direct_api S) p (par p) m w = (ctl, m', w')" and "ctl \<noteq> Break None"
    and "at_rest p m w sy"
  shows "follows oc C par S other sy p m' w'"
proof -
  obtain d w1 where d: "lm_decide C (direct_api S) p (par p) (lm_claimed m) w = (d, w1)"
    using prod.exhaust by blast
  show ?thesis
  proof (cases d)
    case None
    with assms(1,2) d show ?thesis by (simp add: ensure_claimed_once_def)
  next
    case (Some a)
    note dec = direct_decide[OF assms(3) d[unfolded Some]]
    have w: "w = (sy_clock sy, sy_server sy)" and st: "sy_proc sy p = PIdle (lm_state m)"
      using assms(3) by (auto simp: at_rest_def)
    let ?v = "meta_version (ls_meta (lm_state m))" and ?n = "meta_transitions (ls_meta (lm_state m))"
    show ?thesis
    proof (cases a)
      case (Keep c)
      with assms(1,3) d Some dec show ?thesis
        by (auto simp: ensure_claimed_once_def intro!: follows_now)
    next
      case Renew
      let ?req = "RRenew ?v ?n (sy_clock sy)"
      let ?sy = "send p ?req (set_proc p (PWait (lm_state m) ?req) sy)"
      obtain pr w2 where pr: "lm_patch (direct_api S) m (req_patch C p (par p) ?req) (sy_clock ?sy, sy_server ?sy) = (pr, w2)"
        using prod.exhaust by blast
      have "lm_settle oc C (direct_api S) m
          (case pr of Inl e \<Rightarrow> Some (Inl e) | Inr lease \<Rightarrow> req_granted C p (par p) ?req lease, w2) = (ctl, m', w')"
        using assms(1) d Some Renew dec pr
        by (auto simp: ensure_claimed_once_def lm_renew_def Let_def w direct_api_def[of S] send_def set_proc_def
            split: sum.splits)
      then have fol: "follows oc C par S other ?sy p m' w'"
        by (intro request_follows[where par = par, OF _ _ pr refl _ assms(2)]) (simp_all add: send_def set_proc_def)
      have "sys_step oc C par S other sy ?sy"
        using st dec Renew by (intro sys_step.renew) auto
      then show ?thesis using fol by (rule follows_step) (simp add: send_def set_proc_def)
    next
      case Acquire
      obtain n where n: "rust_add oc ?n 1 = Some n"
        using assms(1,2) d Some Acquire
        by (cases "rust_add oc ?n 1") (auto simp: ensure_claimed_once_def lm_acquire_def Let_def lm_settle_def split: prod.splits)
      let ?req = "RAcquire ?v n (sy_clock sy)"
      let ?sy = "send p ?req (set_proc p (PWait (lm_state m) ?req) sy)"
      obtain pr w2 where pr: "lm_patch (direct_api S) m (req_patch C p (par p) ?req) (sy_clock ?sy, sy_server ?sy) = (pr, w2)"
        using prod.exhaust by blast
      have "lm_settle oc C (direct_api S) m
          (case pr of Inl e \<Rightarrow> Some (Inl e) | Inr lease \<Rightarrow> req_granted C p (par p) ?req lease, w2) = (ctl, m', w')"
        using assms(1) d Some Acquire dec pr n
        by (auto simp: ensure_claimed_once_def lm_acquire_def Let_def w direct_api_def[of S] send_def set_proc_def
            split: sum.splits)
      then have fol: "follows oc C par S other ?sy p m' w'"
        by (intro request_follows[where par = par, OF _ _ pr refl _ assms(2)]) (simp_all add: send_def set_proc_def)
      have "sys_step oc C par S other sy ?sy"
        using st dec Acquire n by (intro sys_step.acquire) auto
      then show ?thesis using fol by (rule follows_step) (simp add: send_def set_proc_def)
    qed
  qed
qed





end
