(* ===== verification/Unit_Tests.thy ===== *)
theory Unit_Tests
  imports Index Requeue Log_And_Sleep Initialized Shutdown
begin

text \<open>
  The unit tests of the crate (the \<open>tests\<close> modules of \<open>kubert/src/index.rs\<close>,
  \<open>requeue.rs\<close>, \<open>errors.rs\<close>, \<open>initialized.rs\<close> and \<open>shutdown.rs\<close>), run on
  the model. A test is a computation in the option monad that fails on a panic, on a poll that does
  not return, and on an assertion that does not hold. Channels, timers, semaphores and the drain are the concrete
  instances of the contracts; instants are milliseconds.
\<close>

definition assert_that :: "bool \<Rightarrow> unit option" where
  "assert_that b = (if b then Some () else None)"

lemma assert_that_True [simp]: "assert_that True = Some ()"
  by (simp add: assert_that_def)

text \<open>\<open>ReceiverStream\<close> and a \<open>oneshot\<close> receiver.\<close>

definition receiver_stream :: "('a list \<times> bool, 'a option) poll_fn" where
  "receiver_stream now c = rx_poll_recv list_rx c"

definition try_send :: "'a \<Rightarrow> 'a list \<times> bool \<Rightarrow> 'a list \<times> bool" where
  "try_send a c = (fst c @ [a], snd c)"

definition oneshot_rx :: "('a option, 'a) poll_fn" where
  "oneshot_rx now s = (case s of None \<Rightarrow> (Pending, None) | Some a \<Rightarrow> (Ready a, Some a))"

subsection \<open>requeue.rs\<close>

type_synonym test_receiver = "(string rq_op list \<times> bool, string timer_wheel, nat, string) rq_receiver"

definition spawn_channel :: test_receiver where
  "spawn_channel = rq_channel wheel ([], False)"

definition test_requeue :: "instant \<Rightarrow> string \<Rightarrow> nat \<Rightarrow> test_receiver \<Rightarrow> test_receiver option" where
  "test_requeue now obj defer r =
     do { (res, c) \<leftarrow> rq_requeue list_tx now obj defer (rq_rx r); assert_that (res = Inr ()); Some (r\<lparr>rq_rx := c\<rparr>) }"

definition test_cancel :: "string \<Rightarrow> test_receiver \<Rightarrow> test_receiver option" where
  "test_cancel obj r = do { (res, c) \<leftarrow> rq_cancel list_tx obj (rq_rx r); assert_that (res = Inr ()); Some (r\<lparr>rq_rx := c\<rparr>) }"

definition test_clear :: "test_receiver \<Rightarrow> test_receiver option" where
  "test_clear r = (case rq_clear list_tx (rq_rx r) of (res, c) \<Rightarrow> do { assert_that (res = Inr ()); Some (r\<lparr>rq_rx := c\<rparr>) })"

definition drop_sender :: "test_receiver \<Rightarrow> test_receiver" where
  "drop_sender r = r\<lparr>rq_rx := (fst (rq_rx r), True)\<rparr>"

text \<open>A poll together with the outcome it must have.\<close>

definition expect_poll :: "instant \<Rightarrow> string option poll \<Rightarrow> test_receiver \<Rightarrow> test_receiver option" where
  "expect_poll now p r =
     (case poll_requeued list_rx wheel now r of
        Some (Some (out, r)) \<Rightarrow> do { assert_that (out = p); Some r }
      | _ \<Rightarrow> None)"

definition test_delays :: "unit option" where
  "test_delays =
     do { r \<leftarrow> test_requeue 0 ''pod-a'' 10000 spawn_channel;
          r \<leftarrow> expect_poll 0 Pending r;
          r \<leftarrow> expect_poll 10001 (Ready (Some ''pod-a'')) r;
          r \<leftarrow> expect_poll 10001 Pending r;
          Some () }"

definition test_drains_after_sender_dropped :: "unit option" where
  "test_drains_after_sender_dropped =
     do { r \<leftarrow> test_requeue 0 ''pod-a'' 10000 spawn_channel;
          r \<leftarrow> expect_poll 0 Pending (drop_sender r);
          r \<leftarrow> expect_poll 11000 (Ready (Some ''pod-a'')) r;
          r \<leftarrow> expect_poll 11000 (Ready None) r;
          Some () }"

definition test_resets :: "unit option" where
  "test_resets =
     do { r \<leftarrow> test_requeue 0 ''pod-a'' 10000 spawn_channel;
          r \<leftarrow> expect_poll 0 Pending r;
          r \<leftarrow> test_requeue 9000 ''pod-a'' 10000 r;
          r \<leftarrow> expect_poll 10001 Pending r;
          r \<leftarrow> expect_poll 19001 (Ready (Some ''pod-a'')) r;
          r \<leftarrow> expect_poll 19001 Pending r;
          Some () }"

definition test_cancels :: "unit option" where
  "test_cancels =
     do { r \<leftarrow> test_requeue 0 ''pod-a'' 10000 spawn_channel;
          r \<leftarrow> expect_poll 0 Pending r;
          r \<leftarrow> test_cancel ''pod-a'' r;
          r \<leftarrow> expect_poll 10001 Pending r;
          Some () }"

definition test_clears :: "unit option" where
  "test_clears =
     do { r \<leftarrow> test_requeue 0 ''pod-a'' 10000 spawn_channel;
          r \<leftarrow> expect_poll 0 Pending r;
          r \<leftarrow> test_clear r;
          r \<leftarrow> expect_poll 10001 Pending r;
          Some () }"

lemmas requeue_eval = spawn_channel_def rq_channel_def test_requeue_def rq_requeue_def rq_requeue_at_def test_cancel_def rq_cancel_def
  test_clear_def rq_clear_def drop_sender_def expect_poll_def poll_requeued_def list_recv_loop list_tx_def wheel_def wheel_due_def
  rq_dequeue_def rq_finish_def

lemma requeue_tests:
  "test_delays = Some ()" "test_drains_after_sender_dropped = Some ()" "test_resets = Some ()" "test_cancels = Some ()"
  "test_clears = Some ()"
  by (simp_all add: test_delays_def test_drains_after_sender_dropped_def test_resets_def test_cancels_def test_clears_def requeue_eval)

subsection \<open>index.rs\<close>

definition test_listing :: "'r list \<Rightarrow> 'r event list" where
  "test_listing rs = Init # map InitApply rs @ [InitDone]"

definition test_namespaced_restart :: "unit option" where
  "test_namespaced_restart =
     (let ix = ns_cache sorted_list_of_set pod_ext in
      do { (st, state) \<leftarrow> fold_opt (namespaced_step pod_ext ix) (test_listing [pod ''pod-0'', pod ''pod-1'']) (ns_loop_init, Map.empty);
           assert_that (state = [''default'' \<mapsto> {''pod-0'', ''pod-1''}]);
           (st, state) \<leftarrow> fold_opt (namespaced_step pod_ext ix) (test_listing [pod ''pod-1'', pod ''pod-2'']) (st, state);
           assert_that (state = [''default'' \<mapsto> {''pod-1'', ''pod-2''}]) })"

definition test_clustered_restart :: "unit option" where
  "test_clustered_restart =
     (let ix = cluster_cache sorted_list_of_set pod_ext in
      do { (st, state) \<leftarrow> fold_opt (cluster_step pod_ext ix) (test_listing [pod ''pod-0'', pod ''pod-1'']) (cluster_loop_init, {});
           assert_that (state = {''pod-0'', ''pod-1''});
           (st, state) \<leftarrow> fold_opt (cluster_step pod_ext ix) (test_listing [pod ''pod-1'', pod ''pod-2'']) (st, state);
           assert_that (state = {''pod-1'', ''pod-2''}) })"

lemmas index_eval = test_listing_def Let_def ns_cache_def ns_loop_init_def ns_reset_default_def ns_cache_apply_def ns_cache_delete_def
  ns_insert_def ns_remove_def ns_forget_def cluster_cache_def cluster_loop_init_def cluster_reset_default_def cluster_cache_apply_def
  cluster_cache_delete_def

lemma index_tests: "test_namespaced_restart = Some ()" "test_clustered_restart = Some ()"
  by (simp_all add: test_namespaced_restart_def test_clustered_restart_def index_eval insert_commute insert_Diff_if)

subsection \<open>errors.rs\<close>

type_synonym test_las = "((string + string) list \<times> bool) log_and_sleep"

definition test_las_new :: test_las where
  "test_las_new = las_fixed_delay 0 3000 ([], False)"

definition las_send :: "string + string \<Rightarrow> test_las \<Rightarrow> test_las" where
  "las_send x st = st\<lparr>las_stream := try_send x (las_stream st)\<rparr>"

definition las_expect :: "instant \<Rightarrow> string option poll \<Rightarrow> test_las \<Rightarrow> test_las option" where
  "las_expect now p st =
     do { (out, st) \<leftarrow> las_poll_next (\<lambda>now deadline. deadline \<le> now) receiver_stream now st; assert_that (out = p); Some st }"

definition test_does_not_delay_after_ok :: "unit option" where
  "test_does_not_delay_after_ok =
     do { st \<leftarrow> las_expect 0 Pending test_las_new;
          st \<leftarrow> las_expect 0 (Ready (Some ''first'')) (las_send (Inr ''first'') st);
          st \<leftarrow> las_expect 0 Pending (las_send (Inl ''second'') st);
          st \<leftarrow> las_expect 0 (Ready (Some ''third'')) (las_send (Inr ''third'') st);
          Some () }"

definition test_delays_on_repeated_errors :: "unit option" where
  "test_delays_on_repeated_errors =
     do { st \<leftarrow> las_expect 0 Pending test_las_new;
          st \<leftarrow> las_expect 0 Pending (las_send (Inl ''first'') st);
          st \<leftarrow> las_expect 0 Pending (las_send (Inr ''third'') (las_send (Inl ''second'') st));
          st \<leftarrow> las_expect 2999 Pending st;
          st \<leftarrow> las_expect 3000 (Ready (Some ''third'')) st;
          Some () }"

lemma errors_tests: "test_does_not_delay_after_ok = Some ()" "test_delays_on_repeated_errors = Some ()"
  by (simp_all add: test_does_not_delay_after_ok_def test_delays_on_repeated_errors_def test_las_new_def las_fixed_delay_def las_send_def
      las_expect_def try_send_def receiver_stream_def list_rx_def las_poll_next.simps)

subsection \<open>initialized.rs\<close>

definition init_expect :: "unit poll \<Rightarrow> nat initialized \<Rightarrow> unit option" where
  "init_expect p i = assert_that (initialized_poll counting_semaphore i = p)"

definition drop_handle :: "nat initialized \<Rightarrow> nat initialized" where
  "drop_handle i = i\<lparr>ini_semaphore := handle_drop counting_semaphore (ini_semaphore i)\<rparr>"

definition test_initializes :: "unit option" where
  "test_initializes = init_expect (Ready ()) (initialized_default counting_semaphore)"

definition test_initializes_on_drop :: "unit option" where
  "test_initializes_on_drop =
     do { i \<leftarrow> add_handle True counting_semaphore (initialized_default counting_semaphore);
          i \<leftarrow> add_handle True counting_semaphore i;
          init_expect Pending i;
          init_expect Pending (drop_handle i);
          init_expect (Ready ()) (drop_handle (drop_handle i)) }"

definition test_initializes_on_future :: "unit option" where
  "test_initializes_on_future =
     do { i \<leftarrow> add_handle True counting_semaphore (initialized_default counting_semaphore);
          let (p, rx, sem) = ror_poll counting_semaphore oneshot_rx 0 (release_on_ready (None :: string option), ini_semaphore i);
          assert_that (p = Pending);
          init_expect Pending (i\<lparr>ini_semaphore := sem\<rparr>);
          let (p, rx, sem) = ror_poll counting_semaphore oneshot_rx 0 (rx\<lparr>ror_inner := Some ''hello''\<rparr>, sem);
          assert_that (is_ready p);
          init_expect (Ready ()) (i\<lparr>ini_semaphore := sem\<rparr>) }"

definition test_initializes_on_stream :: "unit option" where
  "test_initializes_on_stream =
     do { i \<leftarrow> add_handle True counting_semaphore (initialized_default counting_semaphore);
          let (p, rx, sem) = ror_poll counting_semaphore receiver_stream 0 (release_on_ready ([] :: string list, False), ini_semaphore i);
          assert_that (p = Pending);
          init_expect Pending (i\<lparr>ini_semaphore := sem\<rparr>);
          let (p, rx, sem) = ror_poll counting_semaphore receiver_stream 0 (rx\<lparr>ror_inner := try_send ''hello'' (ror_inner rx)\<rparr>, sem);
          assert_that (is_ready p);
          init_expect (Ready ()) (i\<lparr>ini_semaphore := sem\<rparr>) }"

lemma initialized_tests:
  "test_initializes = Some ()" "test_initializes_on_drop = Some ()" "test_initializes_on_future = Some ()"
  "test_initializes_on_stream = Some ()"
  by (simp_all add: test_initializes_def test_initializes_on_drop_def test_initializes_on_future_def test_initializes_on_stream_def
      init_expect_def initialized_default_def initialized_poll_def counting_semaphore_def add_handle_def rust_add_def drop_handle_def
      handle_drop_def ror_poll_def release_on_ready_def oneshot_rx_def receiver_stream_def list_rx_def try_send_def)

subsection \<open>shutdown.rs\<close>

text \<open>
  The drain is signaled by the first poll of \<open>shutdown_tx.drain()\<close>, and completes when no watch is
  alive. The watch of a \<open>CancelOnShutdown\<close> is released when its async block ends.
\<close>

definition drain_poll :: "nat \<times> bool \<Rightarrow> unit poll \<times> (nat \<times> bool)" where
  "drain_poll d = (let d = dr_signal counting_drain d in (if dr_drained counting_drain d then Ready () else Pending, d))"

definition watch_poll :: "nat \<times> bool \<Rightarrow> (unit, unit) poll_fn" where
  "watch_poll d now u = (if dr_signaled counting_drain d then Ready () else Pending, u)"

definition watch_released :: "('s, unit) cancel_on_shutdown \<Rightarrow> nat \<times> bool \<Rightarrow> nat \<times> bool" where
  "watch_released st d = (case cos_shutdown st of Finished \<Rightarrow> (fst d - 1, snd d) | Running _ \<Rightarrow> d)"

definition test_cancel_stream_drains :: "unit option" where
  "test_cancel_stream_drains =
     (let d = (1, False); st = cos_new () ([1, 2, 3 :: nat], False) in
      do { (p, st) \<leftarrow> cos_poll_next receiver_stream (watch_poll d) 0 st; assert_that (p = Ready (Some 1));
           (p, st) \<leftarrow> cos_poll_next receiver_stream (watch_poll d) 0 st; assert_that (p = Ready (Some 2));
           (p, st) \<leftarrow> cos_poll_next receiver_stream (watch_poll d) 0 st; assert_that (p = Ready (Some 3));
           let (q, d) = drain_poll d; assert_that (q = Pending);
           (p, st) \<leftarrow> cos_poll_next receiver_stream (watch_poll d) 0 st; assert_that (p = Ready None);
           let (q, d) = drain_poll (watch_released st d); assert_that (q = Ready ()) })"

definition test_cancel_future_ends :: "unit option" where
  "test_cancel_future_ends =
     (let d = (1, False); st = cos_new () (None :: unit option) in
      do { (p, st) \<leftarrow> cos_poll oneshot_rx (watch_poll d) 0 st; assert_that (p = Pending);
           let (q, d) = drain_poll d; assert_that (q = Pending);
           (p, st) \<leftarrow> cos_poll oneshot_rx (watch_poll d) 0 st; assert_that (p = Ready ());
           let (q, d) = drain_poll (watch_released st d); assert_that (q = Ready ()) })"

lemma shutdown_tests: "test_cancel_stream_drains = Some ()" "test_cancel_future_ends = Some ()"
  by (simp_all add: test_cancel_stream_drains_def test_cancel_future_ends_def Let_def cos_new_def cos_poll_next_def cos_poll_def
      receiver_stream_def list_rx_def watch_poll_def drain_poll_def watch_released_def counting_drain_def oneshot_rx_def)

end
