(* ===== verification/Lease_Tests.thy ===== *)
theory Lease_Tests
  imports Lease Unit_Tests
begin

text \<open>
  The integration tests of the lease manager (\<open>examples/tests/lease.rs\<close>), run on the model against the
  server of \<open>Lease_Server\<close> in place of a cluster. The clock stands still except where a test sleeps or waits
  for a claim to expire.
\<close>

type_synonym test_world = "timestamp \<times> nat \<times> lease_spec"
type_synonym test_manager = "unit lease_manager"

abbreviation test_api :: "test_world lease_api" where
  "test_api \<equiv> direct_api demo_server"

text \<open>\<open>Handle::setup\<close> creates an empty lease.\<close>

definition test_setup :: test_world where
  "test_setup = (1000000000000, 0, unheld_lease)"

definition test_init_new :: "test_world \<Rightarrow> (test_manager \<times> test_world) option" where
  "test_init_new w = (case lm_init ideal_chrono test_api ''kubert-test'' w of (Some (Inr m), w) \<Rightarrow> Some (m, w) | _ \<Rightarrow> None)"

definition test_claim ::
  "string \<Rightarrow> claim_params \<Rightarrow> test_manager \<times> test_world \<Rightarrow> (lease_claim \<times> test_manager \<times> test_world) option" where
  "test_claim identity params mw =
     (case ensure_claimed True ideal_chrono test_api identity params (fst mw) (snd mw) of
        Some (Some (Inr claim), m, w) \<Rightarrow> Some (claim, m, w)
      | _ \<Rightarrow> None)"

definition test_vacate :: "string \<Rightarrow> test_manager \<times> test_world \<Rightarrow> (bool \<times> test_manager \<times> test_world) option" where
  "test_vacate identity mw =
     (case lm_vacate True test_api identity (fst mw) (snd mw) of
        (Some (Inr released), m, w) \<Rightarrow> Some (released, m, w)
      | _ \<Rightarrow> None)"

definition test_sleep :: "duration option \<Rightarrow> test_world \<Rightarrow> test_world" where
  "test_sleep d w = (case d of None \<Rightarrow> w | Some d \<Rightarrow> (fst w + int d, snd w))"

abbreviation current_for :: "test_world \<Rightarrow> string \<Rightarrow> lease_claim \<Rightarrow> bool" where
  "current_for w identity claim \<equiv> is_current_for (fst w) identity claim"

text \<open>\<open>assert_time_eq!\<close> compares times as milliseconds, a field that is missing fails the test.\<close>

definition time_eq :: "timestamp option \<Rightarrow> timestamp \<Rightarrow> bool" where
  "time_eq a b \<longleftrightarrow> (case a of None \<Rightarrow> False | Some a \<Rightarrow> a div 1000000 = b div 1000000)"

definition test_secs :: "nat \<Rightarrow> duration" where
  "test_secs n = n * 1000000000"

definition test_params :: "nat \<Rightarrow> claim_params" where
  "test_params n = claim_params_default\<lparr>cp_lease_duration := test_secs n\<rparr>"

definition claimed_at :: "lease_claim \<Rightarrow> claim_params \<Rightarrow> timestamp" where
  "claimed_at claim params = claim_expiry claim - int (cp_lease_duration params)"

definition test_exclusive :: "unit option" where
  "test_exclusive =
     (let params = test_params 3 in
      do { (lease0, w) \<leftarrow> test_init_new test_setup;
           (claim0, lease0, w) \<leftarrow> test_claim ''alice'' params (lease0, w);
           assert_that (current_for w ''alice'' claim0);
           (lease1, w) \<leftarrow> test_init_new w;
           (claim1, lease1, w) \<leftarrow> test_claim ''bob'' params (lease1, w);
           assert_that (claim_holder claim0 = claim_holder claim1);
           assert_that (claim_expiry claim0 div 1000000000 = claim_expiry claim1 div 1000000000);
           assert_that (current_for w ''alice'' claim0);
           assert_that (current_for w ''alice'' claim1);
           assert_that (\<not> current_for w ''bob'' claim0);
           assert_that (\<not> current_for w ''bob'' claim1);
           let rsrc = snd (snd w);
           assert_that (sp_holder_identity rsrc = Some ''alice'');
           assert_that (time_eq (sp_renew_time rsrc) (claimed_at claim0 params));
           assert_that (time_eq (sp_acquire_time rsrc) (the (sp_renew_time rsrc)));
           assert_that (sp_lease_duration_seconds rsrc = Some 3);
           assert_that (sp_lease_transitions rsrc = Some 1) })"

definition test_expires :: "unit option" where
  "test_expires =
     (let params = test_params 3 in
      do { (lease, w) \<leftarrow> test_init_new test_setup;
           (claim0, lease, w) \<leftarrow> test_claim ''alice'' params (lease, w);
           assert_that (current_for w ''alice'' claim0);
           let w = test_sleep (claim_expire ideal_chrono (fst w) claim0) w;
           (claim1, lease, w) \<leftarrow> test_claim ''bob'' params (lease, w);
           assert_that (current_for w ''bob'' claim1);
           let rsrc = snd (snd w);
           assert_that (sp_holder_identity rsrc = Some ''bob'');
           assert_that (time_eq (sp_renew_time rsrc) (claimed_at claim1 params));
           assert_that (sp_acquire_time rsrc = sp_renew_time rsrc);
           assert_that (sp_lease_duration_seconds rsrc = Some 3);
           assert_that (sp_lease_transitions rsrc = Some 2) })"

definition test_renews :: "unit option" where
  "test_renews =
     (let params = \<lparr>cp_lease_duration = test_secs 8, cp_renew_grace_period = test_secs 5\<rparr> in
      do { (lease, w) \<leftarrow> test_init_new test_setup;
           (claim0, lease, w) \<leftarrow> test_claim ''alice'' params (lease, w);
           assert_that (current_for w ''alice'' claim0);
           let w = test_sleep (Some (test_secs 1)) w;
           (claim1, lease, w) \<leftarrow> test_claim ''alice'' params (lease, w);
           assert_that (claim0 = claim1);
           let w = test_sleep (expire_with_grace ideal_chrono (fst w) (cp_renew_grace_period params) claim0) w;
           (claim2, lease, w) \<leftarrow> test_claim ''alice'' params (lease, w);
           assert_that (current_for w ''alice'' claim2);
           assert_that (claim2 \<noteq> claim0);
           let rsrc = snd (snd w);
           assert_that (sp_holder_identity rsrc = Some ''alice'');
           assert_that (time_eq (sp_renew_time rsrc) (claimed_at claim2 params));
           assert_that (time_eq (sp_acquire_time rsrc) (claimed_at claim0 params));
           assert_that (sp_lease_duration_seconds rsrc = Some 8);
           assert_that (sp_lease_transitions rsrc = Some 1);
           let w = test_sleep (claim_expire ideal_chrono (fst w) claim2) w;
           (lease1, w) \<leftarrow> test_init_new w;
           (claim3, lease1, w) \<leftarrow> test_claim ''bob'' params (lease1, w);
           assert_that (current_for w ''bob'' claim3);
           (claim4, lease, w) \<leftarrow> test_claim ''alice'' params (lease, w);
           assert_that (current_for w ''bob'' claim4);
           let rsrc = snd (snd w);
           assert_that (sp_holder_identity rsrc = Some ''bob'');
           assert_that (time_eq (sp_renew_time rsrc) (claimed_at claim3 params));
           assert_that (time_eq (sp_acquire_time rsrc) (claimed_at claim3 params));
           assert_that (sp_lease_duration_seconds rsrc = Some 8);
           assert_that (sp_lease_transitions rsrc = Some 2) })"

definition test_vacates :: "unit option" where
  "test_vacates =
     (let params = test_params 3 in
      do { (lease, w) \<leftarrow> test_init_new test_setup;
           (claim, lease, w) \<leftarrow> test_claim ''id'' params (lease, w);
           assert_that (current_for w ''id'' claim);
           (released, lease, w) \<leftarrow> test_vacate ''id'' (lease, w);
           assert_that released;
           let rsrc = snd (snd w);
           assert_that (sp_holder_identity rsrc = None);
           assert_that (sp_renew_time rsrc = None);
           assert_that (sp_acquire_time rsrc = None);
           assert_that (sp_lease_duration_seconds rsrc = None);
           assert_that (sp_lease_transitions rsrc = Some 1) })"

definition test_vacate_expired_noop :: "unit option" where
  "test_vacate_expired_noop =
     (let params = test_params 3 in
      do { (lease, w) \<leftarrow> test_init_new test_setup;
           (claim, lease, w) \<leftarrow> test_claim ''id'' params (lease, w);
           assert_that (current_for w ''id'' claim);
           let w = test_sleep (claim_expire ideal_chrono (fst w) claim) w;
           (released, lease, w) \<leftarrow> test_vacate ''id'' (lease, w);
           assert_that (\<not> released);
           let rsrc = snd (snd w);
           assert_that (sp_holder_identity rsrc = Some ''id'');
           assert_that (time_eq (sp_renew_time rsrc) (claimed_at claim params));
           assert_that (time_eq (sp_acquire_time rsrc) (claimed_at claim params));
           assert_that (sp_lease_duration_seconds rsrc = Some 3);
           assert_that (sp_lease_transitions rsrc = Some 1) })"

subsection \<open>Evaluation\<close>

lemmas lease_eval = test_setup_def test_init_new_def test_claim_def test_vacate_def test_sleep_def time_eq_def test_secs_def test_params_def
  claimed_at_def claim_expire_def expire_with_grace_def lm_init_def lm_get_def parse_lease_def u16_or_zero_def unheld_lease_def
  is_current_for_def is_current_def merge_spec_def demo_micro_def lease_run_simps

lemma test_vacates_pass: "test_vacates = Some ()"
  by (simp add: test_vacates_def lease_eval lm_vacate_def vacate_patch_def)

lemma test_vacate_expired_noop_pass: "test_vacate_expired_noop = Some ()"
  by (simp add: test_vacate_expired_noop_def lease_eval lm_vacate_def)

lemma test_exclusive_pass: "test_exclusive = Some ()"
  by (simp add: test_exclusive_def lease_eval claim_decision_def renew_at_def claim_grace_def drop_expired_def)

lemma test_expires_pass: "test_expires = Some ()"
  by (simp add: test_expires_def lease_eval claim_decision_def renew_at_def claim_grace_def)

lemma test_renews_pass: "test_renews = Some ()"
  by (simp add: test_renews_def lease_eval claim_decision_def renew_at_def claim_grace_def drop_expired_def lm_renew_def renew_patch_def
      lm_resync_def)

subsection \<open>Properties\<close>


end
