(* ===== verification/Log_Filter.thy ===== *)
theory Log_Filter
  imports Log_Format
begin

text \<open>
  \<open>kubert/src/log.rs\<close>: \<open>LogFilter\<close>, a filter that can be cloned. It wraps a shared \<open>EnvFilter\<close> (crate
  \<open>tracing_subscriber\<close>, a parameter) and passes every call of the traits \<open>Layer\<close> and
  \<open>Filter\<close> on to it. An \<open>EnvFilter\<close> changes its own state behind a shared reference, so the model
  keeps the filters in a heap of reference counted cells and a \<open>LogFilter\<close> is an address.
\<close>

subsection \<open>Reference counted cells\<close>

text \<open>A cell is a strong count and a value; the address of a cell is its position. A cell with count 0 is freed.\<close>

type_synonym 'f arc_heap = "(nat \<times> 'f) list"

definition arc_alive :: "'f arc_heap \<Rightarrow> nat \<Rightarrow> bool" where
  "arc_alive h a \<longleftrightarrow> a < length h \<and> 0 < fst (h ! a)"

definition arc_new :: "'f \<Rightarrow> 'f arc_heap \<Rightarrow> nat \<times> 'f arc_heap" where
  "arc_new f h = (length h, h @ [(1, f)])"

definition arc_clone :: "nat \<Rightarrow> 'f arc_heap \<Rightarrow> 'f arc_heap option" where
  "arc_clone a h = (if arc_alive h a then Some (h[a := (Suc (fst (h ! a)), snd (h ! a))]) else None)"

definition arc_drop :: "nat \<Rightarrow> 'f arc_heap \<Rightarrow> 'f arc_heap option" where
  "arc_drop a h = (if arc_alive h a then Some (h[a := (fst (h ! a) - 1, snd (h ! a))]) else None)"

text \<open>A call through a reference to the cell; using a freed cell has no result.\<close>

definition arc_call :: "nat \<Rightarrow> ('f \<Rightarrow> 'x \<times> 'f) \<Rightarrow> 'f arc_heap \<Rightarrow> ('x \<times> 'f arc_heap) option" where
  "arc_call a g h =
     (if arc_alive h a then (case g (snd (h ! a)) of (x, f) \<Rightarrow> Some (x, h[a := (fst (h ! a), f)])) else None)"

subsection \<open>The filter\<close>

text \<open>
  What the code uses of \<open>EnvFilter\<close>. The context stands for the subscriber and the thread of the call.
\<close>

record ('f, 'meta, 'interest, 'level, 'attrs, 'vals, 'ctx) env_filter =
  ef_from_default_env :: 'f
  ef_parse :: "bool \<Rightarrow> string \<Rightarrow> string + 'f"
  ef_register_callsite :: "'meta \<Rightarrow> 'f \<Rightarrow> 'interest \<times> 'f"
  ef_callsite_enabled :: "'meta \<Rightarrow> 'f \<Rightarrow> 'interest \<times> 'f"
  ef_max_level_hint :: "'f \<Rightarrow> 'level option \<times> 'f"
  ef_enabled :: "'meta \<Rightarrow> 'ctx \<Rightarrow> 'f \<Rightarrow> bool \<times> 'f"
  ef_on_new_span :: "'attrs \<Rightarrow> nat \<Rightarrow> 'ctx \<Rightarrow> 'f \<Rightarrow> unit \<times> 'f"
  ef_on_record :: "nat \<Rightarrow> 'vals \<Rightarrow> 'ctx \<Rightarrow> 'f \<Rightarrow> unit \<times> 'f"
  ef_on_enter :: "nat \<Rightarrow> 'ctx \<Rightarrow> 'f \<Rightarrow> unit \<times> 'f"
  ef_on_exit :: "nat \<Rightarrow> 'ctx \<Rightarrow> 'f \<Rightarrow> unit \<times> 'f"
  ef_on_close :: "nat \<Rightarrow> 'ctx \<Rightarrow> 'f \<Rightarrow> unit \<times> 'f"
  ef_fmt :: "'f \<Rightarrow> string"

datatype log_filter = LogFilter (lf_cell: nat)

definition log_filter_from_default_env ::
  "('f, 'meta, 'interest, 'level, 'attrs, 'vals, 'ctx) env_filter \<Rightarrow> 'f arc_heap \<Rightarrow> log_filter \<times> 'f arc_heap" where
  "log_filter_from_default_env E h = (case arc_new (ef_from_default_env E) h of (a, h) \<Rightarrow> (LogFilter a, h))"

text \<open>The directives are parsed without regular expressions.\<close>

definition log_filter_from_str ::
  "('f, 'meta, 'interest, 'level, 'attrs, 'vals, 'ctx) env_filter \<Rightarrow> string \<Rightarrow> 'f arc_heap \<Rightarrow> (string + log_filter) \<times> 'f arc_heap" where
  "log_filter_from_str E s h =
     (case ef_parse E False s of
        Inl e \<Rightarrow> (Inl e, h)
      | Inr filt \<Rightarrow> (case arc_new filt h of (a, h) \<Rightarrow> (Inr (LogFilter a), h)))"

text \<open>\<open>impl Layer for LogFilter\<close>.\<close>

definition layer_register_callsite where
  "layer_register_callsite E metadata lf = arc_call (lf_cell lf) (ef_register_callsite E metadata)"

definition layer_max_level_hint where
  "layer_max_level_hint E lf = arc_call (lf_cell lf) (ef_max_level_hint E)"

definition layer_enabled where
  "layer_enabled E metadata ctx lf = arc_call (lf_cell lf) (ef_enabled E metadata ctx)"

definition layer_on_new_span where
  "layer_on_new_span E attrs span ctx lf = arc_call (lf_cell lf) (ef_on_new_span E attrs span ctx)"

definition layer_on_record where
  "layer_on_record E span vals ctx lf = arc_call (lf_cell lf) (ef_on_record E span vals ctx)"

definition layer_on_enter where
  "layer_on_enter E span ctx lf = arc_call (lf_cell lf) (ef_on_enter E span ctx)"

definition layer_on_exit where
  "layer_on_exit E span ctx lf = arc_call (lf_cell lf) (ef_on_exit E span ctx)"

definition layer_on_close where
  "layer_on_close E span ctx lf = arc_call (lf_cell lf) (ef_on_close E span ctx)"

text \<open>\<open>impl Filter for LogFilter\<close>.\<close>

definition filter_enabled where
  "filter_enabled E meta ctx lf = arc_call (lf_cell lf) (ef_enabled E meta ctx)"

definition filter_callsite_enabled where
  "filter_callsite_enabled E meta lf = arc_call (lf_cell lf) (ef_callsite_enabled E meta)"

definition filter_max_level_hint where
  "filter_max_level_hint E lf = arc_call (lf_cell lf) (ef_max_level_hint E)"

definition filter_on_new_span where
  "filter_on_new_span E attrs span ctx lf = arc_call (lf_cell lf) (ef_on_new_span E attrs span ctx)"

definition filter_on_record where
  "filter_on_record E span vals ctx lf = arc_call (lf_cell lf) (ef_on_record E span vals ctx)"

definition filter_on_enter where
  "filter_on_enter E span ctx lf = arc_call (lf_cell lf) (ef_on_enter E span ctx)"

definition filter_on_exit where
  "filter_on_exit E span ctx lf = arc_call (lf_cell lf) (ef_on_exit E span ctx)"

definition filter_on_close where
  "filter_on_close E span ctx lf = arc_call (lf_cell lf) (ef_on_close E span ctx)"

definition log_filter_fmt :: "('f, 'meta, 'interest, 'level, 'attrs, 'vals, 'ctx) env_filter \<Rightarrow> log_filter \<Rightarrow> 'f arc_heap \<Rightarrow> string option" where
  "log_filter_fmt E lf h = map_option fst (arc_call (lf_cell lf) (\<lambda>f. (ef_fmt E f, f)) h)"

lemmas log_filter_methods = layer_register_callsite_def layer_max_level_hint_def layer_enabled_def layer_on_new_span_def
  layer_on_record_def layer_on_enter_def layer_on_exit_def layer_on_close_def filter_enabled_def filter_callsite_enabled_def
  filter_max_level_hint_def filter_on_new_span_def filter_on_record_def filter_on_enter_def filter_on_exit_def filter_on_close_def

subsection \<open>Calls as data\<close>

text \<open>
  The calls a subscriber makes on a filter and their answers. The same call goes to one or the other
  trait; they differ in how they ask about a call site.
\<close>

datatype ('meta, 'attrs, 'vals, 'ctx) filter_call =
    Callsite 'meta | MaxLevelHint | Enabled 'meta 'ctx
  | OnNewSpan 'attrs nat 'ctx | OnRecord nat 'vals 'ctx | OnEnter nat 'ctx | OnExit nat 'ctx | OnClose nat 'ctx

datatype filter_trait = LayerTrait | FilterTrait

datatype ('interest, 'level) filter_answer = AInterest 'interest | ALevel "'level option" | AEnabled bool | ANone

definition answer :: "('x \<Rightarrow> 'y) \<Rightarrow> ('x \<times> 'h) option \<Rightarrow> ('y \<times> 'h) option" where
  "answer g = map_option (map_prod g id)"

fun log_filter_call where
  "log_filter_call E LayerTrait lf (Callsite m) h = answer AInterest (layer_register_callsite E m lf h)"
| "log_filter_call E LayerTrait lf MaxLevelHint h = answer ALevel (layer_max_level_hint E lf h)"
| "log_filter_call E LayerTrait lf (Enabled m c) h = answer AEnabled (layer_enabled E m c lf h)"
| "log_filter_call E LayerTrait lf (OnNewSpan at i c) h = answer (\<lambda>_. ANone) (layer_on_new_span E at i c lf h)"
| "log_filter_call E LayerTrait lf (OnRecord i v c) h = answer (\<lambda>_. ANone) (layer_on_record E i v c lf h)"
| "log_filter_call E LayerTrait lf (OnEnter i c) h = answer (\<lambda>_. ANone) (layer_on_enter E i c lf h)"
| "log_filter_call E LayerTrait lf (OnExit i c) h = answer (\<lambda>_. ANone) (layer_on_exit E i c lf h)"
| "log_filter_call E LayerTrait lf (OnClose i c) h = answer (\<lambda>_. ANone) (layer_on_close E i c lf h)"
| "log_filter_call E FilterTrait lf (Callsite m) h = answer AInterest (filter_callsite_enabled E m lf h)"
| "log_filter_call E FilterTrait lf MaxLevelHint h = answer ALevel (filter_max_level_hint E lf h)"
| "log_filter_call E FilterTrait lf (Enabled m c) h = answer AEnabled (filter_enabled E m c lf h)"
| "log_filter_call E FilterTrait lf (OnNewSpan at i c) h = answer (\<lambda>_. ANone) (filter_on_new_span E at i c lf h)"
| "log_filter_call E FilterTrait lf (OnRecord i v c) h = answer (\<lambda>_. ANone) (filter_on_record E i v c lf h)"
| "log_filter_call E FilterTrait lf (OnEnter i c) h = answer (\<lambda>_. ANone) (filter_on_enter E i c lf h)"
| "log_filter_call E FilterTrait lf (OnExit i c) h = answer (\<lambda>_. ANone) (filter_on_exit E i c lf h)"
| "log_filter_call E FilterTrait lf (OnClose i c) h = answer (\<lambda>_. ANone) (filter_on_close E i c lf h)"

text \<open>The same calls on a bare \<open>EnvFilter\<close> that nobody shares.\<close>

fun env_call where
  "env_call E LayerTrait (Callsite m) f = map_prod AInterest id (ef_register_callsite E m f)"
| "env_call E FilterTrait (Callsite m) f = map_prod AInterest id (ef_callsite_enabled E m f)"
| "env_call E t MaxLevelHint f = map_prod ALevel id (ef_max_level_hint E f)"
| "env_call E t (Enabled m c) f = map_prod AEnabled id (ef_enabled E m c f)"
| "env_call E t (OnNewSpan at i c) f = map_prod (\<lambda>_. ANone) id (ef_on_new_span E at i c f)"
| "env_call E t (OnRecord i v c) f = map_prod (\<lambda>_. ANone) id (ef_on_record E i v c f)"
| "env_call E t (OnEnter i c) f = map_prod (\<lambda>_. ANone) id (ef_on_enter E i c f)"
| "env_call E t (OnExit i c) f = map_prod (\<lambda>_. ANone) id (ef_on_exit E i c f)"
| "env_call E t (OnClose i c) f = map_prod (\<lambda>_. ANone) id (ef_on_close E i c f)"

lemma answer_arc_call: "answer g (arc_call a k h) = arc_call a (\<lambda>f. map_prod g id (k f)) h"
  by (simp add: answer_def arc_call_def split: prod.split)

lemma log_filter_call_env: "log_filter_call E t lf c h = arc_call (lf_cell lf) (env_call E t c) h"
  by (cases t; cases c) (simp_all add: log_filter_methods answer_arc_call, simp_all add: arc_call_def)

subsection \<open>Clones of one filter\<close>

text \<open>
  A program clones and drops its filters and calls them through any clone. What Rust's ownership
  guarantees is that a clone is used only while one is owned.
\<close>

datatype 'c filter_act = CloneFilter log_filter | DropFilter log_filter | CallFilter log_filter filter_trait 'c

fun owned_acts :: "(nat \<Rightarrow> nat) \<Rightarrow> 'c filter_act list \<Rightarrow> bool" where
  "owned_acts n [] \<longleftrightarrow> True"
| "owned_acts n (CloneFilter lf # acts) \<longleftrightarrow> 0 < n (lf_cell lf) \<and> owned_acts (n(lf_cell lf := Suc (n (lf_cell lf)))) acts"
| "owned_acts n (DropFilter lf # acts) \<longleftrightarrow> 0 < n (lf_cell lf) \<and> owned_acts (n(lf_cell lf := n (lf_cell lf) - 1)) acts"
| "owned_acts n (CallFilter lf t c # acts) \<longleftrightarrow> 0 < n (lf_cell lf) \<and> owned_acts n acts"

fun log_filter_acts where
  "log_filter_acts E [] h = Some ([], h)"
| "log_filter_acts E (CloneFilter lf # acts) h = do { h \<leftarrow> arc_clone (lf_cell lf) h; log_filter_acts E acts h }"
| "log_filter_acts E (DropFilter lf # acts) h = do { h \<leftarrow> arc_drop (lf_cell lf) h; log_filter_acts E acts h }"
| "log_filter_acts E (CallFilter lf t c # acts) h =
     do { (x, h) \<leftarrow> log_filter_call E t lf c h; (xs, h) \<leftarrow> log_filter_acts E acts h; Some ((lf_cell lf, x) # xs, h) }"

fun calls_of :: "nat \<Rightarrow> 'c filter_act list \<Rightarrow> (filter_trait \<times> 'c) list" where
  "calls_of a [] = []"
| "calls_of a (CallFilter lf t c # acts) = (if lf_cell lf = a then (t, c) # calls_of a acts else calls_of a acts)"
| "calls_of a (_ # acts) = calls_of a acts"

fun env_calls where
  "env_calls E [] f = ([], f)"
| "env_calls E ((t, c) # cs) f =
     (case env_call E t c f of (x, f) \<Rightarrow> (case env_calls E cs f of (xs, f) \<Rightarrow> (x # xs, f)))"

definition strong_counts :: "'f arc_heap \<Rightarrow> nat \<Rightarrow> nat" where
  "strong_counts h a = (if a < length h then fst (h ! a) else 0)"

definition answers_from :: "nat \<Rightarrow> (nat \<times> 'x) list \<Rightarrow> 'x list" where
  "answers_from a xs = map snd (filter (\<lambda>x. fst x = a) xs)"

lemma alive_counts: "arc_alive h a \<longleftrightarrow> 0 < strong_counts h a"
  by (simp add: arc_alive_def strong_counts_def)

lemma strong_counts_update:
  "a < length h \<Longrightarrow> strong_counts (h[a := (n, f)]) = (strong_counts h)(a := n)"
  by (auto simp: strong_counts_def fun_eq_iff nth_list_update)

lemma snd_update [simp]: "snd (h[a := (n, snd (h ! a))] ! b) = snd (h ! b)"
  by (cases "a < length h") (auto simp: nth_list_update list_update_beyond)

text \<open>
  A \<open>LogFilter\<close> is a cloneable \<open>EnvFilter\<close>: whatever clones are made and dropped and whichever clone and
  trait a call goes through, no call meets a freed filter, and every filter answers as the bare
  \<open>EnvFilter\<close> would to the calls made on any of its clones, in order.
\<close>
theorem log_filter_is_env_filter:
  assumes "owned_acts (strong_counts h) acts"
  shows "\<exists>xs h'. log_filter_acts E acts h = Some (xs, h') \<and> length h' = length h \<and>
    (\<forall>a < length h. (answers_from a xs, snd (h' ! a)) = env_calls E (calls_of a acts) (snd (h ! a)))"
  using assms
proof (induction acts arbitrary: h)
  case (Cons act acts)
  show ?case
  proof (cases act)
    case (CloneFilter lf)
    let ?h = "h[lf_cell lf := (Suc (fst (h ! lf_cell lf)), snd (h ! lf_cell lf))]"
    have a: "arc_alive h (lf_cell lf)" "lf_cell lf < length h" "strong_counts h (lf_cell lf) = fst (h ! lf_cell lf)"
      using Cons.prems CloneFilter
      by (auto simp: alive_counts strong_counts_def split: if_splits)
    have "owned_acts (strong_counts ?h) acts" unfolding strong_counts_update[OF a(2)] using Cons.prems CloneFilter a by simp
    from Cons.IH[OF this] CloneFilter a show ?thesis by (simp add: arc_clone_def)
  next
    case (DropFilter lf)
    let ?h = "h[lf_cell lf := (fst (h ! lf_cell lf) - 1, snd (h ! lf_cell lf))]"
    have a: "arc_alive h (lf_cell lf)" "lf_cell lf < length h" "strong_counts h (lf_cell lf) = fst (h ! lf_cell lf)"
      using Cons.prems DropFilter
      by (auto simp: alive_counts strong_counts_def split: if_splits)
    have "owned_acts (strong_counts ?h) acts" unfolding strong_counts_update[OF a(2)] using Cons.prems DropFilter a by simp
    from Cons.IH[OF this] DropFilter a show ?thesis by (simp add: arc_drop_def)
  next
    case (CallFilter lf t c)
    obtain x f where f: "env_call E t c (snd (h ! lf_cell lf)) = (x, f)" by fastforce
    let ?h = "h[lf_cell lf := (fst (h ! lf_cell lf), f)]"
    have a: "arc_alive h (lf_cell lf)" "lf_cell lf < length h" using Cons.prems CallFilter
      by (auto simp: alive_counts strong_counts_def split: if_splits)
    have "strong_counts ?h = strong_counts h"
      using a by (auto simp: strong_counts_update strong_counts_def fun_eq_iff)
    with Cons.IH[of ?h] Cons.prems CallFilter obtain xs h' where
      "log_filter_acts E acts ?h = Some (xs, h')" "length h' = length h"
      and IH: "\<And>b. b < length h \<Longrightarrow> (answers_from b xs, snd (h' ! b)) = env_calls E (calls_of b acts) (snd (?h ! b))"
      by auto
    moreover have "(answers_from b ((lf_cell lf, x) # xs), snd (h' ! b)) =
        env_calls E (calls_of b (CallFilter lf t c # acts)) (snd (h ! b))" if "b < length h" for b
      using IH[OF that] a f by (auto simp: answers_from_def nth_list_update split: prod.splits)
    ultimately show ?thesis using CallFilter a f by (simp add: log_filter_call_env arc_call_def)
  qed
qed (simp add: answers_from_def)

text \<open>An \<open>EnvFilter\<close> that enables a call site inside the spans it was told about.\<close>

definition span_filter :: "(nat list, nat, bool, nat, unit, unit, unit) env_filter" where
  "span_filter = \<lparr>ef_from_default_env = [], ef_parse = (\<lambda>_ s. if s = [] then Inl ''empty'' else Inr []),
     ef_register_callsite = (\<lambda>m f. (True, f)), ef_callsite_enabled = (\<lambda>m f. (f \<noteq> [], f)),
     ef_max_level_hint = (\<lambda>f. (None, f)), ef_enabled = (\<lambda>m _ f. (m \<in> set f, f)),
     ef_on_new_span = (\<lambda>_ i _ f. ((), f)), ef_on_record = (\<lambda>i _ _ f. ((), f)), ef_on_enter = (\<lambda>i _ f. ((), i # f)),
     ef_on_exit = (\<lambda>i _ f. ((), removeAll i f)), ef_on_close = (\<lambda>i _ f. ((), removeAll i f)), ef_fmt = (\<lambda>_. ''spans'')\<rparr>"

theorem log_filter_is_env_filter_witness:
  "\<exists>xs h'. log_filter_acts span_filter [CloneFilter (LogFilter 0), CallFilter (LogFilter 0) LayerTrait (OnEnter 3 ()),
       DropFilter (LogFilter 0), CallFilter (LogFilter 0) FilterTrait (Enabled 3 ())] [(1, [])] = Some (xs, h') \<and>
     answers_from 0 xs = [ANone, AEnabled True] \<and> snd (h' ! 0) = [3]"
proof -
  have "owned_acts (strong_counts [(1, [] :: nat list)]) [CloneFilter (LogFilter 0), CallFilter (LogFilter 0) LayerTrait (OnEnter 3 () ::
      (nat, unit, unit, unit) filter_call), DropFilter (LogFilter 0), CallFilter (LogFilter 0) FilterTrait (Enabled 3 ())]"
    by (simp add: strong_counts_def)
  from log_filter_is_env_filter[OF this, of span_filter] show ?thesis by (auto simp: span_filter_def)
qed

end
