(* ===== verification/Process_Metrics.thy ===== *)
theory Process_Metrics
  imports Kubert_Prelude
begin

text \<open>
  \<open>kubert-prometheus-process/src/lib.rs\<close>: the collector of process metrics. The operating system
  (\<open>sysconf\<close> and the \<open>/proc\<close> file system), the clocks, the conversion of a duration to a
  floating-point number and the text encoder are parameters. A build for Linux is modelled.
\<close>

subsection \<open>The operating system\<close>

datatype limit_value = Unlimited | Value "64 word"

record proc_stat =
  st_pid :: int
  st_utime :: "64 word"
  st_stime :: "64 word"
  st_vsize :: "64 word"
  st_rss :: "64 word"
  st_num_threads :: int

datatype sysconf_name = SC_PAGESIZE | SC_CLK_TCK

text \<open>
  An entry of a directory listing can fail to be read, and so can its type; the value is whether it
  is a directory.
\<close>

record 'e linux_api =
  la_sysconf :: "sysconf_name \<Rightarrow> 64 word"
  la_last_os_error :: "'e"
  la_stat :: "'e + proc_stat"
  la_read_fds :: "int \<Rightarrow> 'e + ('e + ('e + bool)) list"
  la_limits :: "'e + (limit_value \<times> limit_value)"

subsection \<open>System\<close>

record sys_info =
  sy_page_size :: "64 word"
  sy_ms_per_tick :: "64 word"

definition sysconf :: "'e linux_api \<Rightarrow> sysconf_name \<Rightarrow> 'e + 64 word" where
  "sysconf A name =
     (let val = la_sysconf A name in if sint val \<le> 0 then Inl (la_last_os_error A) else Inr val)"

definition page_size :: "'e linux_api \<Rightarrow> 'e + 64 word" where
  "page_size A = sysconf A SC_PAGESIZE"

definition ms_per_tick :: "'e linux_api \<Rightarrow> 'e + 64 word" where
  "ms_per_tick A = sum_bind (sysconf A SC_CLK_TCK) (\<lambda>clock_ticks_per_sec. Inr (1000 div clock_ticks_per_sec))"

definition system_load :: "'e linux_api \<Rightarrow> 'e + sys_info" where
  "system_load A =
     sum_bind (page_size A) (\<lambda>ps.
     sum_bind (ms_per_tick A) (\<lambda>ms.
       Inr \<lparr>sy_page_size = ps, sy_ms_per_tick = ms\<rparr>))"

text \<open>The loop stops at the first entry that fails. Its counter cannot reach the end of 64 bits in practice; it is a natural number.\<close>

fun count_fds :: "nat \<Rightarrow> ('e + ('e + bool)) list \<Rightarrow> 'e + nat" where
  "count_fds n [] = Inr n"
| "count_fds n (f # fs) =
     sum_bind f (\<lambda>file_type. sum_bind file_type (\<lambda>is_dir. count_fds (if is_dir then n else n + 1) fs))"

definition open_fds :: "'e linux_api \<Rightarrow> int \<Rightarrow> 'e + nat" where
  "open_fds A pid = sum_bind (la_read_fds A pid) (count_fds 0)"

definition max_fds :: "'e linux_api \<Rightarrow> 'e + 64 word" where
  "max_fds A = sum_bind (la_limits A) (\<lambda>(soft_limit, hard_limit).
     (case soft_limit of
        Unlimited \<Rightarrow> (case hard_limit of Unlimited \<Rightarrow> Inr 0 | Value hard \<Rightarrow> Inr hard)
      | Value soft \<Rightarrow> Inr soft))"

subsection \<open>Encoding\<close>

datatype metric_unit = Seconds | Bytes
datatype metric_type = CounterType | GaugeType
datatype 'f metric_value = FloatVal 'f | IntVal int

record 'f metric =
  mt_name :: string
  mt_unit :: "metric_unit option"
  mt_type :: metric_type
  mt_value :: "'f metric_value"

datatype fmt_error = FmtError

text \<open>\<open>emit\<close> writes one metric: \<open>encode_descriptor\<close> followed by the value's \<open>encode\<close>.\<close>

type_synonym ('f, 'w) emitter = "'f metric \<Rightarrow> 'w \<Rightarrow> fmt_error + 'w"

text \<open>A metric that is only present if its value could be determined; a failure is logged.\<close>

definition emit_optional :: "('f, 'w) emitter \<Rightarrow> string \<Rightarrow> 'e + int \<Rightarrow> 'w \<Rightarrow> fmt_error + 'w" where
  "emit_optional emit name v w =
     (case v of
        Inl e \<Rightarrow> Inr w
      | Inr n \<Rightarrow> emit \<lparr>mt_name = name, mt_unit = None, mt_type = GaugeType, mt_value = IntVal n\<rparr> w)"

text \<open>
  \<open>secs_f64\<close> converts a number of milliseconds to seconds. The result is \<open>None\<close> if an
  arithmetic overflow panics; \<open>u64 as i64\<close> reinterprets the bits.
\<close>

definition system_encode ::
  "bool \<Rightarrow> (nat \<Rightarrow> 'f) \<Rightarrow> 'e linux_api \<Rightarrow> ('f, 'w) emitter \<Rightarrow> sys_info \<Rightarrow> 'w \<Rightarrow> (fmt_error + 'w) option" where
  "system_encode oc secs_f64 A emit sys w =
     (case la_stat A of
        Inl e \<Rightarrow> Some (Inr w)
      | Inr stat \<Rightarrow> do {
          clock_ticks \<leftarrow> rust_add oc (st_utime stat) (st_stime stat);
          ms \<leftarrow> rust_mul oc clock_ticks (sy_ms_per_tick sys);
          (case emit \<lparr>mt_name = ''cpu'', mt_unit = Some Seconds, mt_type = CounterType,
                      mt_value = FloatVal (secs_f64 (unat ms))\<rparr> w of
             Inl e \<Rightarrow> Some (Inl e)
           | Inr w \<Rightarrow>
          (case emit \<lparr>mt_name = ''virtual_memory'', mt_unit = Some Bytes, mt_type = GaugeType,
                      mt_value = IntVal (sint (st_vsize stat))\<rparr> w of
             Inl e \<Rightarrow> Some (Inl e)
           | Inr w \<Rightarrow> do {
          rss \<leftarrow> rust_mul oc (st_rss stat) (sy_page_size sys);
          Some (sum_bind (emit \<lparr>mt_name = ''resident_memory'', mt_unit = Some Bytes, mt_type = GaugeType,
                                mt_value = IntVal (sint rss)\<rparr> w) (\<lambda>w.
                sum_bind (emit_optional emit ''open_fds'' (map_sum id int (open_fds A (st_pid stat))) w) (\<lambda>w.
                sum_bind (emit_optional emit ''max_fds'' (map_sum id sint (max_fds A)) w) (\<lambda>w.
                  emit \<lparr>mt_name = ''threads'', mt_unit = None, mt_type = GaugeType,
                        mt_value = IntVal (st_num_threads stat)\<rparr> w)))) })) })"

text \<open>The collector: the uptime (\<open>Instant\<close>s in nanoseconds), then what the system reports.\<close>

record process_collector =
  pc_start_time :: nat
  pc_system :: sys_info

definition collector_encode ::
  "bool \<Rightarrow> (nat \<Rightarrow> 'f) \<Rightarrow> (nat \<Rightarrow> 'f) \<Rightarrow> 'e linux_api \<Rightarrow> ('f, 'w) emitter \<Rightarrow> nat \<Rightarrow> process_collector \<Rightarrow> 'w \<Rightarrow>
   (fmt_error + 'w) option" where
  "collector_encode oc nanos_f64 secs_f64 A emit now c w =
     (case emit \<lparr>mt_name = ''uptime'', mt_unit = Some Seconds, mt_type = CounterType,
                 mt_value = FloatVal (nanos_f64 (now - pc_start_time c))\<rparr> w of
        Inl e \<Rightarrow> Some (Inl e)
      | Inr w \<Rightarrow> system_encode oc secs_f64 A emit (pc_system c) w)"

text \<open>
  \<open>ClockMetric\<close>: every operation returns the current time, in whole seconds since the epoch. The
  system time is a number of nanoseconds, negative before the epoch. An operation does not change
  what the metric reports.
\<close>

definition clock_get :: "int \<Rightarrow> int" where
  "clock_get now_ns = (if 0 \<le> now_ns then now_ns div 1000000000 else - ((- now_ns) div 1000000000))"

datatype gauge_op = GaugeInc | GaugeIncBy int | GaugeDec | GaugeDecBy int | GaugeSet int | GaugeGet

definition clock_op :: "gauge_op \<Rightarrow> int \<Rightarrow> int" where
  "clock_op op now_ns =
     (case op of GaugeInc \<Rightarrow> clock_get now_ns | GaugeIncBy _ \<Rightarrow> clock_get now_ns | GaugeDec \<Rightarrow> clock_get now_ns
      | GaugeDecBy _ \<Rightarrow> clock_get now_ns | GaugeSet _ \<Rightarrow> clock_get now_ns | GaugeGet \<Rightarrow> clock_get now_ns)"

text \<open>
  \<open>register\<close>: what it adds to a registry. The start time is read before the system is loaded;
  a time before the epoch panics (\<open>None\<close>), and an error of the system leaves the registry as it was.
\<close>

datatype 'f registered = StartTime 'f | ClockTime | CollectProcess process_collector

definition process_register ::
  "(nat \<Rightarrow> 'f) \<Rightarrow> 'e linux_api \<Rightarrow> nat \<Rightarrow> int \<Rightarrow> 'f registered list \<Rightarrow> (('e + unit) \<times> 'f registered list) option" where
  "process_register nanos_f64 A start_time now_ns reg =
     (if now_ns < 0 then None
      else (case system_load A of
              Inl e \<Rightarrow> Some (Inl e, reg)
            | Inr system \<Rightarrow>
                Some (Inr (), reg @ [StartTime (nanos_f64 (nat now_ns)), ClockTime,
                  CollectProcess \<lparr>pc_start_time = start_time, pc_system = system\<rparr>])))"

subsection \<open>Properties\<close>

lemma system_load_Inr:
  "system_load A = Inr sys \<longleftrightarrow>
     0 < sint (la_sysconf A SC_PAGESIZE) \<and> 0 < sint (la_sysconf A SC_CLK_TCK) \<and>
     sys = \<lparr>sy_page_size = la_sysconf A SC_PAGESIZE, sy_ms_per_tick = 1000 div la_sysconf A SC_CLK_TCK\<rparr>"
  by (auto simp: system_load_def sum_bind_Inr page_size_def ms_per_tick_def sysconf_def Let_def)

text \<open>An encoder that appends to a list and never fails.\<close>

definition list_emit :: "('f, 'f metric list) emitter" where
  "list_emit m w = Inr (w @ [m])"

fun metric_value_of :: "string \<Rightarrow> 'f metric list \<Rightarrow> 'f metric_value option" where
  "metric_value_of name [] = None"
| "metric_value_of name (m # ms) = (if mt_name m = name then Some (mt_value m) else metric_value_of name ms)"

lemma system_encode_list:
  assumes "la_stat A = Inr stat"
    and "(unat (st_utime stat) + unat (st_stime stat)) * unat (sy_ms_per_tick sys) < 2 ^ 64"
    and "unat (st_utime stat) + unat (st_stime stat) < 2 ^ 64"
    and "unat (st_rss stat) * unat (sy_page_size sys) < 2 ^ 64"
  shows "system_encode oc secs_f64 A list_emit sys [] = Some (Inr
    ([\<lparr>mt_name = ''cpu'', mt_unit = Some Seconds, mt_type = CounterType,
       mt_value = FloatVal (secs_f64 ((unat (st_utime stat) + unat (st_stime stat)) * unat (sy_ms_per_tick sys)))\<rparr>,
      \<lparr>mt_name = ''virtual_memory'', mt_unit = Some Bytes, mt_type = GaugeType, mt_value = IntVal (sint (st_vsize stat))\<rparr>,
      \<lparr>mt_name = ''resident_memory'', mt_unit = Some Bytes, mt_type = GaugeType,
       mt_value = IntVal (sint (st_rss stat * sy_page_size sys))\<rparr>] @
     (case open_fds A (st_pid stat) of Inl _ \<Rightarrow> [] | Inr n \<Rightarrow>
       [\<lparr>mt_name = ''open_fds'', mt_unit = None, mt_type = GaugeType, mt_value = IntVal (int n)\<rparr>]) @
     (case max_fds A of Inl _ \<Rightarrow> [] | Inr n \<Rightarrow>
       [\<lparr>mt_name = ''max_fds'', mt_unit = None, mt_type = GaugeType, mt_value = IntVal (sint n)\<rparr>]) @
     [\<lparr>mt_name = ''threads'', mt_unit = None, mt_type = GaugeType, mt_value = IntVal (st_num_threads stat)\<rparr>]))"
proof -
  have ticks: "rust_add oc (st_utime stat) (st_stime stat) = Some (st_utime stat + st_stime stat)"
    "unat (st_utime stat + st_stime stat) = unat (st_utime stat) + unat (st_stime stat)"
    using rust_add_exact[of "st_utime stat" "st_stime stat" oc] assms(3) by simp_all
  have ms: "rust_mul oc (st_utime stat + st_stime stat) (sy_ms_per_tick sys) =
      Some ((st_utime stat + st_stime stat) * sy_ms_per_tick sys)"
    "unat ((st_utime stat + st_stime stat) * sy_ms_per_tick sys) =
      (unat (st_utime stat) + unat (st_stime stat)) * unat (sy_ms_per_tick sys)"
    using rust_mul_exact[of "st_utime stat + st_stime stat" "sy_ms_per_tick sys" oc] assms(2) ticks(2) by simp_all
  have rss: "rust_mul oc (st_rss stat) (sy_page_size sys) = Some (st_rss stat * sy_page_size sys)"
    using rust_mul_exact[of "st_rss stat" "sy_page_size sys" oc] assms(4) by simp
  show ?thesis
    by (simp add: system_encode_def assms(1) ticks ms rss list_emit_def emit_optional_def split: sum.splits)
qed

definition process_ticks :: "proc_stat \<Rightarrow> nat" where
  "process_ticks stat = unat (st_utime stat) + unat (st_stime stat)"

lemma sint_unat_small: "unat w < 2 ^ 63 \<Longrightarrow> sint w = int (unat w)" for w :: "64 word"
proof -
  assume "unat w < 2 ^ 63"
  then have "uint w < 2 ^ 63" using of_nat_less_iff[of "unat w" "2 ^ 63", where 'a = int] by simp
  moreover have "- (2 ^ 63) \<le> uint w" by (rule order_trans[OF _ uint_ge_0]) simp
  ultimately have "signed_take_bit 63 (uint w) = uint w" by (intro signed_take_bit_int_eq_self)
  then show ?thesis by (simp add: sint_uint)
qed

text \<open>
  C37. What a scrape of the process metrics reports, when no intermediate value overflows 64 bits: the CPU
  counter falls short of the true CPU time by exactly the remainder of the clock frequency (so it is exact
  when the frequency divides 1000, and always zero above 1000 ticks per second), the resident memory is
  the number of pages times the page size, and a failure to count or to read the limit of the file
  descriptors removes only that metric.
\<close>
theorem process_metrics_report:
  assumes "system_load A = Inr sys" and "la_stat A = Inr stat"
    and "hz = unat (la_sysconf A SC_CLK_TCK)"
    and "process_ticks stat < 2 ^ 64" and "process_ticks stat * (1000 div hz) < 2 ^ 64"
    and "unat (st_rss stat) * unat (la_sysconf A SC_PAGESIZE) < 2 ^ 63"
  shows "\<exists>ms c. system_encode oc secs_f64 A list_emit sys [] = Some (Inr ms) \<and>
    metric_value_of ''cpu'' ms = Some (FloatVal (secs_f64 c)) \<and>
    c * hz + process_ticks stat * (1000 mod hz) = 1000 * process_ticks stat \<and>
    metric_value_of ''resident_memory'' ms =
      Some (IntVal (int (unat (st_rss stat) * unat (la_sysconf A SC_PAGESIZE)))) \<and>
    metric_value_of ''open_fds'' ms =
      (case open_fds A (st_pid stat) of Inl _ \<Rightarrow> None | Inr n \<Rightarrow> Some (IntVal (int n))) \<and>
    metric_value_of ''max_fds'' ms = (case max_fds A of Inl _ \<Rightarrow> None | Inr n \<Rightarrow> Some (IntVal (sint n))) \<and>
    metric_value_of ''threads'' ms = Some (IntVal (st_num_threads stat))"
proof -
  let ?ps = "la_sysconf A SC_PAGESIZE"
  have sys: "sy_page_size sys = ?ps" "unat (sy_ms_per_tick sys) = 1000 div hz"
    using assms(1,3) by (auto simp: system_load_Inr unat_div_distrib)
  have rss: "unat (st_rss stat * ?ps) = unat (st_rss stat) * unat ?ps"
    using assms(6) rust_mul_exact[of "st_rss stat" ?ps] by simp
  have "sint (st_rss stat * ?ps) = int (unat (st_rss stat) * unat ?ps)"
    using sint_unat_small[of "st_rss stat * ?ps"] assms(6) by (simp add: rss)
  moreover have "(process_ticks stat * (1000 div hz)) * hz + process_ticks stat * (1000 mod hz) = 1000 * process_ticks stat"
  proof -
    have "(1000 div hz) * hz + 1000 mod hz = 1000" by simp
    then have "process_ticks stat * ((1000 div hz) * hz + 1000 mod hz) = process_ticks stat * 1000" by (simp only:)
    then show ?thesis by (simp only: distrib_left mult.assoc mult.commute[of "process_ticks stat" 1000])
  qed
  ultimately show ?thesis
    using system_encode_list[OF assms(2), of sys oc secs_f64] assms(4-6)
    by (auto simp: sys process_ticks_def split: sum.splits)
qed

definition demo_linux :: "string linux_api" where
  "demo_linux = \<lparr>la_sysconf = (\<lambda>n. case n of SC_PAGESIZE \<Rightarrow> 4096 | SC_CLK_TCK \<Rightarrow> 300), la_last_os_error = ''EINVAL'',
     la_stat = Inr \<lparr>st_pid = 7, st_utime = 500, st_stime = 100, st_vsize = 9000000, st_rss = 20, st_num_threads = 4\<rparr>,
     la_read_fds = (\<lambda>_. Inr [Inr (Inr False), Inl ''gone'']), la_limits = Inr (Unlimited, Value 1024)\<rparr>"

theorem process_metrics_report_witness:
  "\<exists>ms c. system_encode True id demo_linux list_emit \<lparr>sy_page_size = 4096, sy_ms_per_tick = 3\<rparr> [] = Some (Inr ms) \<and>
     metric_value_of ''cpu'' ms = Some (FloatVal c) \<and> c * 300 + 60000 = (600000 :: nat) \<and>
     metric_value_of ''resident_memory'' ms = Some (IntVal 81920) \<and> metric_value_of ''open_fds'' ms = None \<and>
     metric_value_of ''max_fds'' ms = Some (IntVal 1024)"
proof -
  have load: "system_load demo_linux = Inr \<lparr>sy_page_size = 4096, sy_ms_per_tick = 3\<rparr>"
    by (simp add: system_load_Inr demo_linux_def)
  show ?thesis
    using process_metrics_report[OF load, of _ 300 True id]
    by (auto simp: demo_linux_def process_ticks_def open_fds_def max_fds_def)
qed

end
