(* ===== verification/Tokio_Metrics.thy ===== *)
theory Tokio_Metrics
  imports Kubert_Prelude
begin

text \<open>
  \<open>kubert-prometheus-tokio/src/lib.rs\<close>: the exporter of the Tokio runtime's metrics. The probes
  (\<open>tokio_metrics::RuntimeIntervals\<close>) and floating-point addition are parameters. A counter is a
  64-bit word that wraps around on overflow; a gauge is an \<open>i64\<close>.
\<close>

record 'f tokio_metrics =
  tm_workers :: int
  tm_park :: "64 word"
  tm_noop :: "64 word"
  tm_steal :: "64 word"
  tm_steal_operations :: "64 word"
  tm_remote_schedule :: "64 word"
  tm_local_schedule :: "64 word"
  tm_overflow :: "64 word"
  tm_polls :: "64 word"
  tm_busy :: "'f"
  tm_injection_queue_depth :: int
  tm_local_queue_depth :: int
  tm_budget_forced_yield :: "64 word"
  tm_io_driver_ready :: "64 word"

text \<open>The fields of \<open>tokio_metrics::RuntimeMetrics\<close> that the probe reads or could read.\<close>

record 'f runtime_probe =
  pr_workers_count :: "64 word"
  pr_total_park_count :: "64 word"
  pr_total_noop_count :: "64 word"
  pr_total_steal_count :: "64 word"
  pr_total_steal_operations :: "64 word"
  pr_num_remote_schedules :: "64 word"
  pr_total_local_schedule_count :: "64 word"
  pr_total_overflow_count :: "64 word"
  pr_total_polls_count :: "64 word"
  pr_total_busy_secs :: "'f"
  pr_injection_queue_depth :: "64 word"
  pr_total_local_queue_depth :: "64 word"
  pr_budget_forced_yield_count :: "64 word"
  pr_io_driver_ready_count :: "64 word"

definition metrics_default :: "'f \<Rightarrow> 'f tokio_metrics" where
  "metrics_default zero = \<lparr>tm_workers = 0, tm_park = 0, tm_noop = 0, tm_steal = 0, tm_steal_operations = 0,
     tm_remote_schedule = 0, tm_local_schedule = 0, tm_overflow = 0, tm_polls = 0, tm_busy = zero,
     tm_injection_queue_depth = 0, tm_local_queue_depth = 0, tm_budget_forced_yield = 0, tm_io_driver_ready = 0\<rparr>"

text \<open>\<open>register\<close>: the names under which the metrics are registered, in order, and whether a unit is given.\<close>

definition tokio_register :: "'f \<Rightarrow> (string \<times> bool) list \<Rightarrow> 'f tokio_metrics \<times> (string \<times> bool) list" where
  "tokio_register zero reg =
     (metrics_default zero,
      reg @ [(''workers'', False), (''park'', False), (''noop'', False), (''steal'', False), (''steal_operations'', False),
             (''remote_schedule'', False), (''local_schedule'', False), (''overflow'', False), (''polls'', False),
             (''busy'', True), (''injection_queue_depth'', False), (''local_queue_depth'', False),
             (''budget_forced_yield'', False), (''io_driver_ready'', False)])"

definition checked_sub :: "'n::len word \<Rightarrow> 'n word \<Rightarrow> 'n word option" where
  "checked_sub a b = (if b \<le> a then Some (a - b) else None)"

definition probe :: "('f \<Rightarrow> 'f \<Rightarrow> 'f) \<Rightarrow> 'f runtime_probe \<Rightarrow> 'f tokio_metrics \<Rightarrow> 'f tokio_metrics" where
  "probe fadd p m =
     (let m = m\<lparr>tm_park := tm_park m + pr_total_park_count p,
                tm_noop := tm_noop m + pr_total_noop_count p,
                tm_steal := tm_steal m + pr_total_steal_count p,
                tm_steal_operations := tm_steal_operations m + pr_total_steal_operations p,
                tm_remote_schedule := tm_remote_schedule m + pr_num_remote_schedules p,
                tm_local_schedule := tm_local_schedule m + pr_total_local_schedule_count p,
                tm_overflow := tm_overflow m + pr_total_overflow_count p,
                tm_polls := tm_polls m + pr_total_polls_count p,
                tm_busy := fadd (tm_busy m) (pr_total_busy_secs p),
                tm_io_driver_ready := tm_io_driver_ready m + pr_io_driver_ready_count p\<rparr>;
          m = m\<lparr>tm_workers := sint (pr_workers_count p),
                tm_injection_queue_depth := sint (pr_total_local_queue_depth p),
                tm_local_queue_depth := sint (pr_total_local_queue_depth p)\<rparr>
      in case checked_sub (pr_budget_forced_yield_count p) (tm_budget_forced_yield m) of
           Some delta \<Rightarrow> m\<lparr>tm_budget_forced_yield := tm_budget_forced_yield m + delta\<rparr>
         | None \<Rightarrow> m)"

text \<open>
  \<open>updated\<close>: one probe per tick, forever; this is the state after a number of ticks. The probes are
  those of a stream that does not end (its end would panic).
\<close>

definition updated :: "('f \<Rightarrow> 'f \<Rightarrow> 'f) \<Rightarrow> 'f runtime_probe list \<Rightarrow> 'f tokio_metrics \<Rightarrow> 'f tokio_metrics" where
  "updated fadd ps m = fold (probe fadd) ps m"

subsection \<open>Properties\<close>

lemma probe_fields:
  "tm_polls (probe fadd p m) = tm_polls m + pr_total_polls_count p"
  "tm_park (probe fadd p m) = tm_park m + pr_total_park_count p"
  "tm_remote_schedule (probe fadd p m) = tm_remote_schedule m + pr_num_remote_schedules p"
  "tm_busy (probe fadd p m) = fadd (tm_busy m) (pr_total_busy_secs p)"
  "tm_workers (probe fadd p m) = sint (pr_workers_count p)"
  "tm_local_queue_depth (probe fadd p m) = sint (pr_total_local_queue_depth p)"
  "tm_injection_queue_depth (probe fadd p m) = sint (pr_total_local_queue_depth p)"
  "tm_budget_forced_yield (probe fadd p m) = max (tm_budget_forced_yield m) (pr_budget_forced_yield_count p)"
  by (auto simp: probe_def Let_def checked_sub_def max_def split: option.splits)

lemma updated_counters:
  "tm_polls (updated fadd ps m) = tm_polls m + (\<Sum>p\<leftarrow>ps. pr_total_polls_count p)"
  "tm_budget_forced_yield (updated fadd ps m) = fold (\<lambda>p. max (pr_budget_forced_yield_count p)) ps (tm_budget_forced_yield m)"
  by (induction ps arbitrary: m) (auto simp: updated_def probe_fields add.assoc max.commute)

lemma fold_max_Max: "fold (\<lambda>p. max (f p)) ps a = Max (insert a (f ` set ps))" for a :: "'a::linorder"
proof (induction ps arbitrary: a)
  case (Cons p ps)
  then show ?case by (cases "ps = []") (auto simp: Max.insert_remove max.assoc max.left_commute max.commute insert_commute)
qed simp

lemma updated_snoc: "updated fadd (ps @ [p]) m = probe fadd p (updated fadd ps m)"
  by (simp add: updated_def)


end
