(* ===== verification/Runtime_Requeue.thy ===== *)
theory Runtime_Requeue
  imports Runtime_Watch
begin

text \<open>
  \<open>Runtime::requeue\<close> (\<open>kubert/src/runtime.rs\<close>): a requeue channel whose receiver ends on
  shutdown. The receiver is the one of \<open>Requeue\<close> inside the \<open>CancelOnShutdown\<close> of
  \<open>Shutdown\<close>; here are the polls of the two together and what becomes of scheduled items when the runtime shuts
  down.
\<close>

subsection \<open>Polling the receiver of a runtime\<close>

text \<open>\<open>None\<close> is a panic or a poll that does not return.\<close>

definition requeue_poll ::
  "('c, 'a rq_op) mpsc_rx \<Rightarrow> ('d, 'k, 'a) delay_queue \<Rightarrow> ('rx, unit) poll_fn \<Rightarrow> instant \<Rightarrow>
   (('c, 'd, 'k, 'a) rq_receiver, 'rx) cancel_on_shutdown \<Rightarrow>
   ('a option poll \<times> (('c, 'd, 'k, 'a) rq_receiver, 'rx) cancel_on_shutdown) option" where
  "requeue_poll C Q sig now st =
     (case poll_requeued C Q now (cos_inner st) of
        Some (Some (p, r)) \<Rightarrow> cos_poll_next (\<lambda>_ _. (p, r)) sig now st
      | _ \<Rightarrow> None)"

fun requeue_drive ::
  "('c, 'a rq_op) mpsc_rx \<Rightarrow> ('d, 'k, 'a) delay_queue \<Rightarrow> ('rx, unit) poll_fn \<Rightarrow> instant list \<Rightarrow>
   (('c, 'd, 'k, 'a) rq_receiver, 'rx) cancel_on_shutdown \<Rightarrow>
   ('a option poll list \<times> (('c, 'd, 'k, 'a) rq_receiver, 'rx) cancel_on_shutdown) option" where
  "requeue_drive C Q sig [] st = Some ([], st)"
| "requeue_drive C Q sig (now # nows) st =
     do { (out, st) \<leftarrow> requeue_poll C Q sig now st;
          if out = Ready None then Some ([out], st)
          else do { (outs, st) \<leftarrow> requeue_drive C Q sig nows st; Some (out # outs, st) } }"

subsection \<open>The contract of a queue that is on time\<close>

text \<open>An entry expires at the latest \<open>slack\<close> after its deadline, the granularity of the timer.\<close>

locale prompt_requeue = requeue_libs C S msgs closed Q entries
  for C :: "('c, 'a rq_op) mpsc_rx" and S :: "('c, 'a rq_op) mpsc_tx" and msgs closed
    and Q :: "('d, 'k, 'a) delay_queue" and entries +
  fixes slack :: nat
  assumes prompt: "entries d k = Some (a, t) \<Longrightarrow> t + slack \<le> now \<Longrightarrow>
    \<exists>ka d'. dq_poll_expired Q now d = (Ready (Some ka), d')"

lemma wheel_prompt:
  assumes "wheel_entries d k = Some (a, t)" and "t \<le> now"
  shows "\<exists>ka d'. dq_poll_expired wheel now d = (Ready (Some ka), d')"
proof -
  have "find (\<lambda>k. case snd d k of None \<Rightarrow> False | Some (_, t) \<Rightarrow> t \<le> now) [0..<fst d] \<noteq> None"
    unfolding find_None_iff not_not using assms by (intro exI[of _ k]) (auto simp: wheel_entries_def split: if_splits)
  then obtain k' where k': "wheel_due now d = Some k'" by (auto simp: wheel_due_def)
  with wheel_due_Some[OF k'] show ?thesis by (auto simp: wheel_def)
qed

interpretation list_prompt: prompt_requeue list_rx list_tx fst snd wheel wheel_entries 0
  by unfold_locales (use wheel_prompt in fastforce)

context prompt_requeue
begin

lemma dequeue_prompt:
  assumes "rq_inv entries r" and "rq_deadlines entries r a = Some t" and "t + slack \<le> now"
  shows "\<exists>b r'. rq_dequeue Q now r = (Ready (Some b), r')"
proof -
  obtain k where k: "rq_pending r a = Some k" "entries (rq_q r) k = Some (a, t)"
    using assms(1,2) by (auto simp: rq_when_def rq_linked_def split: option.splits)
  from prompt[OF k(2) assms(3)] obtain ka d' where "dq_poll_expired Q now (rq_q r) = (Ready (Some ka), d')" by blast
  with k(1) show ?thesis by (cases ka) (auto simp: rq_dequeue_def)
qed

lemma poll_prompt:
  assumes "rq_inv entries r" and "poll_requeued C Q now r = Some (Some (out, r'))"
  shows "\<exists>handled. msgs (rq_rx r) = handled @ msgs (rq_rx r') \<and>
    (\<forall>a t. fold rq_spec handled (rq_deadlines entries r) a = Some t \<and> t + slack \<le> now \<longrightarrow> (\<exists>b. out = Ready (Some b)))"
proof -
  obtain r1 handled where r1: "(if rq_rx_closed r then Some (Some r) else rq_recv_loop C Q r) = Some (Some r1)"
    "rq_inv entries r1" "msgs (rq_rx r) = handled @ msgs (rq_rx r1)"
    "rq_deadlines entries r1 = fold rq_spec handled (rq_deadlines entries r)"
    using recv_loop_refines[OF assms(1)] assms(1) by (cases "rq_rx_closed r") fastforce+
  then have deq: "rq_dequeue Q now r1 = (out, r')" using assms(2) by (simp add: poll_requeued_def)
  have "\<exists>b. out = Ready (Some b)" if "fold rq_spec handled (rq_deadlines entries r) a = Some t" "t + slack \<le> now" for a t
    using dequeue_prompt[OF r1(2), of a t now] that r1(4) deq by auto
  moreover have "rq_rx r' = rq_rx r1" using dequeue_refines[OF r1(2) deq] by simp
  ultimately show ?thesis using r1(3) by (intro exI[of _ handled]) auto
qed

text \<open>
  Shutdown has been signaled and no message is left: each poll yields an overdue item, until there
  is none and the stream ends.
\<close>

lemma drive_drains:
  assumes "rq_inv entries (cos_inner st)" and "msgs (rq_rx (cos_inner st)) = []" and "finite (dom (rq_deadlines entries (cos_inner st)))"
    and "card (dom (rq_deadlines entries (cos_inner st))) < length nows" and "\<forall>n \<in> set nows. now \<le> n"
    and "\<And>n f. \<exists>f'. sig n f = (Ready (), f')" and "cos_shutdown st = Running f0"
  shows "\<exists>xs st'. requeue_drive C Q sig nows st = Some (map (Ready \<circ> Some) xs @ [Ready None], st') \<and>
    distinct xs \<and> set xs \<subseteq> dom (rq_deadlines entries (cos_inner st)) \<and>
    {a. \<exists>t. rq_deadlines entries (cos_inner st) a = Some t \<and> t + slack \<le> now} \<subseteq> set xs"
  using assms
proof (induction nows arbitrary: st)
  case (Cons n nows)
  let ?r = "cos_inner st" let ?m = "rq_deadlines entries ?r"
  obtain out r' where p: "poll_requeued C Q n ?r = Some (Some (out, r'))" "rq_inv entries r'" "msgs (rq_rx r') = []"
    "case out of Ready (Some obj) \<Rightarrow> (\<exists>t \<le> n. ?m obj = Some t) \<and> rq_deadlines entries r' = ?m(obj := None)
       | Ready None \<Rightarrow> ?m = Map.empty | Pending \<Rightarrow> rq_deadlines entries r' = ?m"
    using poll_refines[OF Cons.prems(1), of n] Cons.prems(2) by (fastforce split: poll.splits option.splits)
  have late: "\<exists>b. out = Ready (Some b)" if "?m a = Some t" "t + slack \<le> now" for a t
    using poll_prompt[OF Cons.prems(1) p(1)] p(3) Cons.prems(2,5) that by fastforce
  show ?case
  proof (cases "\<exists>b. out = Ready (Some b)")
    case True
    then obtain b where b: "out = Ready (Some b)" by blast
    let ?st = "st\<lparr>cos_inner := r'\<rparr>"
    from b p have m: "b \<in> dom ?m" "rq_deadlines entries r' = ?m(b := None)" by auto
    then have fin: "finite (dom (?m(b := None)))" "card (dom (?m(b := None))) < length nows"
      using Cons.prems(3,4) card_Diff1_less[of "dom ?m" b] by simp_all
    have m': "rq_deadlines entries (cos_inner ?st) = ?m(b := None)" using m(2) by simp
    have "\<exists>xs st'. requeue_drive C Q sig nows ?st = Some (map (Ready \<circ> Some) xs @ [Ready None], st') \<and>
        distinct xs \<and> set xs \<subseteq> dom (?m(b := None)) \<and> {a. \<exists>t. (?m(b := None)) a = Some t \<and> t + slack \<le> now} \<subseteq> set xs"
      by (rule Cons.IH[of ?st, unfolded m']) (use p(2,3) fin Cons.prems(5-7) in \<open>simp_all del: fun_upd_apply\<close>)
    then obtain xs st' where xs: "requeue_drive C Q sig nows ?st = Some (map (Ready \<circ> Some) xs @ [Ready None], st')"
      "distinct xs" "set xs \<subseteq> dom (?m(b := None))"
      "{a. \<exists>t. (?m(b := None)) a = Some t \<and> t + slack \<le> now} \<subseteq> set xs"
      by (elim exE conjE)
    then show ?thesis
      using p(1) b m(1) by (intro exI[of _ "b # xs"] exI[of _ st']) (auto simp: requeue_poll_def cos_poll_next_def split: if_splits)
  next
    case False
    obtain f' where "sig n f0 = (Ready (), f')" using Cons.prems(6) by blast
    with False late show ?thesis
      using p(1) Cons.prems(7)
      by (cases out; intro exI[of _ "[]"]) (auto simp: requeue_poll_def cos_poll_next_def is_ready_def split: option.splits poll.splits)
  qed
qed simp

end

subsection \<open>The stream before and at shutdown\<close>

text \<open>The stream yields what the receiver alone would yield, up to the poll at which it ends.\<close>

lemma count_items: "count_list (items outs) a = count_list outs (Ready (Some a))"
  by (induction outs rule: items.induct) auto

context requeue_libs
begin

lemma drive_polls:
  assumes "rq_inv entries (cos_inner st)" and "cos_shutdown st = Running f0"
  shows "\<exists>outs st' outs' ns. requeue_drive C Q sig nows st = Some (outs, st') \<and>
    rq_polls C Q ns (cos_inner st) = Some (outs', cos_inner st') \<and> items outs = items outs' \<and>
    (if Ready None \<in> set outs
     then cos_shutdown st' = Finished \<or> rq_rx_closed (cos_inner st') \<and> rq_deadlines entries (cos_inner st') = Map.empty
     else \<exists>f. cos_shutdown st' = Running f)"
  using assms
proof (induction nows arbitrary: st f0)
  case Nil
  then show ?case by (intro exI[of _ "[]"] exI[of _ st]) simp
next
  case (Cons now nows)
  obtain out r' where p: "poll_requeued C Q now (cos_inner st) = Some (Some (out, r'))" "rq_inv entries r'"
    and ended: "out = Ready None \<Longrightarrow> rq_rx_closed r' \<and> rq_deadlines entries r' = Map.empty"
    using poll_refines[OF Cons.prems(1), of now] by fastforce
  obtain q f' where sig: "sig now f0 = (q, f')" by fastforce
  consider (item) b where "out = Ready (Some b)" | (ended) "out = Ready None" | (cancelled) "out = Pending" "q = Ready ()"
    | (pending) "out = Pending" "q = Pending"
    by (metis option.exhaust poll.exhaust unit.exhaust)
  then show ?case
  proof cases
    case (item b)
    let ?st = "st\<lparr>cos_inner := r'\<rparr>"
    obtain outs st' outs' ns where "requeue_drive C Q sig nows ?st = Some (outs, st')"
      "rq_polls C Q ns r' = Some (outs', cos_inner st')" "items outs = items outs'"
      "if Ready None \<in> set outs
       then cos_shutdown st' = Finished \<or> rq_rx_closed (cos_inner st') \<and> rq_deadlines entries (cos_inner st') = Map.empty
       else \<exists>f. cos_shutdown st' = Running f"
      using Cons.IH[of ?st f0] p(2) Cons.prems(2) by auto
    then show ?thesis using p(1) item
      by (intro exI[of _ "out # outs"] exI[of _ st'] exI[of _ "out # outs'"] exI[of _ "now # ns"])
        (simp add: requeue_poll_def cos_poll_next_def)
  next
    case ended
    then show ?thesis using p(1) \<open>out = Ready None \<Longrightarrow> _\<close>
      by (intro exI[of _ "[Ready None]"] exI[of _ "st\<lparr>cos_inner := r'\<rparr>"] exI[of _ "[Ready None]"] exI[of _ "[now]"])
        (simp add: requeue_poll_def cos_poll_next_def)
  next
    case cancelled
    then show ?thesis using p(1) sig Cons.prems(2)
      by (intro exI[of _ "[Ready None]"] exI[of _ "st\<lparr>cos_inner := r', cos_shutdown := Finished\<rparr>"] exI[of _ "[Pending]"] exI[of _ "[now]"])
        (simp add: requeue_poll_def cos_poll_next_def)
  next
    case pending
    let ?st = "st\<lparr>cos_inner := r', cos_shutdown := Running f'\<rparr>"
    obtain outs st' outs' ns where "requeue_drive C Q sig nows ?st = Some (outs, st')"
      "rq_polls C Q ns r' = Some (outs', cos_inner st')" "items outs = items outs'"
      "if Ready None \<in> set outs
       then cos_shutdown st' = Finished \<or> rq_rx_closed (cos_inner st') \<and> rq_deadlines entries (cos_inner st') = Map.empty
       else \<exists>f. cos_shutdown st' = Running f"
      using Cons.IH[of ?st f'] p(2) by auto
    then show ?thesis using p(1) pending sig Cons.prems(2)
      by (intro exI[of _ "Pending # outs"] exI[of _ st'] exI[of _ "Pending # outs'"] exI[of _ "now # ns"])
        (simp add: requeue_poll_def cos_poll_next_def)
  qed
qed

lemma drive_channel:
  assumes "requeue_drive C Q sig nows (runtime_requeue Q c r) = Some (outs, st)"
  shows "\<exists>handled. msgs c = handled @ msgs (rq_rx (cos_inner st)) \<and> rq_inv entries (cos_inner st) \<and>
    (\<forall>a. count_list (items outs) a + scheduled a (rq_deadlines entries (cos_inner st)) \<le> requeues a handled)"
proof -
  let ?r = "rq_channel Q c"
  obtain outs' ns where polls: "rq_polls C Q ns ?r = Some (outs', cos_inner st)" "items outs = items outs'"
    using drive_polls[of "runtime_requeue Q c r" "ru_shutdown_rx r" sig nows] inv_channel[of c] assms
    by (auto simp: runtime_requeue_def cos_new_def)
  have each: "\<exists>handled. msgs c = handled @ msgs (rq_rx (cos_inner st)) \<and> rq_inv entries (cos_inner st) \<and>
      count_list (items outs) a + scheduled a (rq_deadlines entries (cos_inner st)) \<le> requeues a handled" for a
    using polls_at_most_once[OF inv_channel, of ns c a] polls by (auto simp: count_items scheduled_def rq_channel_def)
  then obtain handled where handled: "msgs c = handled @ msgs (rq_rx (cos_inner st))" "rq_inv entries (cos_inner st)" by blast
  moreover have "count_list (items outs) a + scheduled a (rq_deadlines entries (cos_inner st)) \<le> requeues a handled" for a
    using each[of a] handled(1) by auto
  ultimately show ?thesis by blast
qed

lemma drive_finite:
  assumes "requeue_drive C Q sig nows (runtime_requeue Q c r) = Some (outs, st)"
  shows "finite (dom (rq_deadlines entries (cos_inner st))) \<and> card (dom (rq_deadlines entries (cos_inner st))) \<le> length (msgs c)"
proof -
  obtain handled where h: "msgs c = handled @ msgs (rq_rx (cos_inner st))"
    "\<And>a. count_list (items outs) a + scheduled a (rq_deadlines entries (cos_inner st)) \<le> requeues a handled"
    using drive_channel[OF assms] by blast
  let ?objs = "List.map_filter (\<lambda>op. case op of Requeue a _ \<Rightarrow> Some a | _ \<Rightarrow> None) handled"
  have "dom (rq_deadlines entries (cos_inner st)) \<subseteq> set ?objs"
  proof
    fix a assume "a \<in> dom (rq_deadlines entries (cos_inner st))"
    with h(2)[of a] have "0 < requeues a handled" by (auto simp: scheduled_def)
    then show "a \<in> set ?objs" by (force simp: requeues_def filter_empty_conv List.map_filter_def)
  qed
  moreover have "length ?objs \<le> length (msgs c)" using h(1) by (simp add: List.map_filter_def le_add1 le_trans[OF length_filter_le])
  ultimately show ?thesis
    by (meson List.finite_set card_length card_mono finite_subset le_trans)
qed

end

subsection \<open>Properties\<close>



text \<open>
  C17. Items that are due survive the shutdown: when shutdown is signaled after any use of the channel, and all messages
  have been taken, the stream first yields every scheduled item whose deadline has passed by more than
  the slack of the timer, each once, and then ends; so only items that are not due yet are lost.
\<close>
theorem requeue_shutdown_drains:
  assumes "prompt_requeue C S msgs closed Q entries slack"
    and "requeue_drive C Q sig nows (runtime_requeue Q c r) = Some (outs, st)" and "Ready None \<notin> set outs"
    and "msgs (rq_rx (cos_inner st)) = []" and "length (msgs c) < length nows'" and "\<forall>n \<in> set nows'. now \<le> n"
    and "\<And>n f. \<exists>f'. sig' n f = (Ready (), f')"
  shows "\<exists>xs st'. requeue_drive C Q sig' nows' st = Some (map (Ready \<circ> Some) xs @ [Ready None], st') \<and> distinct xs \<and>
    {a. \<exists>t. rq_deadlines entries (cos_inner st) a = Some t \<and> t + slack \<le> now} \<subseteq> set xs \<and>
    set xs \<subseteq> dom (rq_deadlines entries (cos_inner st))"
proof -
  have libs: "requeue_libs C S msgs closed Q entries" using assms(1) by (rule prompt_requeue.axioms(1))
  then have dq: "delay_queue_spec Q entries" by (simp add: requeue_libs_def)
  obtain f where "cos_shutdown st = Running f"
    using requeue_libs.drive_polls[OF libs, of "runtime_requeue Q c r" "ru_shutdown_rx r" sig nows]
      delay_queue_spec.inv_channel[OF dq, of c] assms(2,3)
    by (auto simp: runtime_requeue_def cos_new_def)
  moreover have "rq_inv entries (cos_inner st)" using requeue_libs.drive_channel[OF libs assms(2)] by blast
  moreover have "finite (dom (rq_deadlines entries (cos_inner st)))" "card (dom (rq_deadlines entries (cos_inner st))) < length nows'"
    using requeue_libs.drive_finite[OF libs assms(2)] assms(5) by auto
  ultimately show ?thesis using prompt_requeue.drive_drains[where sig = sig', OF assms(1) _ assms(4) _ _ assms(6,7)] by blast
qed

text \<open>Two items, one due after 10 and one after 50; shutdown comes at 20.\<close>

definition two_scheduled :: "((string rq_op list \<times> bool, string timer_wheel, nat, string) rq_receiver, unit) cancel_on_shutdown" where
  "two_scheduled = \<lparr>cos_inner = \<lparr>rq_rx = ([], False), rq_rx_closed = False,
     rq_q = (2, [0 \<mapsto> (''pod-a'', 10), 1 \<mapsto> (''pod-b'', 50)]), rq_pending = [''pod-a'' \<mapsto> 0, ''pod-b'' \<mapsto> 1]\<rparr>,
     cos_shutdown = Running ()\<rparr>"

lemma two_scheduled_driven:
  "requeue_drive list_rx wheel (\<lambda>now u. (Pending, u)) [2]
     (runtime_requeue wheel ([Requeue ''pod-a'' 10, Requeue ''pod-b'' 50], False) demo_runtime) = Some ([Pending], two_scheduled)"
  by (simp add: runtime_requeue_def demo_runtime_def cos_new_def rq_channel_def requeue_poll_def cos_poll_next_def poll_requeued_def
      list_recv_loop wheel_def wheel_due_def rq_dequeue_def rq_finish_def two_scheduled_def numeral_2_eq_2 upt_rec
      fun_upd_twist)

theorem requeue_shutdown_drains_witness:
  "\<exists>xs st'. requeue_drive list_rx wheel (\<lambda>now u. (Ready (), u)) [20, 20, 20] two_scheduled =
      Some (map (Ready \<circ> Some) xs @ [Ready None], st') \<and> distinct xs \<and> ''pod-a'' \<in> set xs"
proof -
  have "rq_deadlines wheel_entries (cos_inner two_scheduled) ''pod-a'' = Some 10"
    by (simp add: two_scheduled_def rq_when_def wheel_entries_def)
  with requeue_shutdown_drains[OF list_prompt.prompt_requeue_axioms two_scheduled_driven, of "[20, 20, 20]" 20 "\<lambda>now u. (Ready (), u)"]
  show ?thesis by (fastforce simp: two_scheduled_def)
qed

end
