(* ===== verification/Spec2Isabelle.thy ===== *)
theory Spec2Isabelle
  imports Example_Programs Lease_System Lease_Tests Log_Filter Process_Metrics Tokio_Metrics Runtime_Requeue Runtime_System
begin

text \<open>
  A verification of kubert (\<open>src/\<close>), a Rust library of runtime helpers for Kubernetes
  controllers: indexes of watched resources, delayed requeues, leases, an admin and an HTTPS server,
  metrics, and a runtime that puts them together. The models are functions and step relations
  translated from the source; what the source takes from other crates is a parameter.

  \<^bold>\<open>The parts and their theories.\<close> \<open>Kubert_Prelude\<close> has the shared types
  (polls, watch events, Rust's checked and wrapping arithmetic, hash sets with an unknown iteration order) and
  the lemmas on them.

  \<^item> \<open>Index\<close> (\<open>index.rs\<close>): \<open>namespaced_step\<close> and \<open>cluster_step\<close> handle
    one event; \<open>namespaced\<close> and \<open>cluster\<close> are the loops; \<open>ns_reset_default\<close> and
    \<open>cluster_reset_default\<close> are the default methods of the traits, whose contracts are the locales
    \<open>ns_resource_index\<close> and \<open>cluster_resource_index\<close>. An index that keeps its contract
    holds exactly the live resources; a listing that is interrupted loses keys.
  \<^item> \<open>Requeue\<close> (\<open>requeue.rs\<close>): the receiver refines a map from objects to deadlines and stays
    well-formed whatever its owners do; an object is yielded at most as often as it was requeued.
  \<^item> \<open>Log_And_Sleep\<close> (\<open>errors.rs\<close>), \<open>Initialized\<close> (\<open>initialized.rs\<close>),
    \<open>Shutdown\<close> (\<open>shutdown.rs\<close>): the stream adapters of a watch, each with what it passes
    through, when it ends and when it releases its resource; the shutdown task as a step relation.
  \<^item> \<open>Lease_Types\<close>, \<open>Lease_Server\<close>, \<open>Lease\<close>, \<open>Lease_System\<close>
    (\<open>lease.rs\<close>): the lease manager with every operation, the contract of the API server, and
    any number of managers on one lease over an unreliable network. Two processes never both hold a
    current claim, up to the truncation slack of timestamps; the sequential operations are runs of this system;
    \<open>ensure_claimed\<close> terminates when nobody interferes.
  \<^item> \<open>Lease_Diagnostics\<close>, \<open>Watch_Diagnostics\<close>, \<open>Diagnostics\<close>, \<open>Http\<close>,
    \<open>Admin\<close> (\<open>admin.rs\<close>, \<open>admin/\<close>): the state that is reported, the registry of
    weak references as a heap with owners that drop their entries, and the routes of the admin server.
  \<^item> \<open>Server\<close> (\<open>server.rs\<close>, \<open>server/\<close>): credentials with both TLS libraries, binding, the
    accept loop, and the tasks of all connections as a step relation: when the server holds no drain watch
    any more, no connection is open.
  \<^item> \<open>Client\<close> (\<open>client.rs\<close>), \<open>Log_Format\<close> and \<open>Log_Filter\<close>
    (\<open>log.rs\<close>; clones of a filter in a heap of shared cells act as one filter), \<open>Runtime_Metrics\<close> (\<open>runtime/metrics.rs\<close>), \<open>Process_Metrics\<close> and
    \<open>Tokio_Metrics\<close> (the two metrics crates).
  \<^item> \<open>Runtime_Build\<close>, \<open>Runtime_Watch\<close>, \<open>Runtime_Requeue\<close>, \<open>Runtime_Run\<close>,
    \<open>Runtime_System\<close> (\<open>runtime.rs\<close>): the builder; watches, caches and leases on a runtime; its
    requeue channels, which yield what is due before they end on shutdown; \<open>run\<close> as an interleaving of
    the readiness task and the main task with signals and dropped handles; and a program with an HTTPS
    server, whose tasks and those of \<open>run\<close> share one drain channel: when \<open>run\<close> returns, no connection
    is open, and shutdown never gets stuck.
  \<^item> \<open>Example_Watch_Pods\<close>, \<open>Example_Lease\<close>, \<open>Example_Lease_Run\<close>, \<open>Example_Programs\<close>
    (\<open>examples/\<close>): the two programs from their arguments to their end; the command \<open>run\<close> of the second
    as a process of a loop, the lease task and the runtime.
  \<^item> \<open>Unit_Tests\<close> and \<open>Lease_Tests\<close>: the unit tests of the crate and the integration tests of the
    lease manager, run on the model.

  \<^bold>\<open>How they interact.\<close> \<open>Runtime::watch\<close> stacks the adapters of the first three
  groups over a watcher: diagnostics and metrics inspect every outcome, \<open>LogAndSleep\<close> retries errors,
  \<open>ReleasesOnReady\<close> drops an initialization handle at the first item, and
  \<open>CancelOnShutdown\<close> ends the stream. \<open>run\<close> waits for all handles before it reports ready and
  for all drain watches before it returns. This theory feeds an index with the stream of a runtime and
  shows that the index and the diagnostics agree with the watch.

  \<^bold>\<open>State and effects.\<close> A struct is a record, an enum a datatype, an operation a function from state to
  state. A panic is \<open>None\<close>, an error a left summand; where both can happen, or a loop may not
  return, options are nested and the text of the definition says which is which. Integers that may
  overflow are words, and \<open>oc\<close> tells whether the build checks for overflow. The clock is an argument of
  every poll. Loops that may not end are \<open>partial_function (option)\<close>: there is no fuel, and
  that they return is proved. Tasks that run concurrently are step relations; an interleaving
  is a sequence of steps.

  \<^bold>\<open>Parameters.\<close> The contracts of what is not in the repository are locales, each interpreted on a
  concrete instance: the semaphore and the drain channel (\<open>semaphore\<close>, \<open>drain_channel\<close>,
  \<open>drain_release\<close>), the mpsc channel and the delay queue (\<open>mpsc_channel\<close>,
  \<open>delay_queue_spec\<close>), the sleep timer (\<open>sleep_timer\<close>), timestamps (\<open>chrono_spec\<close>), the
  API server with optimistic concurrency (\<open>lease_server_spec\<close>), and the iteration order of hash sets and maps
  (\<open>hash_order\<close>, \<open>map_values\<close>). Watchers, the reflector, PEM and TLS libraries, procfs
  and hyper are function arguments. All lease managers read one clock; clock skew between processes is not modelled.

  \<^bold>\<open>Not modelled.\<close> Tracing and log output; the serialization to JSON and the text encoding of a
  registry of metrics, whose registration only names them; argument parsing (clap); compression of HTTP bodies;
  atomic orderings of the readiness flag, which is one shared boolean, and programs that set it through
  a handle of their own; re-exports and build files; the test of the TLS loaders, which generates certificates
  with a library.

  \<^bold>\<open>Left to do.\<close> The admin server's connections and the lease task in the system of \<open>Runtime_System\<close>
  (neither holds a drain watch), and clock skew between lease managers.
\<close>

subsection \<open>An index fed by a watch of the runtime\<close>

text \<open>The references that the diagnostics of a watch hold follow the events, errors left out.\<close>

definition events_of :: "('x + 'r event) list \<Rightarrow> 'r event list" where
  "events_of = List.map_filter (\<lambda>x. case x of Inl _ \<Rightarrow> None | Inr e \<Rightarrow> Some e)"

lemma events_of_simps [simp]:
  "events_of [] = []" "events_of (Inl x # es) = events_of es" "events_of (Inr e # es) = e # events_of es"
  by (simp_all add: events_of_def List.map_filter_simps)

definition tracks :: "bool \<Rightarrow> obj_ref set \<Rightarrow> watch_state \<Rightarrow> bool" where
  "tracks listing L s \<longleftrightarrow> (if listing then dom (ws_resetting s) = L else dom (ws_known s) = L)"

lemma inspect_tracks:
  assumes "tracks b L s" and "wd_inspect oc T msg now (Inr e) s = Some s'" and "watch_phase e b = Some b'"
  shows "tracks b' (live_step (\<lambda>r. Some (to_key T r)) e L) s'"
  using assms by (cases e) (auto simp: tracks_def split: if_splits)

lemma inspect_error_tracks:
  "tracks b L s \<Longrightarrow> wd_inspect oc T msg now (Inl x) s = Some s' \<Longrightarrow> tracks b L s'"
  by (auto simp: tracks_def)

lemma inspects_track:
  assumes "tracks b L s" and "wd_inspects oc T msg es s = Some s'"
    and "fold_opt watch_phase (events_of (map snd es)) b = Some b'"
  shows "tracks b' (fold (live_step (\<lambda>r. Some (to_key T r))) (events_of (map snd es)) L) s'"
  using assms
proof (induction es arbitrary: b L s)
  case Nil
  then show ?case by (simp add: wd_inspects_def)
next
  case (Cons te es)
  then obtain s1 where s1: "wd_inspect oc T msg (fst te) (snd te) s = Some s1" "wd_inspects oc T msg es s1 = Some s'"
    by (auto simp: inspects_Cons)
  show ?case
  proof (cases "snd te")
    case (Inl x)
    then show ?thesis using Cons.IH[OF inspect_error_tracks[OF Cons.prems(1)] s1(2)] s1(1) Cons.prems(3) by simp
  next
    case (Inr e)
    then obtain b1 where "watch_phase e b = Some b1" "fold_opt watch_phase (events_of (map snd es)) b1 = Some b'"
      using Cons.prems(3) by (auto split: Option.bind_splits)
    then show ?thesis using Cons.IH[OF inspect_tracks[OF Cons.prems(1)] s1(2)] s1(1) Inr by simp
  qed
qed

text \<open>The live keys of a watch under another key, when the keys correspond on the watched resources.\<close>

lemma live_step_image:
  assumes "\<And>r. r \<in> R \<Longrightarrow> key r = Some (f (key' r))" and "inj_on f (key' ` R)"
    and "set_option (event_resource e) \<subseteq> R" and "L \<subseteq> key' ` R"
  shows "live_step key e (f ` L) = f ` live_step (\<lambda>r. Some (key' r)) e L"
    and "live_step (\<lambda>r. Some (key' r)) e L \<subseteq> key' ` R"
proof -
  have "f ` (L - {key' r}) = f ` L - {f (key' r)}" if "r \<in> R" for r
    using inj_on_image_set_diff[OF assms(2), of L "{key' r}"] assms(4) that by auto
  then show "live_step key e (f ` L) = f ` live_step (\<lambda>r. Some (key' r)) e L"
    using assms(1,3) by (cases e) auto
  show "live_step (\<lambda>r. Some (key' r)) e L \<subseteq> key' ` R"
    using assms(3,4) by (cases e) auto
qed

lemma live_image:
  assumes "\<And>r. r \<in> R \<Longrightarrow> key r = Some (f (key' r))" and "inj_on f (key' ` R)"
    and "\<forall>e \<in> set es. set_option (event_resource e) \<subseteq> R" and "L \<subseteq> key' ` R"
  shows "fold (live_step key) es (f ` L) = f ` fold (live_step (\<lambda>r. Some (key' r))) es L"
  using assms(3,4)
proof (induction es arbitrary: L)
  case (Cons e es)
  from live_step_image[OF assms(1,2), of e L] Cons.IH[of "live_step (\<lambda>r. Some (key' r)) e L"] Cons.prems
  show ?case by simp
qed simp

definition ref_name :: "obj_ref \<Rightarrow> string \<times> string" where
  "ref_name o1 = (the (or_namespace o1), the (or_name o1))"

lemma keyed_subset: "(\<And>r. r \<in> R \<Longrightarrow> key r \<noteq> None) \<Longrightarrow> set_option (event_resource e) \<subseteq> R \<Longrightarrow> keyed key e"
  by (cases e) auto

lemma watch_state_known:
  assumes "watch_state_of oc T RT msg (wd_new ts url selector) m0 log (Some d) m"
    and "fold_opt watch_phase (oks log) False = Some False"
  shows "dom (ws_known d) = live (\<lambda>r. Some (to_key T r)) (oks log)"
proof -
  obtain times where ts: "length times = length (items log)"
    "wd_inspects oc T msg (zip times (items log)) (wd_new ts url selector) = Some d"
    using assms(1) unfolding watch_state_of_def by (metis (no_types))
  moreover have "tracks False {} (wd_new ts url selector)" by (simp add: tracks_def wd_new_def)
  ultimately show ?thesis
    using inspects_track[of False "{}" "wd_new ts url selector" oc T msg "zip times (items log)" d False] assms(2)
    by (simp add: tracks_def live_def oks_items events_of_def)
qed


subsection \<open>A watch with an error and an event, polled once\<close>

definition demo_ext :: "string resource_ext" where
  "demo_ext = \<lparr>res_namespace = (\<lambda>_. Some ''default''), res_name = Some\<rparr>"

abbreviation demo_events :: "(unit watcher_error + string event) list" where
  "demo_events \<equiv> [Inl NoResourceVersion, Inr (Apply ''a''), Inr (Delete ''a'')]"

abbreviation demo_inner where
  "demo_inner \<equiv> watch_inner True demo_pods \<lparr>rt_kind = ''Pod'', rt_group = [], rt_version = ''v1''\<rparr> (\<lambda>_. ''error'') int
     (logged list_stream)"

lemma demo_watch_made:
  assumes "runtime_watch True counting_semaphore 0 0 ''/pods'' None ([], demo_events) (demo_runtime, demo_heap) = Some (st, r', h')"
  shows "ror_inner (fst (cos_inner st)) = las_fixed_delay 0 default_error_delay
    ((([], demo_events), Some (wd_new 0 ''/pods'' None)), ru_metrics demo_runtime)"
  using assms by (auto simp: runtime_watch_def watch_registered_def register_watch_def demo_runtime_def stream_new_def cos_new_def
      release_on_ready_def split: Option.bind_splits)

lemma demo_polled:
  assumes "las_poll_next (\<lambda>now deadline. deadline \<le> now) demo_inner 2 (las_fixed_delay 0 default_error_delay
      ((([], demo_events), Some (wd_new 0 ''/pods'' None)), m)) = Some (p, las')"
  shows "fst (fst (fst (las_stream las'))) = [Ready (Some (Inl NoResourceVersion)), Ready (Some (Inr (Apply ''a'')))]"
proof -
  note adapters = las_fixed_delay_def watch_inner_def inspect_watch_def instrument_watch_def logged_def list_stream_def
  show ?thesis using assms
    by (subst (asm) las_poll_next.simps, simp add: adapters) (subst (asm) las_poll_next.simps, auto simp: adapters)
qed

lemma demo_driven:
  assumes "ror_inner (fst (cos_inner st)) = las_fixed_delay 0 default_error_delay
      ((([], demo_events), Some (wd_new 0 ''/pods'' None)), m)"
    and "stream_drive (\<lambda>now deadline. deadline \<le> now) counting_semaphore watch_panicked demo_inner sig [2] st = Some (outs, st')"
  shows "fst (fst (fst (stream_state st'))) = [Ready (Some (Inl NoResourceVersion)), Ready (Some (Inr (Apply ''a'')))]"
  using assms
  by (auto simp: stream_poll_def cos_poll_next_def ror_poll_def dest!: demo_polled
      split: Option.bind_splits prod.splits poll.splits if_splits)

lemma demo_ref_name: "ref_name (to_key demo_pods x) = (''default'', x)" "res_key demo_ext x = Some (''default'', x)"
  by (simp_all add: ref_name_def to_key_def demo_pods_def demo_ext_def res_key_def)


end
